(* ===== verification/Prelude.thy ===== *)
theory Prelude
  imports Main "HOL-Library.List_Lexorder" "HOL-Library.Sublist" "HOL-Library.AList"
    "HOL-Library.Code_Target_Nat"
begin

text \<open>
  Shared vocabulary of the development: Python strings and byte strings as lists of
  numbers, dictionaries as association lists in insertion order, exceptions as values of a
  sum type with its bind and its monadic map, and the generic list lemmas the components
  use. The collection \<open>result_simps\<close> holds the equations of the result combinators.
\<close>

named_theorems result_simps

section \<open>Python strings\<close>

text \<open>
  A Python \<^verbatim>\<open>str\<close> is a sequence of code points, which go beyond the 256 values of
  \<^typ>\<open>char\<close>, so a string is a list of numbers. A literal of the source is
  \<open>lit ''...''\<close>, and one character of it is \<open>cp (CHR ...)\<close>. Byte strings are lists of
  numbers below 256.
\<close>

type_synonym pystr = "nat list"
type_synonym bytes = "nat list"

abbreviation cp :: "char \<Rightarrow> nat" where
  "cp c \<equiv> of_char c"

definition lit :: "string \<Rightarrow> pystr" where
  "lit s = map of_char s"

lemma lit_eq_iff [simp]: "lit s = lit t \<longleftrightarrow> s = t"
  unfolding lit_def by (simp add: inj_map_eq_map inj_of_char)

lemma lit_Nil [simp]: "lit [] = []"
  by (simp add: lit_def)

lemma lit_eq_Nil_iff [simp]: "lit s = [] \<longleftrightarrow> s = []" "[] = lit s \<longleftrightarrow> s = []"
  by (auto simp: lit_def)

lemma lit_append: "lit (s @ t) = lit s @ lit t"
  by (simp add: lit_def)

lemma length_lit [simp]: "length (lit s) = length s"
  by (simp add: lit_def)

lemma of_char_less_256 [simp]: "(of_char c :: nat) < 256"
  by simp

section \<open>Exceptions and results\<close>

text \<open>
  The exceptions of the language and its standard library that the modelled code raises
  or meets. The ones below \<^verbatim>\<open>ValueError\<close> in Python's class hierarchy are told apart
  because the code catches them in different places; \<open>is_value_error\<close> is the test that an
  \<^verbatim>\<open>except ValueError\<close> clause makes.
\<close>

datatype py_exc =
    ValueError pystr
  | JSONDecodeError
  | UnicodeDecodeError
  | UnicodeEncodeError
  | StructError
  | IntegrityError
  | KeyError
  | OverflowError

fun is_value_error :: "py_exc \<Rightarrow> bool" where
  "is_value_error (ValueError m) = True"
| "is_value_error JSONDecodeError = True"
| "is_value_error UnicodeDecodeError = True"
| "is_value_error UnicodeEncodeError = True"
| "is_value_error StructError = False"
| "is_value_error IntegrityError = False"
| "is_value_error KeyError = False"
| "is_value_error OverflowError = False"

text \<open>A call that may raise returns \<open>Inl\<close> of the exception or \<open>Inr\<close> of its value.\<close>

definition rbind :: "'e + 'a \<Rightarrow> ('a \<Rightarrow> 'e + 'b) \<Rightarrow> 'e + 'b" where
  "rbind m f = (case m of Inl e \<Rightarrow> Inl e | Inr x \<Rightarrow> f x)"

lemma rbind_simps [simp, result_simps]:
  "rbind (Inl e) f = Inl e"
  "rbind (Inr x) f = f x"
  by (simp_all add: rbind_def)

lemma rbind_eq_Inr_iff [result_simps]:
  "rbind m f = Inr y \<longleftrightarrow> (\<exists>x. m = Inr x \<and> f x = Inr y)"
  by (cases m) simp_all

lemma rbind_eq_Inl_iff:
  "rbind m f = Inl e \<longleftrightarrow> m = Inl e \<or> (\<exists>x. m = Inr x \<and> f x = Inl e)"
  by (cases m) simp_all

lemma rbind_cong [fundef_cong]:
  "m = m' \<Longrightarrow> (\<And>x. m' = Inr x \<Longrightarrow> f x = f' x) \<Longrightarrow> rbind m f = rbind m' f'"
  by (cases m') simp_all

text \<open>A list comprehension whose body may raise: the first exception ends it.\<close>

fun map_result :: "('a \<Rightarrow> 'e + 'b) \<Rightarrow> 'a list \<Rightarrow> 'e + 'b list" where
  "map_result f [] = Inr []"
| "map_result f (x # xs) = rbind (f x) (\<lambda>y. rbind (map_result f xs) (\<lambda>ys. Inr (y # ys)))"

lemma map_result_cong [fundef_cong]:
  "xs = ys \<Longrightarrow> (\<And>x. x \<in> set ys \<Longrightarrow> f x = g x) \<Longrightarrow> map_result f xs = map_result g ys"
  by (induction ys arbitrary: xs) auto

lemma map_result_Inr_iff:
  "map_result f xs = Inr ys \<longleftrightarrow> list_all2 (\<lambda>x y. f x = Inr y) xs ys"
proof (induction xs arbitrary: ys)
  case Nil
  then show ?case by auto
next
  case (Cons x xs)
  show ?case
    by (cases ys) (auto simp: rbind_eq_Inr_iff Cons.IH)
qed

lemma map_result_Inl_iff:
  "(\<exists>e. map_result f xs = Inl e) \<longleftrightarrow> (\<exists>x \<in> set xs. \<exists>e. f x = Inl e)"
proof (induction xs)
  case Nil
  then show ?case by simp
next
  case (Cons x xs)
  then show ?case
    by (cases "f x"; cases "map_result f xs") auto
qed

section \<open>Dictionaries\<close>

text \<open>
  A \<^verbatim>\<open>dict\<close> keeps insertion order and has distinct keys. Lookup is \<^const>\<open>map_of\<close>,
  assignment is \<^const>\<open>AList.update\<close> (in place, or appended), removal is
  \<^const>\<open>AList.delete\<close>.
\<close>

type_synonym 'v dict = "(pystr \<times> 'v) list"

definition dict_keys_ok :: "'v dict \<Rightarrow> bool" where
  "dict_keys_ok d \<longleftrightarrow> distinct (map fst d)"

definition dict_setdefault :: "pystr \<Rightarrow> 'v \<Rightarrow> 'v dict \<Rightarrow> 'v dict" where
  "dict_setdefault k v d = (if k \<in> set (map fst d) then d else d @ [(k, v)])"

lemma map_of_setdefault:
  "map_of (dict_setdefault k v d) k' =
     (if k' = k \<and> map_of d k = None then Some v else map_of d k')"
proof -
  have "k \<in> set (map fst d) \<longleftrightarrow> map_of d k \<noteq> None"
    by (simp add: map_of_eq_None_iff)
  then show ?thesis
    by (auto simp: dict_setdefault_def map_add_def split: option.splits)
qed

lemma setdefault_keeps:
  "map_of d k' = Some w \<Longrightarrow> map_of (dict_setdefault k v d) k' = Some w"
  by (auto simp: map_of_setdefault)

lemma setdefault_keys_ok [intro]: "dict_keys_ok d \<Longrightarrow> dict_keys_ok (dict_setdefault k v d)"
  by (auto simp: dict_keys_ok_def dict_setdefault_def)

lemma update_keys_ok [intro]: "dict_keys_ok d \<Longrightarrow> dict_keys_ok (AList.update k v d)"
  by (simp add: dict_keys_ok_def distinct_update)

section \<open>Lists\<close>

text \<open>\<open>span\<close> facts: a token ends at the first character outside its alphabet.\<close>

lemma span_unique:
  assumes "xs @ r = ys @ r'"
    and "\<forall>c \<in> set xs. P c" and "\<forall>c \<in> set ys. P c"
    and "r = [] \<or> \<not> P (hd r)" and "r' = [] \<or> \<not> P (hd r')"
  shows "xs = ys \<and> r = r'"
proof -
  have "takeWhile P (xs @ r) = xs" "takeWhile P (ys @ r') = ys"
    using assms(2-5) by (cases r; cases r'; simp add: takeWhile_append)+
  with assms(1) show ?thesis by auto
qed

lemma append_eq_same_length:
  "length xs = length ys \<Longrightarrow> xs @ r = ys @ r' \<longleftrightarrow> xs = ys \<and> r = r'"
  by auto

lemma prefix_drop: "prefix p s \<Longrightarrow> s = p @ drop (length p) s"
  by (auto simp: prefix_def)

lemma find_Some_iff_filter: "List.find P xs = Some x \<longleftrightarrow> (\<exists>ys. filter P xs = x # ys)"
  by (induction xs) auto

lemma find_None_iff_filter: "List.find P xs = None \<longleftrightarrow> filter P xs = []"
  by (induction xs) auto

section \<open>Runs\<close>

text \<open>A sequence of labelled steps of any step relation.\<close>

inductive run :: "('s \<Rightarrow> 'e \<Rightarrow> 's \<Rightarrow> bool) \<Rightarrow> 's \<Rightarrow> 'e list \<Rightarrow> 's \<Rightarrow> bool"
  for step where
  run_Nil: "run step j [] j"
| run_Cons: "step j ev j' \<Longrightarrow> run step j' evs j'' \<Longrightarrow> run step j (ev # evs) j''"

inductive_cases run_NilE: "run step j [] j'"
inductive_cases run_ConsE: "run step j (ev # evs) j'"

lemma run_append:
  "run step j (xs @ ys) j'' \<longleftrightarrow> (\<exists>j'. run step j xs j' \<and> run step j' ys j'')"
proof (induction xs arbitrary: j)
  case Nil
  then show ?case by (auto intro: run.intros elim: run_NilE)
next
  case (Cons ev xs)
  then show ?case by (fastforce intro: run.intros elim: run_ConsE)
qed

lemma run_snoc: "run step s (xs @ [e]) s'' \<longleftrightarrow> (\<exists>s'. run step s xs s' \<and> step s' e s'')"
  by (auto simp: run_append intro: run.intros elim!: run_ConsE run_NilE)

end
