(* ===== verification/PyStr.thy ===== *)
theory PyStr
  imports Prelude
begin

text \<open>
  The string methods and conversions of Python's standard library that the sources call:
  \<^verbatim>\<open>str(int)\<close>, \<^verbatim>\<open>int(s, base)\<close>, \<^verbatim>\<open>format(n, "04x")\<close>,
  \<^verbatim>\<open>join\<close>, \<^verbatim>\<open>partition\<close>, \<^verbatim>\<open>replace\<close>, \<^verbatim>\<open>strip\<close>,
  \<^verbatim>\<open>lower\<close> and the UTF-8 codec. The lemmas are the facts the components use of them:
  printing and reading an integer are inverse, and a printed integer has only digits and
  a sign.
\<close>

section \<open>Integers as text\<close>

fun dec_digits :: "nat \<Rightarrow> nat list" where
  "dec_digits n = (if n < 10 then [n] else dec_digits (n div 10) @ [n mod 10])"

declare dec_digits.simps [simp del]

definition show_nat :: "nat \<Rightarrow> pystr" where
  "show_nat n = map (\<lambda>d. 48 + d) (dec_digits n)"

definition show_int :: "int \<Rightarrow> pystr" where
  "show_int i = (if i < 0 then cp (CHR ''-'') # show_nat (nat (- i)) else show_nat (nat i))"

text \<open>One hexadecimal digit in lower case, and \<^verbatim>\<open>f"{code:04x}"\<close> for a 16-bit code.\<close>

definition hex_digit :: "nat \<Rightarrow> nat" where
  "hex_digit d = (if d < 10 then 48 + d else 87 + d)"

definition hex4 :: "nat \<Rightarrow> pystr" where
  "hex4 n = [hex_digit (n div 4096 mod 16), hex_digit (n div 256 mod 16),
             hex_digit (n div 16 mod 16), hex_digit (n mod 16)]"

definition digit_val :: "nat \<Rightarrow> nat option" where
  "digit_val c =
     (if 48 \<le> c \<and> c \<le> 57 then Some (c - 48)
      else if 97 \<le> c \<and> c \<le> 122 then Some (c - 87)
      else if 65 \<le> c \<and> c \<le> 90 then Some (c - 55)
      else None)"

text \<open>
  \<^verbatim>\<open>int(s, base)\<close>: digits with single underscores between them. The flag records
  whether the previous character was a digit.
\<close>

fun int_digits :: "nat \<Rightarrow> bool \<Rightarrow> nat \<Rightarrow> pystr \<Rightarrow> nat option" where
  "int_digits b after acc [] = (if after then Some acc else None)"
| "int_digits b after acc (c # cs) =
     (if c = 95 then (if after then int_digits b False acc cs else None)
      else case digit_val c of
             None \<Rightarrow> None
           | Some d \<Rightarrow> if d < b then int_digits b True (acc * b + d) cs else None)"

definition ascii_space :: "nat \<Rightarrow> bool" where
  "ascii_space c \<longleftrightarrow> 9 \<le> c \<and> c \<le> 13 \<or> c = 32"

definition strip_where :: "(nat \<Rightarrow> bool) \<Rightarrow> pystr \<Rightarrow> pystr" where
  "strip_where p s = rev (dropWhile p (rev (dropWhile p s)))"

text \<open>\<^verbatim>\<open>int\<close> of an ASCII string or a byte string.\<close>

definition int_ascii :: "nat \<Rightarrow> pystr \<Rightarrow> int option" where
  "int_ascii b s =
     (let t = strip_where ascii_space s;
          neg = (case t of [] \<Rightarrow> False | c # _ \<Rightarrow> c = cp (CHR ''-''));
          u = (case t of [] \<Rightarrow> []
               | c # cs \<Rightarrow> if c = cp (CHR ''-'') \<or> c = cp (CHR ''+'') then cs else t);
          v = (if b = 16 \<and> (prefix (lit ''0x'') u \<or> prefix (lit ''0X'') u)
               then (case drop 2 u of [] \<Rightarrow> [] | c # cs \<Rightarrow> if c = 95 then cs else c # cs)
               else u)
      in map_option (\<lambda>n. if neg then - int n else int n) (int_digits b False 0 v))"

text \<open>
  \<^verbatim>\<open>str.isspace\<close>, and the decimal digits of Unicode by the code point of the zero of
  each run of ten. A string with a non-ASCII character is first mapped to ASCII: spaces to a
  space, decimal digits to their value, anything else to a character that no digit is.
\<close>

definition py_isspace :: "nat \<Rightarrow> bool" where
  "py_isspace c \<longleftrightarrow> 9 \<le> c \<and> c \<le> 13 \<or> 28 \<le> c \<and> c \<le> 32 \<or> c = 133 \<or> c = 160 \<or> c = 5760 \<or>
     8192 \<le> c \<and> c \<le> 8202 \<or> c = 8232 \<or> c = 8233 \<or> c = 8239 \<or> c = 8287 \<or> c = 12288"

definition decimal_zeros :: "nat list" where
  "decimal_zeros =
     [0x660, 0x6f0, 0x7c0, 0x966, 0x9e6, 0xa66, 0xae6, 0xb66, 0xbe6, 0xc66, 0xce6, 0xd66,
      0xde6, 0xe50, 0xed0, 0xf20, 0x1040, 0x1090, 0x17e0, 0x1810, 0x1946, 0x19d0, 0x1a80,
      0x1a90, 0x1b50, 0x1bb0, 0x1c40, 0x1c50, 0xa620, 0xa8d0, 0xa900, 0xa9d0, 0xa9f0,
      0xaa50, 0xabf0, 0xff10, 0x104a0, 0x10d30, 0x11066, 0x110f0, 0x11136, 0x111d0,
      0x112f0, 0x11450, 0x114d0, 0x11650, 0x116c0, 0x11730, 0x118e0, 0x11950, 0x11c50,
      0x11d50, 0x11da0, 0x16a60, 0x16ac0, 0x16b50, 0x1d7ce, 0x1d7d8, 0x1d7e2, 0x1d7ec,
      0x1d7f6, 0x1e140, 0x1e2f0, 0x1e950, 0x1fbf0]"

definition to_ascii_char :: "nat \<Rightarrow> nat" where
  "to_ascii_char c =
     (if c < 127 then c
      else if py_isspace c then 32
      else case List.find (\<lambda>z. z \<le> c \<and> c < z + 10) decimal_zeros of
             None \<Rightarrow> 63
           | Some z \<Rightarrow> 48 + (c - z))"

definition py_int :: "nat \<Rightarrow> pystr \<Rightarrow> int option" where
  "py_int b s = int_ascii b (if list_all (\<lambda>c. c < 128) s then s else map to_ascii_char s)"

subsection \<open>Reading a printed integer gives it back\<close>

lemma dec_digits_less_10: "d \<in> set (dec_digits n) \<Longrightarrow> d < 10"
proof (induction n rule: dec_digits.induct)
  case (1 n)
  show ?case
  proof (cases "n < 10")
    case True
    with "1.prems" show ?thesis by (simp add: dec_digits.simps [of n])
  next
    case False
    with "1.prems" have "d \<in> set (dec_digits (n div 10)) \<or> d = n mod 10"
      by (auto simp: dec_digits.simps [of n])
    with False "1.IH" show ?thesis by auto
  qed
qed

lemma dec_digits_not_Nil [simp]: "dec_digits n \<noteq> []"
  by (subst dec_digits.simps) simp

lemma show_nat_not_Nil [simp]: "show_nat n \<noteq> []"
  by (simp add: show_nat_def)

lemma show_nat_digits: "c \<in> set (show_nat n) \<Longrightarrow> 48 \<le> c \<and> c \<le> 57"
  by (auto simp: show_nat_def dest!: dec_digits_less_10)

lemma show_int_chars: "c \<in> set (show_int i) \<Longrightarrow> c = cp (CHR ''-'') \<or> 48 \<le> c \<and> c \<le> 57"
  by (auto simp: show_int_def dest: show_nat_digits split: if_splits)

lemma show_int_not_Nil [simp]: "show_int i \<noteq> []"
  by (simp add: show_int_def)

lemma hd_dec_digits: "0 < n \<Longrightarrow> hd (dec_digits n) \<noteq> 0"
proof (induction n rule: dec_digits.induct)
  case (1 n)
  show ?case
  proof (cases "n < 10")
    case True
    with "1.prems" show ?thesis by (simp add: dec_digits.simps [of n])
  next
    case False
    then have "hd (dec_digits (n div 10)) \<noteq> 0"
      by (intro "1.IH") auto
    with False show ?thesis by (simp add: dec_digits.simps [of n])
  qed
qed

lemma hd_show_nat: "0 < n \<Longrightarrow> hd (show_nat n) \<noteq> 48"
  using hd_dec_digits [of n] by (simp add: show_nat_def hd_map)

lemma digit_val_decimal: "d < 10 \<Longrightarrow> digit_val (48 + d) = Some d"
  by (simp add: digit_val_def)

lemma int_digits_append_decimal:
  assumes "\<forall>d \<in> set ds. d < 10"
  shows "int_digits 10 after acc (map (\<lambda>d. 48 + d) ds @ r) =
    int_digits 10 (if ds = [] then after else True) (foldl (\<lambda>a d. a * 10 + d) acc ds) r"
  using assms by (induction ds arbitrary: after acc) (simp_all add: digit_val_decimal)

lemma foldl_dec_digits: "foldl (\<lambda>a d. a * 10 + d) 0 (dec_digits n) = n"
proof (induction n rule: dec_digits.induct)
  case (1 n)
  show ?case
  proof (cases "n < 10")
    case True
    then show ?thesis by (simp add: dec_digits.simps [of n])
  next
    case False
    with "1.IH" show ?thesis by (simp add: dec_digits.simps [of n])
  qed
qed

lemma int_digits_show_nat: "int_digits 10 False 0 (show_nat n) = Some n"
  using int_digits_append_decimal [of "dec_digits n" False 0 "[]"]
  by (simp add: show_nat_def dec_digits_less_10 foldl_dec_digits)

lemma strip_where_id:
  assumes "\<forall>c \<in> set s. \<not> p c"
  shows "strip_where p s = s"
proof -
  have "dropWhile p s = s" "dropWhile p (rev s) = rev s"
    using assms by (simp_all add: dropWhile_eq_self_iff)
      (metis list.set_sel(1) set_rev empty_iff list.set(1) assms)+
  then show ?thesis by (simp add: strip_where_def)
qed

lemma not_ascii_space_digit: "48 \<le> c \<and> c \<le> 57 \<Longrightarrow> \<not> ascii_space c"
  by (simp add: ascii_space_def)

lemma show_nat_Cons:
  obtains c cs where "show_nat n = c # cs" "48 \<le> c" "c \<le> 57"
proof (cases "show_nat n")
  case Nil
  then show ?thesis by simp
next
  case (Cons c cs)
  with show_nat_digits [of c n] that show ?thesis by simp
qed

theorem int_ascii_show_int: "int_ascii 10 (show_int i) = Some i"
proof (cases "i < 0")
  case True
  have "strip_where ascii_space (show_int i) = show_int i"
    by (rule strip_where_id) (auto dest!: show_int_chars simp: ascii_space_def)
  with True show ?thesis
    by (simp add: int_ascii_def show_int_def int_digits_show_nat)
next
  case False
  have "strip_where ascii_space (show_int i) = show_int i"
    by (rule strip_where_id) (auto dest!: show_int_chars simp: ascii_space_def)
  moreover obtain c cs where "show_nat (nat i) = c # cs" "48 \<le> c" "c \<le> 57"
    by (rule show_nat_Cons)
  moreover have "int_digits 10 False 0 (c # cs) = Some (nat i)"
    using int_digits_show_nat [of "nat i"] calculation(2) by simp
  ultimately show ?thesis
    using False by (simp add: int_ascii_def show_int_def del: int_digits.simps)
qed

theorem py_int_show_int: "py_int 10 (show_int i) = Some i"
proof -
  have "list_all (\<lambda>c. c < 128) (show_int i)"
    by (auto simp: list_all_iff dest!: show_int_chars)
  then show ?thesis by (simp add: py_int_def int_ascii_show_int)
qed

lemma show_int_inject [simp]: "show_int i = show_int j \<longleftrightarrow> i = j"
  by (metis int_ascii_show_int option.inject)

lemma show_nat_inject [simp]: "show_nat i = show_nat j \<longleftrightarrow> i = j"
  using show_int_inject [of "int i" "int j"] by (simp add: show_int_def)

section \<open>Other string methods\<close>

fun py_join :: "pystr \<Rightarrow> pystr list \<Rightarrow> pystr" where
  "py_join sep [] = []"
| "py_join sep [x] = x"
| "py_join sep (x # y # ys) = x @ sep @ py_join sep (y # ys)"

text \<open>\<^verbatim>\<open>s.partition(c)\<close> for a one-character separator.\<close>

definition py_partition :: "nat \<Rightarrow> pystr \<Rightarrow> pystr \<times> pystr \<times> pystr" where
  "py_partition c s =
     (takeWhile (\<lambda>x. x \<noteq> c) s,
      if c \<in> set s then [c] else [],
      drop 1 (dropWhile (\<lambda>x. x \<noteq> c) s))"

text \<open>\<^verbatim>\<open>s.split(c)\<close> for a one-character separator.\<close>

fun py_split :: "nat \<Rightarrow> pystr \<Rightarrow> pystr list" where
  "py_split c [] = [[]]"
| "py_split c (x # xs) =
     (if x = c then [] # py_split c xs
      else case py_split c xs of [] \<Rightarrow> [[x]] | p # ps \<Rightarrow> (x # p) # ps)"

lemma py_split_not_Nil [simp]: "py_split c s \<noteq> []"
  by (induction s) (auto split: list.splits)

lemma py_split_part: "c \<notin> set p \<Longrightarrow> py_split c (p @ c # r) = p # py_split c r"
  by (induction p) auto

lemma py_split_whole: "c \<notin> set p \<Longrightarrow> py_split c p = [p]"
  by (induction p) auto

text \<open>\<^verbatim>\<open>s.replace(old, new)\<close> for a non-empty \<^verbatim>\<open>old\<close>: left to right, not overlapping.\<close>

function py_replace :: "pystr \<Rightarrow> pystr \<Rightarrow> pystr \<Rightarrow> pystr" where
  "py_replace old new [] = []"
| "py_replace old new (c # cs) =
     (if old \<noteq> [] \<and> prefix old (c # cs)
      then new @ py_replace old new (drop (length old) (c # cs))
      else c # py_replace old new cs)"
  by pat_completeness auto
termination
  by (relation "measure (\<lambda>(old, new, s). length s)") (auto simp: neq_Nil_conv)

text \<open>
  \<^verbatim>\<open>s.lower()\<close>. Besides A to Z, exactly two characters have ASCII letters in their lower
  case: the Kelvin sign (k) and the dotted capital I (i and a combining dot). Every other
  non-ASCII character has a non-ASCII lower case; it is left as it is, because the sources
  only compare the result with ASCII text or drop its non-ASCII characters.
\<close>

definition lower_char :: "nat \<Rightarrow> pystr" where
  "lower_char c =
     (if 65 \<le> c \<and> c \<le> 90 then [c + 32]
      else if c = 8490 then [107]
      else if c = 304 then [105, 775]
      else [c])"

definition py_lower :: "pystr \<Rightarrow> pystr" where
  "py_lower s = concat (map lower_char s)"

lemma py_join_Cons: "py_join sep (x # xs) = x @ (if xs = [] then [] else sep @ py_join sep xs)"
  by (cases xs) simp_all

lemma set_py_join:
  "set (py_join sep xs) \<subseteq> set sep \<union> (\<Union>x \<in> set xs. set x)"
  by (induction sep xs rule: py_join.induct) auto

section \<open>UTF-8\<close>

definition is_surrogate :: "nat \<Rightarrow> bool" where
  "is_surrogate c \<longleftrightarrow> 0xD800 \<le> c \<and> c \<le> 0xDFFF"

definition is_scalar :: "nat \<Rightarrow> bool" where
  "is_scalar c \<longleftrightarrow> c < 0x110000 \<and> \<not> is_surrogate c"

definition utf8_char :: "nat \<Rightarrow> bytes" where
  "utf8_char c =
     (if c < 0x80 then [c]
      else if c < 0x800 then [0xC0 + c div 64, 0x80 + c mod 64]
      else if c < 0x10000 then [0xE0 + c div 4096, 0x80 + c div 64 mod 64, 0x80 + c mod 64]
      else [0xF0 + c div 262144, 0x80 + c div 4096 mod 64, 0x80 + c div 64 mod 64,
            0x80 + c mod 64])"

text \<open>\<^verbatim>\<open>s.encode("utf-8")\<close>: a surrogate has no encoding.\<close>

definition utf8_encode :: "pystr \<Rightarrow> py_exc + bytes" where
  "utf8_encode s =
     (if list_ex is_surrogate s then Inl UnicodeEncodeError
      else Inr (concat (map utf8_char s)))"

lemma utf8_encode_ascii: "\<forall>c \<in> set s. c < 128 \<Longrightarrow> utf8_encode s = Inr s"
proof (induction s)
  case Nil
  then show ?case by (simp add: utf8_encode_def)
next
  case (Cons c s)
  then show ?case
    by (auto simp: utf8_encode_def utf8_char_def is_surrogate_def split: if_splits)
qed

lemma partition_none: "c \<notin> set s \<Longrightarrow> py_partition c s = (s, [], [])"
  by (induction s) (auto simp: py_partition_def)

lemma partition_at: "c \<notin> set s \<Longrightarrow> py_partition c (s @ c # r) = (s, [c], r)"
  by (induction s) (auto simp: py_partition_def)

end
