(* ===== verification/Json.thy ===== *)
theory Json
  imports PyStr
begin

text \<open>
  JSON-compatible Python objects and \<^verbatim>\<open>json.dumps\<close>. A float is held by what
  \<^verbatim>\<open>repr\<close> prints of it: the sign, the shortest digits that read back as the same double
  and the position of the decimal point. \<^verbatim>\<open>float.__repr__\<close> lays those out, and reading a
  float literal back is a parameter of the decoder (theory \<open>JsonDecode\<close>).
\<close>

section \<open>Floats\<close>

text \<open>
  \<open>Finite neg ds k\<close> is \<open>0.ds \<times> 10^k\<close> with its sign; zero is \<open>Finite neg [0] 1\<close>. A double
  has at most 17 shortest digits, with no zero at either end.
\<close>

datatype pyfloat = NaN | Infinity bool | Finite bool "nat list" int

fun wf_float :: "pyfloat \<Rightarrow> bool" where
  "wf_float (Finite neg ds k) \<longleftrightarrow>
     ds = [0] \<and> k = 1 \<or>
     ds \<noteq> [] \<and> length ds \<le> 17 \<and> list_all (\<lambda>d. d < 10) ds \<and> hd ds \<noteq> 0 \<and> last ds \<noteq> 0"
| "wf_float _ \<longleftrightarrow> True"

fun float_is_finite :: "pyfloat \<Rightarrow> bool" where
  "float_is_finite (Finite _ _ _) = True"
| "float_is_finite _ = False"

fun float_is_zero :: "pyfloat \<Rightarrow> bool" where
  "float_is_zero (Finite _ ds _) = (ds = [0])"
| "float_is_zero _ = False"

definition show_digits :: "nat list \<Rightarrow> pystr" where
  "show_digits ds = map (\<lambda>d. 48 + d) ds"

text \<open>The exponent of \<^verbatim>\<open>repr\<close>: a sign always, and at least two digits.\<close>

definition show_exp2 :: "int \<Rightarrow> pystr" where
  "show_exp2 e =
     (if e < 0 then lit ''-'' else lit ''+'') @
     (if \<bar>e\<bar> < 10 then lit ''0'' else []) @ show_nat (nat \<bar>e\<bar>)"

definition repr_digits :: "nat list \<Rightarrow> int \<Rightarrow> pystr" where
  "repr_digits ds k =
     (if - 4 < k \<and> k \<le> 16 then
        (if k \<le> 0 then lit ''0.'' @ replicate (nat (- k)) 48 @ show_digits ds
         else if int (length ds) \<le> k
           then show_digits ds @ replicate (nat k - length ds) 48 @ lit ''.0''
         else show_digits (take (nat k) ds) @ lit ''.'' @ show_digits (drop (nat k) ds))
      else
        show_digits (take 1 ds) @
        (if length ds = 1 then [] else lit ''.'' @ show_digits (drop 1 ds)) @
        lit ''e'' @ show_exp2 (k - 1))"

fun float_repr :: "pyfloat \<Rightarrow> pystr" where
  "float_repr NaN = lit ''nan''"
| "float_repr (Infinity neg) = (if neg then lit ''-inf'' else lit ''inf'')"
| "float_repr (Finite neg ds k) = (if neg then lit ''-'' else []) @ repr_digits ds k"

section \<open>Values\<close>

datatype json =
    JNull
  | JBool bool
  | JInt int
  | JFloat pyfloat
  | JStr pystr
  | JList "json list"
  | JDict "(pystr \<times> json) list"

lemma size_map_of [termination_simp]:
  "map_of d k = Some v \<Longrightarrow> size v < Suc (size_list (\<lambda>x. Suc (size (snd x))) d)"
  by (induction d) (auto split: if_splits)

lemma json_size_list: "v \<in> set vs \<Longrightarrow> size v < size (JList vs)"
  by (simp add: less_Suc_eq_le size_list_estimation')

lemma json_size_dict: "(k, v) \<in> set d \<Longrightarrow> size v < size (JDict d)"
  using size_list_estimation' [of "(k, v)" d "size v" "\<lambda>x. Suc (size (snd x))"]
  by (simp add: less_Suc_eq_le size_prod_def case_prod_unfold)

text \<open>The floats in a value.\<close>

fun floats :: "json \<Rightarrow> pyfloat list" where
  "floats (JFloat f) = [f]"
| "floats (JList vs) = concat (map floats vs)"
| "floats (JDict d) = concat (map (\<lambda>(k, v). floats v) d)"
| "floats _ = []"

fun is_str :: "json \<Rightarrow> bool" where
  "is_str (JStr _) = True"
| "is_str _ = False"

fun is_dict :: "json \<Rightarrow> bool" where
  "is_dict (JDict _) = True"
| "is_dict _ = False"

text \<open>\<^verbatim>\<open>bool(value)\<close>\<close>

fun truthy :: "json \<Rightarrow> bool" where
  "truthy JNull = False"
| "truthy (JBool b) = b"
| "truthy (JInt i) = (i \<noteq> 0)"
| "truthy (JFloat f) = (\<not> float_is_zero f)"
| "truthy (JStr s) = (s \<noteq> [])"
| "truthy (JList vs) = (vs \<noteq> [])"
| "truthy (JDict d) = (d \<noteq> [])"

text \<open>
  A string that the escape sequences of JSON can carry: code points, and no high surrogate
  directly before a low one, since the decoder joins such a pair.
\<close>

definition is_high :: "nat \<Rightarrow> bool" where
  "is_high c \<longleftrightarrow> 0xD800 \<le> c \<and> c \<le> 0xDBFF"

definition is_low :: "nat \<Rightarrow> bool" where
  "is_low c \<longleftrightarrow> 0xDC00 \<le> c \<and> c \<le> 0xDFFF"

fun wf_str :: "pystr \<Rightarrow> bool" where
  "wf_str [] = True"
| "wf_str (c # cs) =
     (c < 0x110000 \<and> \<not> (is_high c \<and> cs \<noteq> [] \<and> is_low (hd cs)) \<and> wf_str cs)"

fun wf_json :: "json \<Rightarrow> bool" where
  "wf_json (JFloat f) = wf_float f"
| "wf_json (JStr s) = wf_str s"
| "wf_json (JList vs) = list_all wf_json vs"
| "wf_json (JDict d) =
     (dict_keys_ok d \<and> list_all (\<lambda>kv. wf_str (fst kv)) d \<and> list_all (\<lambda>(k, v). wf_json v) d)"
| "wf_json _ = True"

lemma wf_str_lit [simp]: "wf_str (lit s)"
proof (induction s)
  case Nil
  then show ?case by simp
next
  case (Cons c s)
  have "(of_char c :: nat) < 256" by simp
  then have "(of_char c :: nat) < 0x110000" "\<not> is_high (of_char c)"
    by (auto simp only: is_high_def)
  with Cons show ?case by (simp add: lit_def)
qed

section \<open>json.dumps\<close>

definition json_escape_char :: "nat \<Rightarrow> pystr" where
  "json_escape_char c =
     (if c = 34 then lit [CHR 0x5C, CHR 0x22]
      else if c = 92 then lit [CHR 0x5C, CHR 0x5C]
      else if c = 8 then lit [CHR 0x5C, CHR ''b'']
      else if c = 12 then lit [CHR 0x5C, CHR ''f'']
      else if c = 10 then lit [CHR 0x5C, CHR ''n'']
      else if c = 13 then lit [CHR 0x5C, CHR ''r'']
      else if c = 9 then lit [CHR 0x5C, CHR ''t'']
      else if 32 \<le> c \<and> c \<le> 126 then [c]
      else if c \<le> 0xFFFF then lit [CHR 0x5C, CHR ''u''] @ hex4 c
      else lit [CHR 0x5C, CHR ''u''] @ hex4 (0xD800 + (c - 0x10000) div 1024) @
           lit [CHR 0x5C, CHR ''u''] @ hex4 (0xDC00 + (c - 0x10000) mod 1024))"

definition json_quote :: "pystr \<Rightarrow> pystr" where
  "json_quote s = [34] @ concat (map json_escape_char s) @ [34]"

fun json_float :: "pyfloat \<Rightarrow> pystr" where
  "json_float NaN = lit ''NaN''"
| "json_float (Infinity neg) = (if neg then lit ''-Infinity'' else lit ''Infinity'')"
| "json_float f = float_repr f"

fun json_dumps :: "json \<Rightarrow> pystr" where
  "json_dumps JNull = lit ''null''"
| "json_dumps (JBool b) = (if b then lit ''true'' else lit ''false'')"
| "json_dumps (JInt i) = show_int i"
| "json_dumps (JFloat f) = json_float f"
| "json_dumps (JStr s) = json_quote s"
| "json_dumps (JList vs) = lit ''['' @ py_join (lit '', '') (map json_dumps vs) @ lit '']''"
| "json_dumps (JDict d) =
     lit ''{'' @ py_join (lit '', '')
       (map (\<lambda>(k, v). json_quote k @ lit '': '' @ json_dumps v) d) @ lit ''}''"

section \<open>Characters of the output\<close>

lemma hex_digit_range:
  "d < 16 \<Longrightarrow> 48 \<le> hex_digit d \<and> hex_digit d \<le> 57 \<or> 97 \<le> hex_digit d \<and> hex_digit d \<le> 102"
  by (auto simp: hex_digit_def)

lemma hex4_chars: "c \<in> set (hex4 n) \<Longrightarrow> 48 \<le> c \<and> c \<le> 57 \<or> 97 \<le> c \<and> c \<le> 102"
proof -
  assume "c \<in> set (hex4 n)"
  then obtain d where "c = hex_digit d" "d < 16"
    by (auto simp: hex4_def)
  then show ?thesis by (simp add: hex_digit_range)
qed

lemma length_hex4 [simp]: "length (hex4 n) = 4"
  by (simp add: hex4_def)

section \<open>What comes from outside the sources\<close>

text \<open>
  The functions the modelled code calls and this development does not define: the BLAKE3
  hex digest (a third-party package), the reading of a float literal as the nearest double,
  the float operations \<^verbatim>\<open>n / 1000.0\<close> and \<^verbatim>\<open>int(x * 1000)\<close>,
  \<^verbatim>\<open>repr\<close> of a JSON-compatible value (which is also \<^verbatim>\<open>str\<close> of anything that
  is not a string), the text of an exception of the standard library, and the library's check
  of the authority part of a URL.
\<close>

record runtime =
  blake3 :: "bytes \<Rightarrow> pystr"
  float_of :: "pystr \<Rightarrow> pyfloat"
  div_1000 :: "int \<Rightarrow> py_exc + pyfloat"
  times_1000 :: "pyfloat \<Rightarrow> py_exc + int"
  py_repr :: "json \<Rightarrow> pystr"
  exc_text :: "py_exc \<Rightarrow> pystr"
  netloc_ok :: "pystr \<Rightarrow> bool"

text \<open>\<^verbatim>\<open>str(v)\<close>, and \<^verbatim>\<open>{**d, **e}\<close>.\<close>

definition py_str :: "runtime \<Rightarrow> json \<Rightarrow> pystr" where
  "py_str rt v = (case v of JStr s \<Rightarrow> s | _ \<Rightarrow> py_repr rt v)"

definition dict_update :: "'a dict \<Rightarrow> 'a dict \<Rightarrow> 'a dict" where
  "dict_update d e = foldl (\<lambda>d (k, v). AList.update k v d) d e"

text \<open>A runtime for samples that do not depend on it.\<close>

definition no_runtime :: runtime where
  "no_runtime = \<lparr>blake3 = \<lambda>_. [], float_of = \<lambda>_. NaN, div_1000 = \<lambda>_. Inl OverflowError,
     times_1000 = \<lambda>_. Inl OverflowError, py_repr = \<lambda>_. [], exc_text = \<lambda>_. [], netloc_ok = \<lambda>_. True\<rparr>"

text \<open>
  A value whose finite floats are doubles. Every float of a running program is one, and Python
  documents that reading what \<^verbatim>\<open>repr\<close> prints of a float gives it back. Digits and an exponent that
  no double prints as, such as those of \<^verbatim>\<open>0.10000000000000001\<close> or \<^verbatim>\<open>1e400\<close>, are not read back.
\<close>

definition is_double :: "runtime \<Rightarrow> pyfloat \<Rightarrow> bool" where
  "is_double rt f \<longleftrightarrow> (float_is_finite f \<longrightarrow> float_of rt (float_repr f) = f)"

definition doubles :: "runtime \<Rightarrow> json \<Rightarrow> bool" where
  "doubles rt v \<longleftrightarrow> list_all (is_double rt) (floats v)"

lemma doubles_simps [simp]:
  "doubles rt JNull" "doubles rt (JBool b)" "doubles rt (JInt i)" "doubles rt (JStr s)"
  "doubles rt (JFloat f) \<longleftrightarrow> is_double rt f"
  "doubles rt (JList vs) \<longleftrightarrow> list_all (doubles rt) vs"
  "doubles rt (JDict d) \<longleftrightarrow> list_all (\<lambda>kv. doubles rt (snd kv)) d"
  by (auto simp: doubles_def list_all_iff)

lemma doubles_map_of: "doubles rt (JDict d) \<Longrightarrow> map_of d k = Some v \<Longrightarrow> doubles rt v"
  by (fastforce simp: list_all_iff dest: map_of_SomeD)

lemma show_digits_chars: "list_all (\<lambda>d. d < 10) ds \<Longrightarrow> c \<in> set (show_digits ds) \<Longrightarrow> 48 \<le> c \<and> c \<le> 57"
  by (auto simp: show_digits_def list_all_iff)

end
