(* ===== verification/Signature.thy ===== *)
theory Signature
  imports Json
begin

text \<open>
  The model of \<^verbatim>\<open>signature.py\<close>: ECMAScript number text, canonical JSON, and the call
  signature over the length-prefixed byte stream.
\<close>

section \<open>Numbers\<close>

definition ES6_EXP_THRESHOLD :: int where
  "ES6_EXP_THRESHOLD = 21"

definition py_find :: "nat \<Rightarrow> pystr \<Rightarrow> int" where
  "py_find c s = (if c \<in> set s then int (length (takeWhile (\<lambda>x. x \<noteq> c) s)) else - 1)"

text \<open>
  \<open>es6_exponent\<close> is the block that reads the exponent off the text of \<^verbatim>\<open>repr\<close>: the text
  before it, the exponent as written with one leading zero dropped, and its value.
\<close>

definition es6_exponent :: "pystr \<Rightarrow> py_exc + (pystr \<times> pystr \<times> int)" where
  "es6_exponent text =
     (let q = py_find (cp (CHR ''e'')) text in
      if q > 0 then
        (let e0 = drop (nat q) text;
             exp_str = (if take 1 (drop 2 e0) = lit ''0'' then take 2 e0 @ drop 3 e0 else e0)
         in case py_int 10 (drop 1 exp_str) of
              None \<Rightarrow> Inl (ValueError (lit ''invalid literal for int()''))
            | Some exp_val \<Rightarrow> Inr (take (nat q) text, exp_str, exp_val))
      else Inr (text, [], 0))"

definition es6_float :: "pyfloat \<Rightarrow> py_exc + pystr" where
  "es6_float value =
     (if \<not> float_is_finite value
        then Inl (ValueError (lit ''Invalid JSON number: '' @ float_repr value))
      else if float_is_zero value then Inr (lit ''0'')
      else
        let text0 = float_repr value;
            sign = (if prefix (lit ''-'') text0 then lit ''-'' else []);
            text1 = (if sign \<noteq> [] then drop 1 text0 else text0)
        in rbind (es6_exponent text1) (\<lambda>(text, exp_str, exp_val).
             let (first, dot, last) = py_partition (cp (CHR ''.'')) text;
                 (dot, last) = (if last = lit ''0'' then ([], []) else (dot, last))
             in if 0 < exp_val \<and> exp_val < ES6_EXP_THRESHOLD then
                  let first = first @ last;
                      pad = exp_val + 1 - int (length first)
                  in Inr (sign @ first @ (if pad > 0 then replicate (nat pad) 48 else []))
                else if - 7 < exp_val \<and> exp_val < 0 then
                  let last = first @ last;
                      pad = - exp_val - 1
                  in Inr (sign @ lit ''0'' @ lit ''.'' @
                          (if pad > 0 then replicate (nat pad) 48 @ last else last))
                else Inr (sign @ first @ dot @ last @ exp_str)))"

section \<open>Canonical JSON\<close>

definition escape_json_char :: "nat \<Rightarrow> pystr" where
  "escape_json_char code =
     (if code = 34 then lit [CHR 0x5C, CHR 0x22]
      else if code = 92 then lit [CHR 0x5C, CHR 0x5C]
      else if code = 8 then lit [CHR 0x5C, CHR ''b'']
      else if code = 12 then lit [CHR 0x5C, CHR ''f'']
      else if code = 10 then lit [CHR 0x5C, CHR ''n'']
      else if code = 13 then lit [CHR 0x5C, CHR ''r'']
      else if code = 9 then lit [CHR 0x5C, CHR ''t'']
      else if code < 0x20 then lit [CHR 0x5C, CHR ''u''] @ hex4 code
      else if code < 0x80 then [code]
      else if code \<le> 0xFFFF then lit [CHR 0x5C, CHR ''u''] @ hex4 code
      else let hi = 0xD800 + (code - 0x10000) div 2 ^ 10;
               lo = 0xDC00 + (code - 0x10000) mod 2 ^ 10
           in lit [CHR 0x5C, CHR ''u''] @ hex4 hi @ lit [CHR 0x5C, CHR ''u''] @ hex4 lo)"

definition escape_json_string :: "pystr \<Rightarrow> pystr" where
  "escape_json_string value = [34] @ concat (map escape_json_char value) @ [34]"

fun canonical_json :: "json \<Rightarrow> py_exc + pystr" where
  "canonical_json (JDict d) =
     rbind (map_result (\<lambda>k. case map_of d k of
                             None \<Rightarrow> Inl KeyError
                           | Some v \<Rightarrow> rbind (canonical_json v)
                               (\<lambda>t. Inr (escape_json_string k, t)))
              (sort (map fst d)))
       (\<lambda>pairs. Inr (lit ''{'' @
          py_join (lit '','') (map (\<lambda>(k, v). k @ lit '':'' @ v) pairs) @ lit ''}''))"
| "canonical_json (JList vs) =
     rbind (map_result canonical_json vs)
       (\<lambda>ts. Inr (lit ''['' @ py_join (lit '','') ts @ lit '']''))"
| "canonical_json (JBool b) = Inr (if b then lit ''true'' else lit ''false'')"
| "canonical_json (JFloat f) = es6_float f"
| "canonical_json (JInt i) = Inr (show_int i)"
| "canonical_json JNull = Inr (lit ''null'')"
| "canonical_json (JStr s) = Inr (escape_json_string s)"

section \<open>The call signature\<close>

text \<open>\<^verbatim>\<open>uuid.UUID(hex).int\<close>: the string forms it takes, and their 128-bit value.\<close>

definition uuid_int :: "pystr \<Rightarrow> nat option" where
  "uuid_int s =
     (let h = py_replace (lit ''uuid:'') [] (py_replace (lit ''urn:'') [] s);
          h = py_replace (lit ''-'') [] (strip_where (\<lambda>c. c = cp (CHR ''{'') \<or> c = cp (CHR ''}'')) h)
      in if length h \<noteq> 32 then None
         else case py_int 16 h of
                None \<Rightarrow> None
              | Some i \<Rightarrow> if 0 \<le> i \<and> i < 2 ^ 128 then Some (nat i) else None)"

fun be_bytes :: "nat \<Rightarrow> nat \<Rightarrow> bytes" where
  "be_bytes 0 n = []"
| "be_bytes (Suc k) n = be_bytes k (n div 256) @ [n mod 256]"

fun le_bytes :: "nat \<Rightarrow> nat \<Rightarrow> bytes" where
  "le_bytes 0 n = []"
| "le_bytes (Suc k) n = (n mod 256) # le_bytes k (n div 256)"

text \<open>\<^verbatim>\<open>struct.pack("<I", n)\<close>\<close>

definition pack_u32 :: "int \<Rightarrow> py_exc + bytes" where
  "pack_u32 n = (if 0 \<le> n \<and> n < 2 ^ 32 then Inr (le_bytes 4 (nat n)) else Inl StructError)"

text \<open>The byte stream the hasher is fed, in the order of its updates.\<close>

definition signature_stream :: "runtime \<Rightarrow> pystr \<Rightarrow> int \<Rightarrow> pystr \<Rightarrow> json \<Rightarrow> py_exc + bytes" where
  "signature_stream rt session_id step_index tool_name args =
     (case uuid_int session_id of
        None \<Rightarrow> Inl (ValueError (lit ''session_id must be a valid UUID string, got '' @
                      py_repr rt (JStr session_id)))
      | Some sid \<Rightarrow>
          rbind (canonical_json args) (\<lambda>canon.
          rbind (utf8_encode tool_name) (\<lambda>name_bytes.
          rbind (utf8_encode canon) (\<lambda>args_bytes.
          rbind (pack_u32 step_index) (\<lambda>step.
          rbind (pack_u32 (int (length name_bytes))) (\<lambda>name_len.
          rbind (pack_u32 (int (length args_bytes))) (\<lambda>args_len.
            Inr (be_bytes 16 sid @ step @ name_len @ name_bytes @ args_len @ args_bytes))))))))"

definition call_signature :: "runtime \<Rightarrow> pystr \<Rightarrow> int \<Rightarrow> pystr \<Rightarrow> json \<Rightarrow> py_exc + pystr" where
  "call_signature rt session_id step_index tool_name args =
     rbind (signature_stream rt session_id step_index tool_name args)
       (\<lambda>stream. Inr (blake3 rt stream))"

end
