(* ===== verification/NumberText.thy ===== *)
theory NumberText
  imports Signature
begin

text \<open>
  The number text of \<open>es6_float\<close> against the algorithm of ECMA-262,
  \<^verbatim>\<open>Number::toString\<close> with radix 10, on the same digits and decimal point.
\<close>

section \<open>Specification\<close>

definition es6_number_to_string :: "bool \<Rightarrow> nat list \<Rightarrow> int \<Rightarrow> pystr" where
  "es6_number_to_string neg ds n =
     (let k = int (length ds); e = n - 1 in
      (if neg then lit ''-'' else []) @
      (if k \<le> n \<and> n \<le> 21 then show_digits ds @ replicate (nat (n - k)) 48
       else if 0 < n \<and> n \<le> 21
         then show_digits (take (nat n) ds) @ lit ''.'' @ show_digits (drop (nat n) ds)
       else if - 6 < n \<and> n \<le> 0
         then lit ''0.'' @ replicate (nat (- n)) 48 @ show_digits ds
       else show_digits (take 1 ds) @
            (if k = 1 then [] else lit ''.'' @ show_digits (drop 1 ds)) @
            lit ''e'' @ (if e < 0 then lit ''-'' else lit ''+'') @ show_nat (nat \<bar>e\<bar>)))"

section \<open>Characters of the parts\<close>

lemma show_digits_eq_zero: "show_digits ds = lit ''0'' \<longleftrightarrow> ds = [0]"
  by (auto simp: show_digits_def lit_def map_eq_Cons_conv)

lemma show_digits_simps [simp]:
  "show_digits [] = []" "show_digits (d # ds) = (48 + d) # show_digits ds"
  "length (show_digits ds) = length ds" "show_digits (xs @ ys) = show_digits xs @ show_digits ys"
  by (simp_all add: show_digits_def)

lemma show_digits_take_drop: "show_digits (take n ds) @ show_digits (drop n ds) = show_digits ds"
  by (metis append_take_drop_id show_digits_simps(4))

lemma show_nat_small: "n < 10 \<Longrightarrow> show_nat n = [48 + n]"
  by (simp add: show_nat_def dec_digits.simps)

text \<open>\<^verbatim>\<open>int\<close> of an explicitly signed number.\<close>

lemma py_int_plus: "py_int 10 (lit ''+'' @ show_nat n) = Some (int n)"
proof -
  have sp: "strip_where ascii_space (43 # show_nat n) = 43 # show_nat n"
    by (rule strip_where_id) (auto dest!: show_nat_digits simp: ascii_space_def)
  have "list_all (\<lambda>c. c < 128) (43 # show_nat n)"
    by (auto simp: list_all_iff dest!: show_nat_digits)
  with sp show ?thesis
    by (simp add: py_int_def int_ascii_def lit_def int_digits_show_nat)
qed

lemma py_int_minus: "py_int 10 (lit ''-'' @ show_nat n) = Some (- int n)"
proof (cases "n = 0")
  case True
  have "py_int 10 (lit ''-'' @ show_nat 0) = Some (- int 0)" by code_simp
  with True show ?thesis by simp
next
  case False
  then show ?thesis
    using py_int_show_int [of "- int n"] by (simp add: show_int_def lit_def)
qed

lemma py_int_signed:
  "py_int 10 ((if e < 0 then lit ''-'' else lit ''+'') @ show_nat (nat \<bar>e\<bar>)) = Some e"
  by (auto simp: py_int_plus py_int_minus)

section \<open>Reading the exponent back\<close>

text \<open>Dropping one leading zero of the two-digit exponent leaves its plain number.\<close>

lemma drop_exponent_zero:
  fixes e :: int
  defines "s \<equiv> if e < 0 then lit ''-'' else lit ''+''"
  defines "e0 \<equiv> lit ''e'' @ show_exp2 e"
  assumes "e \<noteq> 0"
  shows "(if take 1 (drop 2 e0) = lit ''0'' then take 2 e0 @ drop 3 e0 else e0) =
    lit ''e'' @ s @ show_nat (nat \<bar>e\<bar>)"
proof (cases "\<bar>e\<bar> < 10")
  case True
  then show ?thesis
    by (auto simp: e0_def s_def show_exp2_def lit_def numeral_eq_Suc)
next
  case False
  obtain c cs where c: "show_nat (nat \<bar>e\<bar>) = c # cs"
    by (cases "show_nat (nat \<bar>e\<bar>)") auto
  have "c \<noteq> 48"
    using hd_show_nat [of "nat \<bar>e\<bar>"] c False by simp
  with False c show ?thesis
    by (auto simp: e0_def s_def show_exp2_def lit_def)
qed

lemma es6_exponent_sci:
  assumes "cp (CHR ''e'') \<notin> set m" and "m \<noteq> []" and "e \<noteq> 0"
  shows "es6_exponent (m @ lit ''e'' @ show_exp2 e) =
    Inr (m, lit ''e'' @ (if e < 0 then lit ''-'' else lit ''+'') @ show_nat (nat \<bar>e\<bar>), e)"
proof -
  let ?t = "m @ lit ''e'' @ show_exp2 e"
  have tw: "takeWhile (\<lambda>x. x \<noteq> cp (CHR ''e'')) ?t = m"
    using assms(1) by (auto simp: takeWhile_append lit_def)
  have "cp (CHR ''e'') \<in> set ?t" by (simp add: lit_def)
  with tw have q: "py_find (cp (CHR ''e'')) ?t = int (length m)"
    by (simp add: py_find_def)
  define x where
    "x = lit ''e'' @ (if e < 0 then lit ''-'' else lit ''+'') @ show_nat (nat \<bar>e\<bar>)"
  have parts: "drop (nat (int (length m))) ?t = lit ''e'' @ show_exp2 e"
    "take (nat (int (length m))) ?t = m" by simp_all
  have "py_int 10 (drop 1 x) = Some e"
    using py_int_signed [of e] by (simp add: x_def lit_def)
  then show ?thesis
    unfolding es6_exponent_def Let_def q parts drop_exponent_zero [OF assms(3)] x_def [symmetric]
    using assms(2) by simp
qed

lemma es6_exponent_plain: "cp (CHR ''e'') \<notin> set t \<Longrightarrow> es6_exponent t = Inr (t, [], 0)"
  by (simp add: es6_exponent_def py_find_def)

section \<open>The layouts of repr\<close>

text \<open>
  \<open>es6_float\<close> on an unsigned text: what is left of it once the sign is off. Each layout of
  \<^verbatim>\<open>repr\<close> is one lemma.
\<close>

definition es6_layout :: "pystr \<Rightarrow> pystr \<Rightarrow> pystr \<Rightarrow> pystr \<Rightarrow> int \<Rightarrow> pystr" where
  "es6_layout first dot lst exp_str exp_val =
     (if 0 < exp_val \<and> exp_val < 21
      then first @ lst @ replicate (nat (exp_val + 1) - length (first @ lst)) 48
      else if - 7 < exp_val \<and> exp_val < 0
      then lit ''0.'' @ replicate (nat (- exp_val - 1)) 48 @ first @ lst
      else first @ dot @ lst @ exp_str)"

lemma repr_digits_no_minus: "list_all (\<lambda>d. d < 10) ds \<Longrightarrow> ds \<noteq> [] \<Longrightarrow> \<not> prefix (lit ''-'') (repr_digits ds k)"
  by (cases ds) (auto simp: repr_digits_def lit_def take_Cons' Cons_eq_append_conv)

lemma es6_float_sign:
  assumes "list_all (\<lambda>d. d < 10) ds" "ds \<noteq> []" "ds \<noteq> [0]"
    and "es6_exponent (repr_digits ds k) = Inr (text, exp_str, exp_val)"
    and "py_partition (cp (CHR ''.'')) text = (first, dot, lst)"
  shows "es6_float (Finite neg ds k) = Inr ((if neg then lit ''-'' else []) @
    (if lst = lit ''0'' then es6_layout first [] [] exp_str exp_val
     else es6_layout first dot lst exp_str exp_val))"
proof -
  have strip: "(if (if prefix (lit ''-'') t then lit ''-'' else []) \<noteq> [] then drop 1 t else t) =
      repr_digits ds k"
    "(if prefix (lit ''-'') t then lit ''-'' else []) = (if neg then lit ''-'' else [])"
    if "t = float_repr (Finite neg ds k)" for t
    using that repr_digits_no_minus [OF assms(1,2), of k] by (auto simp: lit_def)
  have pad: "(if 0 < p then replicate (nat p) 48 @ r else r) = replicate (nat p) 48 @ r"
    "(if 0 < p then replicate (nat p) (48::nat) else []) = replicate (nat p) 48" for p :: int and r
    by auto
  have nat_pad: "nat (e + 1 - int n) = nat (e + 1) - n"
    "nat (e + 1 - (int n + int m)) = nat (e + 1) - (n + m)" for e :: int and n m
    by auto
  show ?thesis
    unfolding es6_float_def Let_def strip [OF refl]
    using assms(3,4,5)
    by (simp add: pad nat_pad es6_layout_def ES6_EXP_THRESHOLD_def lit_append [symmetric])
qed

lemma no_e_in_digits: "list_all (\<lambda>d. d < 10) ds \<Longrightarrow> cp (CHR ''e'') \<notin> set (show_digits ds)"
  "list_all (\<lambda>d. d < 10) ds \<Longrightarrow> cp (CHR ''.'') \<notin> set (show_digits ds)"
  by (auto dest: show_digits_chars)

lemma last_not_zero: "last ds \<noteq> 0 \<Longrightarrow> ds \<noteq> [] \<Longrightarrow> n < length ds \<Longrightarrow> show_digits (drop n ds) \<noteq> lit ''0''"
  unfolding show_digits_eq_zero by (metis last_drop last_ConsL not_less)

text \<open>Positional notation: the layout is already what ECMAScript prints.\<close>

lemma es6_positional:
  assumes "list_all (\<lambda>d. d < 10) ds" "ds \<noteq> []" "hd ds \<noteq> 0" "last ds \<noteq> 0" "- 4 < k" "k \<le> 16"
  shows "es6_float (Finite neg ds k) = Inr (es6_number_to_string neg ds k)"
proof -
  have nz: "ds \<noteq> [0]" using assms(3) by auto
  have td: "list_all (\<lambda>d. d < 10) (take n ds)" "list_all (\<lambda>d. d < 10) (drop n ds)" for n
    using assms(1) by (auto simp: list_all_iff dest: in_set_takeD in_set_dropD)
  consider (small) "k \<le> 0" | (whole) "0 < k" "int (length ds) \<le> k"
    | (mixed) "0 < k" "k < int (length ds)" by linarith
  then show ?thesis
  proof cases
    case small
    let ?z = "replicate (nat (- k)) 48 @ show_digits ds"
    have t: "repr_digits ds k = lit ''0'' @ cp (CHR ''.'') # ?z"
      using assms small by (simp add: repr_digits_def lit_def)
    have "?z \<noteq> lit ''0''"
      using assms(2,4) by (cases ds rule: rev_cases) (auto simp: lit_def append_eq_Cons_conv)
    moreover have "es6_exponent (repr_digits ds k) = Inr (repr_digits ds k, [], 0)"
      by (rule es6_exponent_plain) (use assms(1) t no_e_in_digits(1) in \<open>auto simp: lit_def\<close>)
    moreover have "py_partition (cp (CHR ''.'')) (repr_digits ds k) = (lit ''0'', [cp (CHR ''.'')], ?z)"
      unfolding t by (rule partition_at) (simp add: lit_def)
    moreover have "\<not> int (length ds) \<le> k"
      using small assms(2) by (cases ds) auto
    ultimately show ?thesis
      using es6_float_sign [OF assms(1,2) nz] small assms(2,5)
      by (simp add: es6_layout_def es6_number_to_string_def Let_def lit_def)
  next
    case whole
    let ?a = "show_digits ds @ replicate (nat k - length ds) 48"
    have t: "repr_digits ds k = ?a @ cp (CHR ''.'') # lit ''0''"
      using assms whole by (simp add: repr_digits_def lit_def)
    have "es6_exponent (repr_digits ds k) = Inr (repr_digits ds k, [], 0)"
      by (rule es6_exponent_plain) (use assms(1) t no_e_in_digits(1) in \<open>auto simp: lit_def\<close>)
    moreover have "py_partition (cp (CHR ''.'')) (repr_digits ds k) = (?a, [cp (CHR ''.'')], lit ''0'')"
      unfolding t by (rule partition_at) (use assms(1) no_e_in_digits(2) in \<open>auto\<close>)
    moreover have "nat (k - int (length ds)) = nat k - length ds" using whole by simp
    ultimately show ?thesis
      using es6_float_sign [OF assms(1,2) nz] whole assms(6)
      by (simp add: es6_layout_def es6_number_to_string_def Let_def)
  next
    case mixed
    let ?a = "show_digits (take (nat k) ds)" and ?b = "show_digits (drop (nat k) ds)"
    have t: "repr_digits ds k = ?a @ cp (CHR ''.'') # ?b"
      using assms mixed by (simp add: repr_digits_def lit_def)
    have "?b \<noteq> lit ''0''"
      by (rule last_not_zero) (use assms mixed in auto)
    moreover have "es6_exponent (repr_digits ds k) = Inr (repr_digits ds k, [], 0)"
      by (rule es6_exponent_plain)
        (use t no_e_in_digits(1) [OF td(1)] no_e_in_digits(1) [OF td(2)] in \<open>auto\<close>)
    moreover have "py_partition (cp (CHR ''.'')) (repr_digits ds k) = (?a, [cp (CHR ''.'')], ?b)"
      unfolding t by (rule partition_at) (rule no_e_in_digits(2) [OF td(1)])
    ultimately show ?thesis
      using es6_float_sign [OF assms(1,2) nz] mixed assms(6)
      by (simp add: es6_layout_def es6_number_to_string_def Let_def lit_def)
  qed
qed

text \<open>Scientific notation: the exponent decides which layout ECMAScript uses.\<close>

lemma es6_scientific:
  assumes "list_all (\<lambda>d. d < 10) ds" "ds \<noteq> []" "hd ds \<noteq> 0" "last ds \<noteq> 0" "length ds \<le> 17"
    and "k \<le> - 4 \<or> 16 < k"
  shows "es6_float (Finite neg ds k) = Inr (es6_number_to_string neg ds k)"
proof -
  have nz: "ds \<noteq> [0]" using assms(3) by auto
  have td: "list_all (\<lambda>d. d < 10) (take n ds)" "list_all (\<lambda>d. d < 10) (drop n ds)" for n
    using assms(1) by (auto simp: list_all_iff dest: in_set_takeD in_set_dropD)
  define x where "x = lit ''e'' @ (if k - 1 < 0 then lit ''-'' else lit ''+'') @ show_nat (nat \<bar>k - 1\<bar>)"
  define m where "m = show_digits (take 1 ds) @
    (if length ds = 1 then [] else lit ''.'' @ show_digits (drop 1 ds))"
  define dot where "dot = (if length ds = 1 then [] else [cp (CHR ''.'')])"
  have "repr_digits ds k = m @ lit ''e'' @ show_exp2 (k - 1)"
    using assms(6) by (auto simp: repr_digits_def m_def)
  moreover have "cp (CHR ''e'') \<notin> set m"
    using no_e_in_digits(1) [OF td(1)] no_e_in_digits(1) [OF td(2)] by (auto simp: m_def lit_def)
  moreover have "m \<noteq> []" using assms(2) by (cases ds) (auto simp: m_def)
  moreover have "k - 1 \<noteq> 0" using assms(6) by auto
  ultimately have e: "es6_exponent (repr_digits ds k) = Inr (m, x, k - 1)"
    using es6_exponent_sci [of m "k - 1"] by (simp add: x_def)
  have p: "py_partition (cp (CHR ''.'')) m = (show_digits (take 1 ds), dot, show_digits (drop 1 ds))"
  proof (cases "length ds = 1")
    case True
    then show ?thesis
      using partition_none [OF no_e_in_digits(2) [OF td(1)], of 1] by (simp add: m_def dot_def)
  next
    case False
    have "m = show_digits (take 1 ds) @ cp (CHR ''.'') # show_digits (drop 1 ds)"
      using False by (simp add: m_def lit_def)
    then show ?thesis
      using partition_at [OF no_e_in_digits(2) [OF td(1)], of 1] False by (simp add: dot_def)
  qed
  have nz1: "show_digits (drop 1 ds) \<noteq> lit ''0''"
  proof (cases "length ds = 1")
    case True
    then show ?thesis by simp
  next
    case False
    then show ?thesis
      using assms(2,4) by (intro last_not_zero) (auto simp: Suc_lessI)
  qed
  have l: "1 \<le> length ds" using assms(2) by (cases ds) auto
  have joined: "show_digits (take (Suc 0) ds) @ show_digits (drop (Suc 0) ds) @ r = show_digits ds @ r" for r
    using show_digits_take_drop [of 1 ds] by (metis One_nat_def append_assoc)
  have minus: "nat (k - int (length ds)) = nat k - length ds" by auto
  have "es6_layout (show_digits (take 1 ds)) dot (show_digits (drop 1 ds)) x (k - 1) =
    (if - 6 < k \<and> k \<le> 21 then
       (if 0 < k then show_digits ds @ replicate (nat (k - int (length ds))) 48
        else lit ''0.'' @ replicate (nat (- k)) 48 @ show_digits ds)
     else show_digits (take 1 ds) @ dot @ show_digits (drop 1 ds) @ x)"
    using assms(6) l joined minus by (auto simp: es6_layout_def)
  then show ?thesis
    using es6_float_sign [OF assms(1,2) nz e p, of neg] nz1 assms(5,6) l
    by (auto simp: es6_number_to_string_def Let_def x_def dot_def lit_def)
qed

lemma es6_float_finite:
  assumes "wf_float (Finite neg ds k)"
  shows "es6_float (Finite neg ds k) =
    Inr (if ds = [0] then lit ''0'' else es6_number_to_string neg ds k)"
proof (cases "ds = [0]")
  case True
  then show ?thesis by (simp add: es6_float_def)
next
  case False
  with assms have wf: "list_all (\<lambda>d. d < 10) ds" "ds \<noteq> []" "hd ds \<noteq> 0" "last ds \<noteq> 0"
    "length ds \<le> 17" by auto
  show ?thesis
  proof (cases "- 4 < k \<and> k \<le> 16")
    case True
    with wf False show ?thesis by (simp add: es6_positional)
  next
    case outside: False
    then have "k \<le> - 4 \<or> 16 < k" by auto
    with wf False show ?thesis by (simp add: es6_scientific)
  qed
qed

lemma es6_float_not_finite:
  "\<not> float_is_finite f \<Longrightarrow> es6_float f = Inl (ValueError (lit ''Invalid JSON number: '' @ float_repr f))"
  by (simp add: es6_float_def)

section \<open>The property\<close>

text \<open>
  C13. On every float the serialisation is the ECMAScript one: NaN and the infinities are
  refused with \<^verbatim>\<open>ValueError\<close>, both zeros are \<^verbatim>\<open>0\<close>, and every other double
  prints as \<^verbatim>\<open>Number::toString\<close> prints its shortest digits, although the code
  rearranges the text of Python's \<^verbatim>\<open>repr\<close>, whose layout and exponents differ.
\<close>

theorem es6_float_correct:
  assumes "wf_float f"
  shows "es6_float f = (case f of
      Finite neg ds k \<Rightarrow> Inr (if ds = [0] then lit ''0'' else es6_number_to_string neg ds k)
    | _ \<Rightarrow> Inl (ValueError (lit ''Invalid JSON number: '' @ float_repr f)))"
  using assms by (cases f) (simp_all add: es6_float_finite es6_float_not_finite del: wf_float.simps)

theorem es6_float_correct_witness:
  "wf_float (Finite True [1, 5] (- 4)) \<and>
   es6_float (Finite True [1, 5] (- 4)) = Inr (lit ''-0.000015'')"
proof -
  have wf: "wf_float (Finite True [1, 5] (- 4))" by simp
  have "es6_number_to_string True [1, 5] (- 4) = lit ''-0.000015''" by code_simp
  with wf es6_float_correct [OF wf] show ?thesis by simp
qed

end
