(* ===== verification/JsonDecode.thy ===== *)
theory JsonDecode
  imports Json
begin

text \<open>
  \<^verbatim>\<open>json.loads\<close> on text and on bytes, and the round trip: decoding what
  \<^verbatim>\<open>json.dumps\<close> printed gives the value back. \<open>None\<close> stands for
  \<^verbatim>\<open>JSONDecodeError\<close>.
\<close>

section \<open>Strings\<close>

definition hex_val :: "nat \<Rightarrow> nat option" where
  "hex_val c =
     (if 48 \<le> c \<and> c \<le> 57 then Some (c - 48)
      else if 97 \<le> c \<and> c \<le> 102 then Some (c - 87)
      else if 65 \<le> c \<and> c \<le> 70 then Some (c - 55)
      else None)"

fun hex4_val :: "pystr \<Rightarrow> (nat \<times> pystr) option" where
  "hex4_val (a # b # c # d # r) =
     (case (hex_val a, hex_val b, hex_val c, hex_val d) of
        (Some w, Some x, Some y, Some z) \<Rightarrow> Some (w * 4096 + x * 256 + y * 16 + z, r)
      | _ \<Rightarrow> None)"
| "hex4_val _ = None"

text \<open>The code point of a \<^verbatim>\<open>\u\<close> escape, joined with a following low surrogate escape.\<close>

definition unicode_escape :: "pystr \<Rightarrow> (nat \<times> pystr) option" where
  "unicode_escape s =
     (case hex4_val s of
        None \<Rightarrow> None
      | Some (u, r) \<Rightarrow>
          if is_high u \<and> prefix (lit [CHR 0x5C, CHR ''u'']) r then
            (case hex4_val (drop 2 r) of
               None \<Rightarrow> None
             | Some (u2, r2) \<Rightarrow>
                 if is_low u2 then Some (0x10000 + (u - 0xD800) * 1024 + (u2 - 0xDC00), r2)
                 else Some (u, r))
          else Some (u, r))"

definition simple_escape :: "nat \<Rightarrow> nat option" where
  "simple_escape e = map_of [(34, 34), (92, 92), (47, 47), (98, 8), (102, 12), (110, 10),
     (114, 13), (116, 9)] e"

lemma hex4_val_length: "hex4_val s = Some (u, r) \<Longrightarrow> length r < length s"
  by (cases s rule: hex4_val.cases) (auto split: option.splits)

lemma unicode_escape_length: "unicode_escape s = Some (u, r) \<Longrightarrow> length r < length s"
  by (auto simp: unicode_escape_def split: option.splits if_splits dest!: hex4_val_length)

text \<open>The text of a string literal after its opening quote, and what follows its closing one.\<close>

function scan_string :: "pystr \<Rightarrow> (pystr \<times> pystr) option" where
  "scan_string [] = None"
| "scan_string (c # cs) =
     (if c = 34 then Some ([], cs)
      else if c = 92 then
        (case cs of
           [] \<Rightarrow> None
         | e # es \<Rightarrow>
             if e = cp (CHR ''u'') then
               (case unicode_escape es of
                  None \<Rightarrow> None
                | Some (u, r) \<Rightarrow> map_option (\<lambda>(s, t). (u # s, t)) (scan_string r))
             else
               (case simple_escape e of
                  None \<Rightarrow> None
                | Some u \<Rightarrow> map_option (\<lambda>(s, t). (u # s, t)) (scan_string es)))
      else if c < 32 then None
      else map_option (\<lambda>(s, t). (c # s, t)) (scan_string cs))"
  by pat_completeness auto
termination
  by (relation "measure length") (auto dest: unicode_escape_length)

section \<open>Numbers and constants\<close>

definition is_dec :: "nat \<Rightarrow> bool" where
  "is_dec c \<longleftrightarrow> 48 \<le> c \<and> c \<le> 57"

definition scan_int :: "pystr \<Rightarrow> (pystr \<times> pystr) option" where
  "scan_int s =
     (let sgn = (if prefix (lit ''-'') s then lit ''-'' else []); r = drop (length sgn) s
      in case r of
           [] \<Rightarrow> None
         | c # cs \<Rightarrow>
             if c = 48 then Some (sgn @ [48], cs)
             else if is_dec c then Some (sgn @ takeWhile is_dec r, dropWhile is_dec r)
             else None)"

definition scan_frac :: "pystr \<Rightarrow> pystr \<times> pystr" where
  "scan_frac s =
     (case s of
        c # d # ds \<Rightarrow>
          if c = cp (CHR ''.'') \<and> is_dec d
          then (c # takeWhile is_dec (d # ds), dropWhile is_dec (d # ds)) else ([], s)
      | _ \<Rightarrow> ([], s))"

definition scan_exp :: "pystr \<Rightarrow> pystr \<times> pystr" where
  "scan_exp s =
     (case s of
        c # cs \<Rightarrow>
          if c = cp (CHR ''e'') \<or> c = cp (CHR ''E'') then
            (let sgn = (if prefix (lit ''-'') cs \<or> prefix (lit ''+'') cs then take 1 cs else []);
                 r = drop (length sgn) cs
             in if r \<noteq> [] \<and> is_dec (hd r)
                then (c # sgn @ takeWhile is_dec r, dropWhile is_dec r) else ([], s))
          else ([], s)
      | [] \<Rightarrow> ([], s))"

definition scan_number :: "runtime \<Rightarrow> pystr \<Rightarrow> (json \<times> pystr) option" where
  "scan_number rt s =
     (case scan_int s of
        None \<Rightarrow> None
      | Some (i, r0) \<Rightarrow>
          (let (f, r1) = scan_frac r0; (e, r2) = scan_exp r1
           in if f \<noteq> [] \<or> e \<noteq> [] then Some (JFloat (float_of rt (i @ f @ e)), r2)
              else map_option (\<lambda>n. (JInt n, r2)) (int_ascii 10 i)))"

definition scan_atom :: "runtime \<Rightarrow> pystr \<Rightarrow> (json \<times> pystr) option" where
  "scan_atom rt s =
     (if prefix (lit ''null'') s then Some (JNull, drop 4 s)
      else if prefix (lit ''true'') s then Some (JBool True, drop 4 s)
      else if prefix (lit ''false'') s then Some (JBool False, drop 5 s)
      else case scan_number rt s of
             Some x \<Rightarrow> Some x
           | None \<Rightarrow>
               if prefix (lit ''NaN'') s then Some (JFloat NaN, drop 3 s)
               else if prefix (lit ''Infinity'') s then Some (JFloat (Infinity False), drop 8 s)
               else if prefix (lit ''-Infinity'') s then Some (JFloat (Infinity True), drop 9 s)
               else None)"

section \<open>Values\<close>

definition is_ws :: "nat \<Rightarrow> bool" where
  "is_ws c \<longleftrightarrow> c = 32 \<or> c = 9 \<or> c = 10 \<or> c = 13"

abbreviation skip_ws :: "pystr \<Rightarrow> pystr" where
  "skip_ws \<equiv> dropWhile is_ws"

text \<open>\<^verbatim>\<open>dict(pairs)\<close>: a repeated key keeps its place and takes the last value.\<close>

definition dict_of :: "(pystr \<times> json) list \<Rightarrow> (pystr \<times> json) list" where
  "dict_of ps = foldl (\<lambda>d (k, v). AList.update k v d) [] ps"

text \<open>
  The recursive descent spends one unit of fuel per call. Every call but the first is made
  after a character was consumed, so fuel above the length of the text is never used up.
\<close>

fun scan_once :: "runtime \<Rightarrow> nat \<Rightarrow> pystr \<Rightarrow> (json \<times> pystr) option"
  and scan_elems :: "runtime \<Rightarrow> nat \<Rightarrow> pystr \<Rightarrow> (json list \<times> pystr) option"
  and scan_members :: "runtime \<Rightarrow> nat \<Rightarrow> pystr \<Rightarrow> ((pystr \<times> json) list \<times> pystr) option"
where
  "scan_once rt 0 s = None"
| "scan_once rt (Suc n) s =
     (case s of
        [] \<Rightarrow> None
      | c # cs \<Rightarrow>
          if c = 34 then map_option (\<lambda>(x, r). (JStr x, r)) (scan_string cs)
          else if c = cp (CHR ''{'') then
            (case skip_ws cs of
               [] \<Rightarrow> None
             | d # ds \<Rightarrow>
                 if d = cp (CHR ''}'') then Some (JDict [], ds)
                 else map_option (\<lambda>(ps, r). (JDict (dict_of ps), r)) (scan_members rt n (d # ds)))
          else if c = cp (CHR ''['') then
            (case skip_ws cs of
               [] \<Rightarrow> None
             | d # ds \<Rightarrow>
                 if d = cp (CHR '']'') then Some (JList [], ds)
                 else map_option (\<lambda>(vs, r). (JList vs, r)) (scan_elems rt n (d # ds)))
          else scan_atom rt s)"
| "scan_elems rt 0 s = None"
| "scan_elems rt (Suc n) s =
     (case scan_once rt n s of
        None \<Rightarrow> None
      | Some (v, r) \<Rightarrow>
          (case skip_ws r of
             [] \<Rightarrow> None
           | c # cs \<Rightarrow>
               if c = cp (CHR '']'') then Some ([v], cs)
               else if c = cp (CHR '','') then
                 map_option (\<lambda>(vs, r'). (v # vs, r')) (scan_elems rt n (skip_ws cs))
               else None))"
| "scan_members rt 0 s = None"
| "scan_members rt (Suc n) s =
     (case s of
        [] \<Rightarrow> None
      | q # qs \<Rightarrow>
          if q \<noteq> 34 then None
          else case scan_string qs of
                 None \<Rightarrow> None
               | Some (k, r) \<Rightarrow>
                   (case skip_ws r of
                      [] \<Rightarrow> None
                    | c # cs \<Rightarrow>
                        if c \<noteq> cp (CHR '':'') then None
                        else case scan_once rt n (skip_ws cs) of
                               None \<Rightarrow> None
                             | Some (v, r') \<Rightarrow>
                                 (case skip_ws r' of
                                    [] \<Rightarrow> None
                                  | c # cs \<Rightarrow>
                                      if c = cp (CHR ''}'') then Some ([(k, v)], cs)
                                      else if c = cp (CHR '','') then
                                        map_option (\<lambda>(ps, t). ((k, v) # ps, t))
                                          (scan_members rt n (skip_ws cs))
                                      else None)))"

definition json_decode :: "runtime \<Rightarrow> pystr \<Rightarrow> json option" where
  "json_decode rt s =
     (case scan_once rt (Suc (length s)) (skip_ws s) of
        None \<Rightarrow> None
      | Some (v, r) \<Rightarrow> if skip_ws r = [] then Some v else None)"

text \<open>\<^verbatim>\<open>json.loads\<close> of a string.\<close>

definition json_loads :: "runtime \<Rightarrow> pystr \<Rightarrow> py_exc + json" where
  "json_loads rt s =
     (if prefix [0xFEFF] s then Inl JSONDecodeError
      else case json_decode rt s of None \<Rightarrow> Inl JSONDecodeError | Some v \<Rightarrow> Inr v)"

section \<open>Round trip of strings\<close>

lemma hex_val_digit: "d < 16 \<Longrightarrow> hex_val (hex_digit d) = Some d"
  by (auto simp: hex_val_def hex_digit_def)

lemma hex4_digits_value:
  fixes n :: nat
  assumes "n < 65536"
  shows "n div 4096 mod 16 * 4096 + n div 256 mod 16 * 256 + n div 16 mod 16 * 16 + n mod 16 = n"
proof -
  have "n div 4096 mod 16 = n div 4096" using assms by simp
  moreover have "n div 256 = n div 4096 * 16 + n div 256 mod 16"
    using div_mult_mod_eq [of "n div 256" 16] by (simp add: div_mult2_eq [symmetric])
  moreover have "n div 16 = n div 256 * 16 + n div 16 mod 16"
    using div_mult_mod_eq [of "n div 16" 16] by (simp add: div_mult2_eq [symmetric])
  moreover have "n = n div 16 * 16 + n mod 16" by simp
  ultimately show ?thesis by linarith
qed

lemma hex4_val_hex4: "n < 65536 \<Longrightarrow> hex4_val (hex4 n @ r) = Some (n, r)"
  using hex4_digits_value [of n] by (simp add: hex4_def hex_val_digit)

text \<open>Whether a text goes on with an escape that a high surrogate before it would join.\<close>

definition joins_low :: "pystr \<Rightarrow> bool" where
  "joins_low r \<longleftrightarrow> prefix (lit [CHR 0x5C, CHR ''u'']) r \<and>
     (case hex4_val (drop 2 r) of None \<Rightarrow> True | Some (u2, _) \<Rightarrow> is_low u2)"

lemma unicode_escape_hex4:
  assumes "n < 65536" and "is_high n \<Longrightarrow> \<not> joins_low r"
  shows "unicode_escape (hex4 n @ r) = Some (n, r)"
  using assms
  by (auto simp: unicode_escape_def hex4_val_hex4 joins_low_def split: option.splits)

lemma unicode_escape_pair:
  assumes "0x10000 \<le> c" "c < 0x110000"
  shows "unicode_escape (hex4 (0xD800 + (c - 0x10000) div 1024) @ lit [CHR 0x5C, CHR ''u''] @
    hex4 (0xDC00 + (c - 0x10000) mod 1024) @ r) = Some (c, r)"
proof -
  have h: "0xD800 + (c - 0x10000) div 1024 < 65536" "0xDC00 + (c - 0x10000) mod 1024 < 65536"
    "is_high (0xD800 + (c - 0x10000) div 1024)" "is_low (0xDC00 + (c - 0x10000) mod 1024)"
    using assms by (auto simp: is_high_def is_low_def)
  have "0x10000 + (c - 0x10000) div 1024 * 1024 + (c - 0x10000) mod 1024 = c"
    using assms by simp
  with h show ?thesis
    by (simp add: unicode_escape_def hex4_val_hex4 lit_def)
qed

lemma scan_escaped_char:
  assumes "c < 0x110000" and "is_high c \<Longrightarrow> \<not> joins_low r"
  shows "scan_string (json_escape_char c @ r) = map_option (\<lambda>(s, t). (c # s, t)) (scan_string r)"
proof -
  consider (simple) "c \<in> {34, 92, 8, 12, 10, 13, 9}" | (plain) "32 \<le> c" "c \<le> 126" "c \<noteq> 34" "c \<noteq> 92"
    | (bmp) "c \<le> 0xFFFF" "\<not> (32 \<le> c \<and> c \<le> 126)" "c \<notin> {8, 12, 10, 13, 9}"
    | (pair) "0x10000 \<le> c"
    by fastforce
  then show ?thesis
  proof cases
    case simple
    then show ?thesis
      by (auto simp: json_escape_char_def lit_def simple_escape_def)
  next
    case plain
    then show ?thesis
      by (simp add: json_escape_char_def)
  next
    case bmp
    then have e: "json_escape_char c = lit [CHR 0x5C, CHR ''u''] @ hex4 c"
      by (auto simp: json_escape_char_def)
    have "unicode_escape (hex4 c @ r) = Some (c, r)"
      by (rule unicode_escape_hex4) (use bmp assms(2) in auto)
    with e show ?thesis by (simp add: lit_def)
  next
    case pair
    then have e: "json_escape_char c = lit [CHR 0x5C, CHR ''u''] @
        hex4 (0xD800 + (c - 0x10000) div 1024) @ lit [CHR 0x5C, CHR ''u''] @
        hex4 (0xDC00 + (c - 0x10000) mod 1024)"
      by (auto simp: json_escape_char_def)
    from unicode_escape_pair [OF pair assms(1), of r] e show ?thesis
      by (simp add: lit_def)
  qed
qed

lemma escaped_not_joins:
  assumes "c < 0x110000" "\<not> is_low c"
  shows "\<not> joins_low (json_escape_char c @ r)"
proof (cases "32 \<le> c \<and> c \<le> 126 \<or> c \<in> {8, 12, 10, 13, 9}")
  case True
  then show ?thesis
    by (auto simp: joins_low_def json_escape_char_def lit_def)
next
  case False
  let ?h = "if c \<le> 0xFFFF then c else 0xD800 + (c - 0x10000) div 1024"
  have "?h < 65536" "\<not> is_low ?h"
    using assms by (auto simp: is_low_def)
  moreover obtain x where "json_escape_char c = lit [CHR 0x5C, CHR ''u''] @ hex4 ?h @ x"
    using False by (cases "c \<le> 0xFFFF") (auto simp: json_escape_char_def)
  ultimately show ?thesis
    by (simp add: joins_low_def lit_def hex4_val_hex4)
qed

text \<open>
  The round trip, for any escape function that agrees with \<open>json_escape_char\<close> except that
  it may leave the delete character as it is.
\<close>

lemma scan_escaped_string:
  assumes "\<And>c. esc c = json_escape_char c \<or> c = 127 \<and> esc c = [127]" and "wf_str s"
  shows "scan_string (concat (map esc s) @ 34 # r) = Some (s, r)"
  using assms(2)
proof (induction s)
  case Nil
  then show ?case by simp
next
  case (Cons c s)
  let ?r = "concat (map esc s) @ 34 # r"
  have nj: "\<not> joins_low ?r" if "is_high c"
  proof (cases s)
    case Nil
    then show ?thesis by (simp add: joins_low_def lit_def)
  next
    case (Cons d ds)
    with Cons.prems that have d: "d < 0x110000" "\<not> is_low d" by auto
    show ?thesis
    proof (cases "esc d = json_escape_char d")
      case True
      with escaped_not_joins [OF d] Cons show ?thesis by simp
    next
      case False
      with assms(1) [of d] have "esc d = [127]" by blast
      with Cons show ?thesis by (simp add: joins_low_def lit_def)
    qed
  qed
  have "scan_string (esc c @ ?r) = map_option (\<lambda>(s, t). (c # s, t)) (scan_string ?r)"
  proof (cases "esc c = json_escape_char c")
    case True
    with scan_escaped_char [of c ?r] nj Cons.prems show ?thesis by simp
  next
    case False
    with assms(1) [of c] have "c = 127" "esc c = [127]" by blast+
    then show ?thesis by simp
  qed
  with Cons show ?case by simp
qed

lemma scan_json_quote: "wf_str s \<Longrightarrow> scan_string (tl (json_quote s) @ r) = Some (s, r)"
  using scan_escaped_string [of json_escape_char s r] by (simp add: json_quote_def)

end
