(* ===== verification/JsonText.thy ===== *)
theory JsonText
  imports JsonDecode
begin

text \<open>
  Reading back printed JSON. The locale \<open>json_text\<close> is the interface of a printer: how it
  escapes characters, prints numbers and constants, and separates items, with the laws under
  which the decoder reads its text back. It is interpreted on \<^verbatim>\<open>json.dumps\<close> here and on
  the canonical JSON of the signatures in theory \<open>CanonicalJson\<close>.
\<close>

section \<open>The printer\<close>

fun is_atom :: "json \<Rightarrow> bool" where
  "is_atom (JStr _) = False"
| "is_atom (JList _) = False"
| "is_atom (JDict _) = False"
| "is_atom _ = True"

fun print_json :: "(nat \<Rightarrow> pystr) \<Rightarrow> (json \<Rightarrow> pystr) \<Rightarrow> pystr \<Rightarrow> json \<Rightarrow> pystr" where
  "print_json esc num ws (JStr s) = 34 # concat (map esc s) @ [34]"
| "print_json esc num ws (JList vs) =
     91 # py_join (44 # ws) (map (print_json esc num ws) vs) @ [93]"
| "print_json esc num ws (JDict d) =
     123 # py_join (44 # ws)
       (map (\<lambda>(k, v). 34 # concat (map esc k) @ 34 # 58 # ws @ print_json esc num ws v) d) @ [125]"
| "print_json esc num ws v = num v"

fun map_atoms :: "(json \<Rightarrow> json) \<Rightarrow> json \<Rightarrow> json" where
  "map_atoms rd (JStr s) = JStr s"
| "map_atoms rd (JList vs) = JList (map (map_atoms rd) vs)"
| "map_atoms rd (JDict d) = JDict (map (\<lambda>(k, v). (k, map_atoms rd v)) d)"
| "map_atoms rd v = rd v"

fun printable :: "(json \<Rightarrow> bool) \<Rightarrow> json \<Rightarrow> bool" where
  "printable ok (JStr s) = wf_str s"
| "printable ok (JList vs) = list_all (printable ok) vs"
| "printable ok (JDict d) =
     (dict_keys_ok d \<and> list_all (\<lambda>kv. wf_str (fst kv)) d \<and> list_all (\<lambda>(k, v). printable ok v) d)"
| "printable ok v = ok v"

text \<open>What may follow a value: nothing, a comma or a closing bracket.\<close>

definition stops :: "pystr \<Rightarrow> bool" where
  "stops r \<longleftrightarrow> r = [] \<or> hd r \<in> {44, 93, 125}"

lemma stops_Cons [simp]: "stops (c # r) \<longleftrightarrow> c \<in> {44, 93, 125}"
  by (simp add: stops_def)

lemma print_atom: "is_atom v \<Longrightarrow> print_json esc num ws v = num v"
  by (cases v) auto

lemma map_atoms_atom: "is_atom v \<Longrightarrow> map_atoms rd v = rd v"
  by (cases v) auto

lemma printable_atom: "is_atom v \<Longrightarrow> printable ok v = ok v"
  by (cases v) auto

lemma map_atoms_id: "(\<And>a. is_atom a \<Longrightarrow> ok a \<Longrightarrow> rd a = a) \<Longrightarrow> printable ok v \<Longrightarrow> map_atoms rd v = v"
  by (induction rd v rule: map_atoms.induct) (auto simp: list_all_iff intro!: map_idI)

lemma dict_of_step:
  "dict_keys_ok (d @ ps) \<Longrightarrow> foldl (\<lambda>d (k, v). AList.update k v d) d ps = d @ ps"
proof (induction ps arbitrary: d)
  case Nil
  then show ?case by simp
next
  case (Cons p ps)
  obtain k v where p: "p = (k, v)" by (cases p)
  have "k \<notin> set (map fst d)"
    using Cons.prems p by (auto simp: dict_keys_ok_def)
  then have "AList.update k v d = d @ [(k, v)]"
    by (induction d) auto
  with Cons p show ?case by simp
qed

lemma dict_of_distinct: "dict_keys_ok ps \<Longrightarrow> dict_of ps = ps"
  using dict_of_step [of "[]" ps] by (simp add: dict_of_def)

section \<open>Reading it back\<close>

locale json_text =
  fixes rt :: runtime and esc :: "nat \<Rightarrow> pystr" and num :: "json \<Rightarrow> pystr" and ws :: pystr
    and rd :: "json \<Rightarrow> json" and ok :: "json \<Rightarrow> bool"
  assumes esc: "esc c = json_escape_char c \<or> c = 127 \<and> esc c = [127]"
    and ws: "list_all is_ws ws"
    and atom: "is_atom v \<Longrightarrow> ok v \<Longrightarrow> stops r \<Longrightarrow> scan_atom rt (num v @ r) = Some (rd v, r)"
    and head: "is_atom v \<Longrightarrow> ok v \<Longrightarrow> num v \<noteq> [] \<and> hd (num v) \<notin> {34, 91, 93, 123, 125} \<and> \<not> is_ws (hd (num v))"
begin

abbreviation text_of :: "json \<Rightarrow> pystr" where
  "text_of \<equiv> print_json esc num ws"

lemma text_head:
  assumes "printable ok v"
  shows "\<exists>c cs. text_of v = c # cs \<and> c \<noteq> 93 \<and> c \<noteq> 125 \<and> \<not> is_ws c"
proof (cases "is_atom v")
  case True
  with assms head [of v] show ?thesis
    by (cases "num v") (auto simp: print_atom printable_atom)
next
  case False
  then show ?thesis by (cases v) (auto simp: is_ws_def)
qed

lemma skip_ws_Cons: "\<not> is_ws c \<Longrightarrow> skip_ws (ws @ c # r) = c # r"
  using ws by (simp add: dropWhile_append2 list_all_iff)

lemma skip_ws_text: "printable ok v \<Longrightarrow> skip_ws (ws @ text_of v @ r) = text_of v @ r"
  using text_head [of v] skip_ws_Cons by auto

lemma scan_key: "wf_str s \<Longrightarrow> scan_string (concat (map esc s) @ 34 # r) = Some (s, r)"
  by (rule scan_escaped_string) (use esc in auto)

lemma scan_elems_text:
  assumes "\<And>v n r. v \<in> set vs \<Longrightarrow> stops r \<Longrightarrow> length (text_of v) < n \<Longrightarrow>
      scan_once rt n (text_of v @ r) = Some (map_atoms rd v, r)"
    and "vs \<noteq> []" "list_all (printable ok) vs"
    and "length (py_join (44 # ws) (map text_of vs)) + 1 < n"
  shows "scan_elems rt n (py_join (44 # ws) (map text_of vs) @ 93 # r) = Some (map (map_atoms rd) vs, r)"
  using assms
proof (induction vs arbitrary: n)
  case Nil
  then show ?case by simp
next
  case (Cons v vs)
  obtain m where n: "n = Suc m" using Cons.prems(4) by (cases n) auto
  show ?case
  proof (cases "vs = []")
    case True
    with Cons.prems n show ?thesis by (simp add: is_ws_def)
  next
    case False
    let ?t = "py_join (44 # ws) (map text_of vs) @ 93 # r"
    obtain w ws' where vs: "vs = w # ws'" using False by (cases vs) auto
    have 1: "scan_once rt m (text_of v @ 44 # ws @ ?t) = Some (map_atoms rd v, 44 # ws @ ?t)"
      using Cons.prems(1,4) n by (simp add: py_join_Cons False)
    obtain u where "?t = text_of w @ u" unfolding vs by (simp add: py_join_Cons)
    then have 2: "skip_ws (ws @ ?t) = ?t"
      using skip_ws_text [of w u] Cons.prems(3) vs by simp
    obtain c cs where "text_of v = c # cs"
      using text_head [of v] Cons.prems(3) by auto
    then have 3: "length (py_join (44 # ws) (map text_of vs)) + 1 < m"
      using Cons.prems(4) n False by (simp add: py_join_Cons)
    have "scan_elems rt m ?t = Some (map (map_atoms rd) vs, r)"
      by (rule Cons.IH) (use Cons.prems 3 False in auto)
    with 1 2 n False show ?thesis by (simp add: py_join_Cons is_ws_def)
  qed
qed

abbreviation member_text :: "pystr \<times> json \<Rightarrow> pystr" where
  "member_text \<equiv> \<lambda>(k, v). 34 # concat (map esc k) @ 34 # 58 # ws @ text_of v"

lemma scan_members_text:
  assumes "\<And>k v n r. (k, v) \<in> set d \<Longrightarrow> stops r \<Longrightarrow> length (text_of v) < n \<Longrightarrow>
      scan_once rt n (text_of v @ r) = Some (map_atoms rd v, r)"
    and "d \<noteq> []" "list_all (\<lambda>kv. wf_str (fst kv)) d" "list_all (\<lambda>(k, v). printable ok v) d"
    and "length (py_join (44 # ws) (map member_text d)) + 1 < n"
  shows "scan_members rt n (py_join (44 # ws) (map member_text d) @ 125 # r) =
    Some (map (\<lambda>(k, v). (k, map_atoms rd v)) d, r)"
  using assms
proof (induction d arbitrary: n)
  case Nil
  then show ?case by simp
next
  case (Cons p d)
  obtain k v where p: "p = (k, v)" by (cases p)
  obtain m where n: "n = Suc m" using Cons.prems(5) by (cases n) auto
  have kv: "wf_str k" "printable ok v" using Cons.prems(3,4) p by auto
  note key = scan_key [OF kv(1)] and skip = skip_ws_text [OF kv(2)]
  show ?case
  proof (cases "d = []")
    case True
    have "scan_once rt m (text_of v @ 125 # r) = Some (map_atoms rd v, 125 # r)"
      using Cons.prems(1,5) n p by (simp add: True)
    with True n p show ?thesis by (simp add: is_ws_def key skip)
  next
    case False
    let ?t = "py_join (44 # ws) (map member_text d) @ 125 # r"
    have 1: "scan_once rt m (text_of v @ 44 # ws @ ?t) = Some (map_atoms rd v, 44 # ws @ ?t)"
      by (rule Cons.prems(1)) (use Cons.prems(5) n p False in \<open>auto simp: py_join_Cons\<close>)
    obtain u where "?t = 34 # u" using False by (cases d) (auto simp: py_join_Cons)
    then have 2: "skip_ws (ws @ ?t) = ?t"
      using skip_ws_Cons [of 34] by (simp add: is_ws_def)
    have 3: "length (py_join (44 # ws) (map member_text d)) + 1 < m"
      using Cons.prems(5) n p False by (simp add: py_join_Cons)
    have "scan_members rt m ?t = Some (map (\<lambda>(k, v). (k, map_atoms rd v)) d, r)"
      by (rule Cons.IH) (use Cons.prems 3 False in auto)
    with 1 2 n p False show ?thesis by (simp add: py_join_Cons is_ws_def key skip)
  qed
qed

theorem scan_text:
  "printable ok v \<Longrightarrow> stops r \<Longrightarrow> length (text_of v) < n \<Longrightarrow>
     scan_once rt n (text_of v @ r) = Some (map_atoms rd v, r)"
proof (induction v arbitrary: n r rule: measure_induct_rule [of size])
  case (less v)
  then obtain m where n: "n = Suc m" by (cases n) auto
  consider (atom) "is_atom v" | (str) s where "v = JStr s" | (list) vs where "v = JList vs"
    | (dict) d where "v = JDict d" by (cases v) auto
  then show ?case
  proof cases
    case atom
    with less head [of v] json_text.atom [OF json_text_axioms, of v r] n show ?thesis
      by (cases "num v") (auto simp: print_atom map_atoms_atom printable_atom)
  next
    case str
    with less n show ?thesis by (simp add: scan_key)
  next
    case list
    show ?thesis
    proof (cases "vs = []")
      case True
      with list n show ?thesis by (simp add: is_ws_def)
    next
      case False
      have sz: "x \<in> set vs \<Longrightarrow> size x < size v" for x
        using json_size_list list by blast
      have "scan_elems rt m (py_join (44 # ws) (map text_of vs) @ 93 # r) = Some (map (map_atoms rd) vs, r)"
        by (rule scan_elems_text) (use less list n False sz in \<open>auto simp: list_all_iff\<close>)
      moreover obtain c cs where "py_join (44 # ws) (map text_of vs) @ 93 # r = c # cs" "c \<noteq> 93" "\<not> is_ws c"
        using False text_head [of "hd vs"] less.prems(1) list
        by (cases vs) (auto simp: py_join_Cons split: if_splits)
      ultimately show ?thesis using list n by simp
    qed
  next
    case dict
    show ?thesis
    proof (cases "d = []")
      case True
      with dict n show ?thesis by (simp add: is_ws_def)
    next
      case False
      have sz: "(k, x) \<in> set d \<Longrightarrow> size x < size v" for k x
        using json_size_dict dict by blast
      have "scan_members rt m (py_join (44 # ws) (map member_text d) @ 125 # r) =
          Some (map (\<lambda>(k, v). (k, map_atoms rd v)) d, r)"
        by (rule scan_members_text) (use less dict n False sz in \<open>auto simp: list_all_iff\<close>)
      moreover obtain cs where "py_join (44 # ws) (map member_text d) @ 125 # r = 34 # cs"
        using False by (cases d) (auto simp: py_join_Cons)
      moreover have "dict_keys_ok (map (\<lambda>(k, v). (k, map_atoms rd v)) d)"
        using less.prems(1) dict by (simp add: dict_keys_ok_def comp_def case_prod_beta)
      ultimately show ?thesis using dict n by (simp add: is_ws_def dict_of_distinct)
    qed
  qed
qed

lemma decode_text: "printable ok v \<Longrightarrow> json_decode rt (text_of v) = Some (map_atoms rd v)"
proof -
  assume v: "printable ok v"
  then have "skip_ws (text_of v) = text_of v"
    using text_head [of v] by auto
  with scan_text [OF v, of "[]" "Suc (length (text_of v))"] show ?thesis
    by (simp add: json_decode_def stops_def)
qed

end

section \<open>Number texts\<close>

text \<open>The grammar of a JSON number: integer part, fraction and exponent.\<close>

definition int_part :: "pystr \<Rightarrow> bool" where
  "int_part i \<longleftrightarrow> (\<exists>sgn ds. i = sgn @ ds \<and> (sgn = [] \<or> sgn = [45]) \<and> ds \<noteq> [] \<and>
     list_all is_dec ds \<and> (hd ds = 48 \<longrightarrow> ds = [48]))"

definition frac_part :: "pystr \<Rightarrow> bool" where
  "frac_part f \<longleftrightarrow> f = [] \<or> (\<exists>ds. f = 46 # ds \<and> ds \<noteq> [] \<and> list_all is_dec ds)"

definition exp_part :: "pystr \<Rightarrow> bool" where
  "exp_part e \<longleftrightarrow>
     e = [] \<or> (\<exists>s ds. e = 101 # s # ds \<and> (s = 43 \<or> s = 45) \<and> ds \<noteq> [] \<and> list_all is_dec ds)"

lemma takeWhile_digits:
  assumes "list_all is_dec ds" "r = [] \<or> \<not> is_dec (hd r)"
  shows "takeWhile is_dec (ds @ r) = ds" "dropWhile is_dec (ds @ r) = r"
  using assms by (induction ds; cases r; auto)+

lemma scan_int_part:
  assumes "int_part i" "r = [] \<or> \<not> is_dec (hd r)"
  shows "scan_int (i @ r) = Some (i, r)"
proof -
  obtain sgn es where s: "i = sgn @ es" "sgn = [] \<or> sgn = [45]" "es \<noteq> []" "list_all is_dec es"
      "hd es = 48 \<longrightarrow> es = [48]"
    using assms(1) unfolding int_part_def by blast
  then obtain d ds where "es = d # ds" by (cases es) auto
  with s have i: "i = sgn @ d # ds" "sgn = [] \<or> sgn = [45]" "list_all is_dec (d # ds)"
      "d = 48 \<longrightarrow> ds = []"
    by auto
  have "is_dec d" "d \<noteq> 45" using i(3) by (auto simp: is_dec_def)
  moreover have "takeWhile is_dec ((d # ds) @ r) = d # ds" "dropWhile is_dec ((d # ds) @ r) = r"
    using takeWhile_digits [OF i(3) assms(2)] by blast+
  ultimately show ?thesis using i
    by (auto simp: scan_int_def lit_def Let_def)
qed

lemma scan_frac_part:
  assumes "frac_part f" "r = [] \<or> \<not> is_dec (hd r)" "f = [] \<Longrightarrow> r = [] \<or> hd r \<noteq> 46"
  shows "scan_frac (f @ r) = (f, r)"
proof (cases "f = []")
  case True
  with assms show ?thesis by (auto simp: scan_frac_def split: list.splits)
next
  case False
  then obtain d ds where f: "f = 46 # d # ds" "list_all is_dec (d # ds)"
    using assms(1) by (auto simp: frac_part_def neq_Nil_conv)
  moreover have "takeWhile is_dec ((d # ds) @ r) = d # ds" "dropWhile is_dec ((d # ds) @ r) = r"
    using takeWhile_digits [OF f(2) assms(2)] by blast+
  ultimately show ?thesis by (simp add: scan_frac_def)
qed

lemma scan_exp_part:
  assumes "exp_part e" "stops r"
  shows "scan_exp (e @ r) = (e, r)"
proof (cases "e = []")
  case True
  with assms show ?thesis by (auto simp: scan_exp_def stops_def split: list.splits)
next
  case False
  then obtain s d ds where e: "e = 101 # s # d # ds" "s = 43 \<or> s = 45" "list_all is_dec (d # ds)"
    using assms(1) by (auto simp: exp_part_def neq_Nil_conv)
  have "r = [] \<or> \<not> is_dec (hd r)" using assms(2) by (auto simp: stops_def is_dec_def)
  with e(3) have "takeWhile is_dec ((d # ds) @ r) = d # ds" "dropWhile is_dec ((d # ds) @ r) = r"
    using takeWhile_digits by blast+
  with e show ?thesis by (auto simp: scan_exp_def lit_def)
qed

lemma scan_number_text:
  assumes "int_part i" "frac_part f" "exp_part e" "stops r"
  shows "scan_number rt (i @ f @ e @ r) =
    (if f \<noteq> [] \<or> e \<noteq> [] then Some (JFloat (float_of rt (i @ f @ e)), r)
     else map_option (\<lambda>n. (JInt n, r)) (int_ascii 10 i))"
proof -
  have r: "r = [] \<or> \<not> is_dec (hd r)" "r = [] \<or> hd r \<noteq> 46"
    using assms(4) by (auto simp: stops_def is_dec_def)
  have er: "e @ r = [] \<or> \<not> is_dec (hd (e @ r))" "e @ r = [] \<or> hd (e @ r) \<noteq> 46"
    using r assms(3) by (auto simp: exp_part_def is_dec_def)
  have fer: "f @ e @ r = [] \<or> \<not> is_dec (hd (f @ e @ r))"
    using er assms(2) by (auto simp: frac_part_def is_dec_def)
  have "scan_int (i @ f @ e @ r) = Some (i, f @ e @ r)"
    by (rule scan_int_part [OF assms(1) fer])
  moreover have "scan_frac (f @ e @ r) = (f, e @ r)"
    by (rule scan_frac_part [OF assms(2) er(1)]) (use er(2) in auto)
  ultimately show ?thesis
    using scan_exp_part [OF assms(3,4)] by (simp only: scan_number_def option.case prod.case Let_def)
qed

text \<open>A number text starts with a digit or a minus sign, so no constant is read instead.\<close>

lemma int_part_head: "int_part i \<Longrightarrow> \<exists>c cs. i = c # cs \<and> (c = 45 \<or> is_dec c)"
  by (auto simp: int_part_def neq_Nil_conv)

lemma scan_atom_number:
  assumes "int_part i" "scan_number rt (i @ r) = Some x"
  shows "scan_atom rt (i @ r) = Some x"
  using int_part_head [OF assms(1)] assms(2)
  by (auto simp: scan_atom_def lit_def is_dec_def)

lemma is_dec_show_nat: "list_all is_dec (show_nat n)"
  using show_nat_digits by (auto simp: list_all_iff is_dec_def)

lemma int_part_show_int: "int_part (show_int i)"
proof -
  have "show_nat n = [48] \<or> hd (show_nat n) \<noteq> 48" for n
    using hd_show_nat [of n] by (cases "n = 0") (simp_all add: show_nat_def dec_digits.simps [of 0])
  then have "show_nat n \<noteq> [] \<and> list_all is_dec (show_nat n) \<and> (hd (show_nat n) = 48 \<longrightarrow> show_nat n = [48])" for n
    using is_dec_show_nat by auto
  then show ?thesis
    unfolding int_part_def by (intro exI [of _ "if i < 0 then [45] else []"] exI [of _ "show_nat (nat \<bar>i\<bar>)"])
      (auto simp: show_int_def lit_def)
qed

lemma is_dec_show_digits: "list_all is_dec (show_digits ds) \<longleftrightarrow> list_all (\<lambda>d. d < 10) ds"
  by (auto simp: show_digits_def is_dec_def list_all_iff)

lemma is_dec_zeros: "list_all is_dec (replicate n 48)"
  by (simp add: list_all_iff is_dec_def)

lemma int_part_sign: "int_part i \<Longrightarrow> hd i \<noteq> 45 \<Longrightarrow> int_part ((if neg then lit ''-'' else []) @ i)"
  by (erule int_part_def [THEN iffD1, THEN exE], elim exE conjE)
    (auto simp: int_part_def lit_def intro: exI [of _ "if neg then [45] else []"])

lemma int_partI:
  "ds \<noteq> [] \<Longrightarrow> list_all is_dec ds \<Longrightarrow> hd ds = 48 \<longrightarrow> ds = [48] \<Longrightarrow> int_part ds \<and> hd ds \<noteq> 45"
  unfolding int_part_def by (rule conjI, rule exI [of _ "[]"], rule exI [of _ ds])
    (auto simp: is_dec_def neq_Nil_conv)

lemma exp_part_show: "exp_part (lit ''e'' @ show_exp2 e)"
  using is_dec_show_nat by (auto simp: exp_part_def show_exp2_def lit_def is_dec_def)

definition number_shape :: "pystr \<Rightarrow> bool" where
  "number_shape t \<longleftrightarrow> (\<exists>i f e. t = i @ f @ e \<and> int_part i \<and> hd i \<noteq> 45 \<and> frac_part f \<and> exp_part e \<and>
    (f \<noteq> [] \<or> e \<noteq> []))"

lemma number_shapeI:
  "t = i @ f @ e \<Longrightarrow> int_part i \<and> hd i \<noteq> 45 \<Longrightarrow> frac_part f \<Longrightarrow> exp_part e \<Longrightarrow> f \<noteq> [] \<or> e \<noteq> [] \<Longrightarrow>
    number_shape t"
  unfolding number_shape_def by blast

lemma exp_part_Nil: "exp_part []"
  by (simp add: exp_part_def)

lemma repr_digits_shape:
  assumes "ds \<noteq> []" "list_all (\<lambda>d. d < 10) ds" "hd ds \<noteq> 0 \<or> ds = [0] \<and> k = 1"
  shows "number_shape (repr_digits ds k)"
proof -
  obtain d ds' where ds: "ds = d # ds'" using assms(1) by (cases ds) auto
  have dec: "list_all is_dec (show_digits ds)" "list_all is_dec (show_digits (drop n ds))"
      "list_all is_dec (show_digits (take n ds))" for n
    unfolding is_dec_show_digits using assms(2)
    by (auto simp: list_all_iff dest: in_set_dropD in_set_takeD)
  consider (small) "- 4 < k" "k \<le> 0" | (whole) "0 < k" "k \<le> 16" "int (length ds) \<le> k"
    | (mid) "0 < k" "k \<le> 16" "k < int (length ds)" | (exp) "\<not> (- 4 < k \<and> k \<le> 16)"
    by linarith
  then show ?thesis
  proof cases
    case small
    then have "repr_digits ds k = [48] @ (46 # replicate (nat (- k)) 48 @ show_digits ds) @ []"
      by (simp add: repr_digits_def lit_def)
    moreover have "int_part [48] \<and> hd [48] \<noteq> (45 :: nat)"
      by (rule int_partI) (auto simp: is_dec_def)
    moreover have "frac_part (46 # replicate (nat (- k)) 48 @ show_digits ds)"
      using dec ds by (simp add: frac_part_def is_dec_zeros show_digits_def)
    ultimately show ?thesis
      by (rule number_shapeI [OF _ _ _ exp_part_Nil]) auto
  next
    case whole
    let ?i = "show_digits ds @ replicate (nat k - length ds) 48"
    have "repr_digits ds k = ?i @ [46, 48] @ []"
      using whole by (simp add: repr_digits_def lit_def)
    moreover have "int_part ?i \<and> hd ?i \<noteq> 45"
      by (rule int_partI) (use assms(3) ds dec whole in \<open>auto simp: is_dec_zeros show_digits_def\<close>)
    ultimately show ?thesis
      by (rule number_shapeI [OF _ _ _ exp_part_Nil]) (auto simp: frac_part_def is_dec_def)
  next
    case mid
    let ?i = "show_digits (take (nat k) ds)" and ?f = "46 # show_digits (drop (nat k) ds)"
    have "repr_digits ds k = ?i @ ?f @ []"
      using mid by (simp add: repr_digits_def lit_def)
    moreover have "int_part ?i \<and> hd ?i \<noteq> 45"
    proof (rule int_partI)
      show "list_all is_dec ?i" by (rule dec)
    qed (use assms(3) ds mid in \<open>auto simp: show_digits_def take_Cons'\<close>)
    moreover have "frac_part ?f"
      using mid dec by (simp add: frac_part_def show_digits_def)
    ultimately show ?thesis
      by (rule number_shapeI [OF _ _ _ exp_part_Nil]) auto
  next
    case exp
    let ?f = "if length ds = 1 then [] else lit ''.'' @ show_digits (drop 1 ds)"
    have "repr_digits ds k = show_digits (take 1 ds) @ ?f @ (lit ''e'' @ show_exp2 (k - 1))"
      using exp by (simp only: repr_digits_def if_False append_assoc)
    moreover have "int_part (show_digits (take 1 ds)) \<and> hd (show_digits (take 1 ds)) \<noteq> 45"
      by (rule int_partI) (use ds dec(3) [of 1] in \<open>auto simp: show_digits_def\<close>)
    moreover have "frac_part ?f"
      using dec(2) [of 1] ds by (auto simp: frac_part_def lit_def show_digits_def)
    ultimately show ?thesis
      by (rule number_shapeI [OF _ _ _ exp_part_show]) (auto simp: lit_def)
  qed
qed

section \<open>json.dumps reads back\<close>

lemma scan_float_repr:
  assumes "wf_float f" "float_is_finite f" "stops r"
  shows "scan_atom rt (float_repr f @ r) = Some (JFloat (float_of rt (float_repr f)), r)"
    and "float_repr f \<noteq> [] \<and> (hd (float_repr f) = 45 \<or> is_dec (hd (float_repr f)))"
proof -
  obtain neg ds k where f: "f = Finite neg ds k" using assms(2) by (cases f) auto
  have "ds \<noteq> []" "list_all (\<lambda>d. d < 10) ds" "hd ds \<noteq> 0 \<or> ds = [0] \<and> k = 1"
    using assms(1) f by auto
  from repr_digits_shape [OF this] obtain i fr e where s: "repr_digits ds k = i @ fr @ e" "int_part i"
      "hd i \<noteq> 45" "frac_part fr" "exp_part e" "fr \<noteq> [] \<or> e \<noteq> []"
    unfolding number_shape_def by blast
  let ?i = "(if neg then lit ''-'' else []) @ i"
  have i: "int_part ?i" by (rule int_part_sign [OF s(2,3)])
  have t: "float_repr f = ?i @ fr @ e" using f s(1) by simp
  have "scan_number rt (?i @ fr @ e @ r) = Some (JFloat (float_of rt (float_repr f)), r)"
    unfolding scan_number_text [OF i s(4,5) assms(3)] t using s(6) by simp
  from scan_atom_number [OF i this] show "scan_atom rt (float_repr f @ r) = Some (JFloat (float_of rt (float_repr f)), r)"
    unfolding t append_assoc .
  show "float_repr f \<noteq> [] \<and> (hd (float_repr f) = 45 \<or> is_dec (hd (float_repr f)))"
    unfolding t using int_part_head [OF i] by (auto simp: lit_def)
qed

lemma scan_show_int: "stops r \<Longrightarrow> scan_atom rt (show_int i @ r) = Some (JInt i, r)"
  using scan_number_text [OF int_part_show_int [of i], of "[]" "[]" r rt]
  by (intro scan_atom_number [OF int_part_show_int]) (simp add: frac_part_def exp_part_def int_ascii_show_int)

lemma scan_atom_const:
  "scan_atom rt (lit ''null'' @ r) = Some (JNull, r)"
  "scan_atom rt (lit ''true'' @ r) = Some (JBool True, r)"
  "scan_atom rt (lit ''false'' @ r) = Some (JBool False, r)"
  "scan_atom rt (lit ''NaN'' @ r) = Some (JFloat NaN, r)"
  "scan_atom rt (lit ''Infinity'' @ r) = Some (JFloat (Infinity False), r)"
  "scan_atom rt (lit ''-Infinity'' @ r) = Some (JFloat (Infinity True), r)"
  by (simp_all add: scan_atom_def lit_def scan_number_def scan_int_def is_dec_def)

fun read_float :: "runtime \<Rightarrow> json \<Rightarrow> json" where
  "read_float rt (JFloat f) = JFloat (if float_is_finite f then float_of rt (float_repr f) else f)"
| "read_float rt v = v"

lemma dumps_head: "is_atom v \<Longrightarrow> wf_json v \<Longrightarrow> \<exists>c cs. json_dumps v = c # cs \<and> (c = 45 \<or> 48 \<le> c \<and> c \<le> 57 \<or>
    c \<in> {73, 78, 102, 110, 116})"
proof (cases v)
  case (JFloat f)
  assume "wf_json v"
  with JFloat show ?thesis
    using scan_float_repr(2) [of f "[]"]
    by (cases f; cases "float_repr f") (auto simp: lit_def is_dec_def stops_def simp del: float_repr.simps)
next
  case (JInt i)
  then show ?thesis
    using int_part_head [OF int_part_show_int [of i]] by (auto simp: is_dec_def)
qed (auto simp: lit_def)

interpretation dumps: json_text rt json_escape_char json_dumps "[32]" "read_float rt" wf_json for rt
proof
  fix v r
  assume v: "is_atom v" "wf_json v"
  show "json_dumps v \<noteq> [] \<and> hd (json_dumps v) \<notin> {34, 91, 93, 123, 125} \<and> \<not> is_ws (hd (json_dumps v))"
    using dumps_head [OF v] by (auto simp: is_ws_def)
  assume r: "stops r"
  show "scan_atom rt (json_dumps v @ r) = Some (read_float rt v, r)"
  proof (cases v)
    case (JFloat f)
    with v r scan_float_repr(1) [of f r rt] show ?thesis
      by (cases f) (auto simp: scan_atom_const simp del: float_repr.simps)
  qed (use v r in \<open>auto simp: scan_atom_const scan_show_int\<close>)
qed (auto simp: is_ws_def)

lemma dumps_text: "json_dumps v = print_json json_escape_char json_dumps [32] v"
  by (induction v rule: json_dumps.induct)
    (auto simp: lit_def json_quote_def intro!: arg_cong [where f = "py_join [44, 32]"])

lemma dumps_printable: "wf_json v \<Longrightarrow> printable wf_json v"
  by (induction v rule: wf_json.induct) (auto simp: list_all_iff)

lemma read_float_id: "doubles rt v \<Longrightarrow> map_atoms (read_float rt) v = v"
  by (induction "read_float rt" v rule: map_atoms.induct) (auto simp: list_all_iff is_double_def intro!: map_idI)

lemma dumps_no_bom: "wf_json v \<Longrightarrow> \<not> prefix [0xFEFF] (json_dumps v)"
  using dumps_head [of v] by (cases v) (auto simp: lit_def json_quote_def)

lemma json_loads_dumps:
  assumes "doubles rt v" "wf_json v"
  shows "json_loads rt (json_dumps v) = Inr v"
proof -
  have "json_decode rt (json_dumps v) = Some (map_atoms (read_float rt) v)"
    unfolding dumps_text [of v] by (rule dumps.decode_text) (rule dumps_printable [OF assms(2)])
  with assms dumps_no_bom show ?thesis by (simp add: json_loads_def read_float_id)
qed

section \<open>Characters of printed JSON\<close>

lemma number_parts_ascii:
  assumes "int_part i" "frac_part f" "exp_part e" "x \<in> set (i @ f @ e)"
  shows "32 \<le> x \<and> x < 128"
proof -
  have dec: "32 \<le> x \<and> x < 128" if "list_all is_dec t" "x \<in> set t" for t
    using that by (auto simp: list_all_iff is_dec_def)
  from assms(4) consider "x \<in> set i" | "x \<in> set f" | "x \<in> set e" by auto
  then show ?thesis
  proof cases
    case 1
    obtain sgn ds where "i = sgn @ ds" "sgn = [] \<or> sgn = [45]" "list_all is_dec ds"
      using assms(1) unfolding int_part_def by blast
    with 1 dec [of ds] show ?thesis by auto
  next
    case 2
    with assms(2) dec [of "tl f"] show ?thesis by (auto simp: frac_part_def)
  next
    case 3
    with assms(3) dec [of "tl (tl e)"] show ?thesis by (auto simp: exp_part_def)
  qed
qed

lemma py_join_all:
  "\<forall>c \<in> set sep. P c \<Longrightarrow> \<forall>x \<in> set xs. \<forall>c \<in> set x. P c \<Longrightarrow> \<forall>c \<in> set (py_join sep xs). P c"
  using set_py_join [of sep xs] by blast

lemma print_json_all:
  assumes "\<And>c x. x \<in> set (esc c) \<Longrightarrow> P x" "\<forall>c \<in> set ws. P c" "\<forall>c \<in> {34, 44, 58, 91, 93, 123, 125}. P c"
    and "\<And>v x. is_atom v \<Longrightarrow> ok v \<Longrightarrow> x \<in> set (num v) \<Longrightarrow> P x" "printable ok v"
  shows "\<forall>x \<in> set (print_json esc num ws v). P x"
  using assms(5)
proof (induction v rule: measure_induct_rule [of size])
  case (less v)
  have sep: "\<forall>c \<in> set (44 # ws). P c" using assms(2,3) by simp
  consider (atom) "is_atom v" | (str) s where "v = JStr s" | (list) vs where "v = JList vs"
    | (dict) d where "v = JDict d" by (cases v) auto
  then show ?case
  proof cases
    case atom
    with less.prems assms(4) show ?thesis by (auto simp: print_atom printable_atom)
  next
    case str
    with assms(1,3) show ?thesis by auto
  next
    case list
    then have "\<forall>t \<in> set (map (print_json esc num ws) vs). \<forall>x \<in> set t. P x"
      using less.IH [OF json_size_list [of _ vs, folded list]] less.prems by (auto simp: list_all_iff)
    from py_join_all [OF sep this] assms(3) list show ?thesis by simp
  next
    case dict
    have "\<forall>x \<in> set (print_json esc num ws w). P x" if "(k, w) \<in> set d" for k w
      using less.IH [OF json_size_dict [OF that, folded dict]] less.prems dict that by (auto simp: list_all_iff)
    then have "\<forall>t \<in> set (map (\<lambda>(k, v). 34 # concat (map esc k) @ 34 # 58 # ws @ print_json esc num ws v) d).
        \<forall>x \<in> set t. P x"
      using assms(1-3) by auto
    from py_join_all [OF sep this] assms(3) dict show ?thesis by simp
  qed
qed

lemma json_escape_char_ascii: "x \<in> set (json_escape_char c) \<Longrightarrow> 32 \<le> x \<and> x < 128"
proof -
  have hex: "x \<in> set (hex4 n) \<Longrightarrow> 32 \<le> x \<and> x < 128" for n
    using hex4_chars [of x n] by auto
  assume "x \<in> set (json_escape_char c)"
  then show ?thesis
    by (auto simp: json_escape_char_def lit_def dest: hex split: if_splits)
qed

lemma float_repr_ascii:
  assumes "wf_float f" "x \<in> set (json_float f)"
  shows "32 \<le> x \<and> x < 128"
proof (cases f)
  case (Finite neg ds k)
  have "ds \<noteq> []" "list_all (\<lambda>d. d < 10) ds" "hd ds \<noteq> 0 \<or> ds = [0] \<and> k = 1"
    using assms(1) Finite by auto
  from repr_digits_shape [OF this] obtain i fr e where "repr_digits ds k = i @ fr @ e" "int_part i"
      "frac_part fr" "exp_part e"
    unfolding number_shape_def by blast
  with number_parts_ascii [of i fr e x] assms(2) Finite show ?thesis by (auto simp: lit_def split: if_splits)
qed (use assms(2) in \<open>auto simp: lit_def split: if_splits\<close>)

lemma dumps_ascii: "wf_json v \<Longrightarrow> x \<in> set (json_dumps v) \<Longrightarrow> 32 \<le> x \<and> x < 128"
proof -
  assume v: "wf_json v" and x: "x \<in> set (json_dumps v)"
  have "32 \<le> y \<and> y < 128" if "is_atom a" "wf_json a" "y \<in> set (json_dumps a)" for a y
    using that float_repr_ascii show_int_chars by (cases a) (fastforce simp: lit_def split: if_splits)+
  then have "\<forall>y \<in> set (print_json json_escape_char json_dumps [32] v). 32 \<le> y \<and> y < 128"
    by (intro print_json_all [where ok = wf_json]) (auto dest: json_escape_char_ascii intro: dumps_printable v)
  with x dumps_text [of v] show "32 \<le> x \<and> x < 128" by simp
qed

end
