(* ===== verification/CanonicalJson.thy ===== *)
theory CanonicalJson
  imports NumberText JsonText "HOL-Library.Finite_Map"
begin

text \<open>
  What canonical JSON identifies. \<open>denote\<close> is the value of a JSON text: numbers by their
  decimal value, objects as finite maps whatever the order of their keys. The canonical text
  of two values is the same exactly when they denote the same, and it is ASCII JSON that
  decodes to the value with its keys sorted.
\<close>

section \<open>Number texts\<close>

text \<open>The integer part, fraction and exponent of the ECMAScript text of a non-zero number.\<close>

definition es6_parts :: "nat list \<Rightarrow> int \<Rightarrow> pystr \<times> pystr \<times> pystr" where
  "es6_parts ds n =
     (if int (length ds) \<le> n \<and> n \<le> 21
        then (show_digits ds @ replicate (nat (n - int (length ds))) 48, [], [])
      else if 0 < n \<and> n \<le> 21
        then (show_digits (take (nat n) ds), 46 # show_digits (drop (nat n) ds), [])
      else if - 6 < n \<and> n \<le> 0 then ([48], 46 # replicate (nat (- n)) 48 @ show_digits ds, [])
      else (show_digits (take 1 ds), if length ds = 1 then [] else 46 # show_digits (drop 1 ds),
            101 # (if n < 1 then 45 else 43) # show_nat (nat \<bar>n - 1\<bar>)))"

definition nonzero_digits :: "nat list \<Rightarrow> bool" where
  "nonzero_digits ds \<longleftrightarrow> ds \<noteq> [] \<and> list_all (\<lambda>d. d < 10) ds \<and> hd ds \<noteq> 0"

definition float_is_whole :: "nat list \<Rightarrow> int \<Rightarrow> bool" where
  "float_is_whole ds n \<longleftrightarrow> int (length ds) \<le> n \<and> n \<le> 21"

lemma es6_parts_text:
  "es6_parts ds n = (i, f, e) \<Longrightarrow>
     es6_number_to_string neg ds n = (if neg then lit ''-'' else []) @ i @ f @ e"
  by (auto simp: es6_parts_def es6_number_to_string_def Let_def lit_def split: if_splits)

lemma show_digits_eq_Nil [simp]: "show_digits ds = [] \<longleftrightarrow> ds = []"
  by (simp add: show_digits_def)

lemma es6_parts_cases:
  obtains (whole) "float_is_whole ds n" "es6_parts ds n =
        (show_digits ds @ replicate (nat (n - int (length ds))) 48, [], [])"
  | (mid) "\<not> float_is_whole ds n" "0 < n" "n < int (length ds)" "es6_parts ds n =
        (show_digits (take (nat n) ds), 46 # show_digits (drop (nat n) ds), [])"
  | (small) "\<not> float_is_whole ds n" "n \<le> 0" "es6_parts ds n =
        ([48], 46 # replicate (nat (- n)) 48 @ show_digits ds, [])"
  | (exp) "\<not> float_is_whole ds n" "es6_parts ds n =
        (show_digits (take 1 ds), if length ds = 1 then [] else 46 # show_digits (drop 1 ds),
         101 # (if n < 1 then 45 else 43) # show_nat (nat \<bar>n - 1\<bar>))"
proof -
  consider "float_is_whole ds n" | "\<not> float_is_whole ds n" "0 < n" "n \<le> 21"
    | "\<not> float_is_whole ds n" "- 6 < n" "n \<le> 0" | "\<not> float_is_whole ds n" "n \<le> - 6 \<or> 21 < n"
    by linarith
  then show ?thesis
    by cases (rule whole mid small exp; auto simp: es6_parts_def float_is_whole_def)+
qed

lemma es6_parts_shape:
  assumes "nonzero_digits ds" "es6_parts ds n = (i, f, e)"
  shows "int_part i \<and> hd i \<noteq> 45" "frac_part f" "exp_part e"
    "f = [] \<and> e = [] \<longleftrightarrow> float_is_whole ds n"
    "float_is_whole ds n \<Longrightarrow> i \<noteq> [] \<and> list_all is_dec i \<and> hd i \<noteq> 48"
proof -
  obtain d ds' where ds: "ds = d # ds'" "d \<noteq> 0"
    using assms(1) by (cases ds) (auto simp: nonzero_digits_def)
  have dec: "list_all is_dec (show_digits ds)" "list_all is_dec (show_digits (drop m ds))"
      "list_all is_dec (show_digits (take m ds))" for m
    unfolding is_dec_show_digits using assms(1)
    by (auto simp: list_all_iff nonzero_digits_def dest: in_set_dropD in_set_takeD)
  have "(i \<noteq> [] \<and> list_all is_dec i \<and> (hd i = 48 \<longrightarrow> i = [48])) \<and> frac_part f \<and> exp_part e \<and>
      (f = [] \<and> e = [] \<longleftrightarrow> float_is_whole ds n) \<and> (float_is_whole ds n \<longrightarrow> hd i \<noteq> 48)"
  proof (cases rule: es6_parts_cases [where ds = ds and n = n])
    case whole
    then show ?thesis
      using assms(2) dec(1) ds by (auto simp: is_dec_zeros frac_part_def exp_part_def)
  next
    case mid
    then have "hd (show_digits (take (nat n) ds)) \<noteq> 48" "take (nat n) ds \<noteq> []" "drop (nat n) ds \<noteq> []"
      using ds by (auto simp: take_Cons')
    with mid show ?thesis
      using assms(2) dec(2,3) [of "nat n"] by (auto simp: frac_part_def exp_part_def show_digits_eq_Nil)
  next
    case small
    then show ?thesis
      using assms(2) dec(1) ds by (auto simp: is_dec_zeros frac_part_def exp_part_def is_dec_def)
  next
    case exp
    then show ?thesis
      using assms(2) dec(2,3) [of 1] ds is_dec_show_nat
      by (auto simp: frac_part_def exp_part_def split: if_splits)
  qed
  then show "int_part i \<and> hd i \<noteq> 45" "frac_part f" "exp_part e"
      "f = [] \<and> e = [] \<longleftrightarrow> float_is_whole ds n"
      "float_is_whole ds n \<Longrightarrow> i \<noteq> [] \<and> list_all is_dec i \<and> hd i \<noteq> 48"
    using int_partI [of i] by simp_all
qed

text \<open>The parts of a number text are unique, because scanning finds them.\<close>

lemma parts_unique:
  assumes "int_part i \<and> hd i \<noteq> 45" "frac_part f" "exp_part e"
    and "int_part i' \<and> hd i' \<noteq> 45" "frac_part f'" "exp_part e'" "i @ f @ e = i' @ f' @ e'"
  shows "i = i'" "f = f'" "e = e'"
proof -
  have er: "e = [] \<or> \<not> is_dec (hd e)" "e = [] \<or> hd e \<noteq> 46" if "exp_part e" for e
    using that by (auto simp: exp_part_def is_dec_def)
  have fer: "f @ e = [] \<or> \<not> is_dec (hd (f @ e))" if "exp_part e" "frac_part f" for e f
    using er [OF that(1)] that(2) by (auto simp: frac_part_def is_dec_def)
  have si: "scan_int (i @ f @ e) = Some (i, f @ e)" "scan_int (i' @ f' @ e') = Some (i', f' @ e')"
    using assms(1,4) fer [OF assms(3,2)] fer [OF assms(6,5)] by (auto intro!: scan_int_part)
  have "Some (i, f @ e) = Some (i', f' @ e')"
    unfolding si [symmetric] assms(7) by (rule refl)
  then have fe: "i = i'" "f @ e = f' @ e'" by blast+
  have sf: "scan_frac (f @ e) = (f, e)" "scan_frac (f' @ e') = (f', e')"
    using assms(2,5) er [OF assms(3)] er [OF assms(6)] by (auto intro!: scan_frac_part)
  have "(f, e) = (f', e')"
    unfolding sf [symmetric] fe(2) by (rule refl)
  with fe(1) show "i = i'" "f = f'" "e = e'" by simp_all
qed

lemma zeros_digits_unique:
  assumes "replicate m 48 @ show_digits ds = replicate m' 48 @ show_digits ds'"
    and "nonzero_digits ds" "nonzero_digits ds'"
  shows "m = m' \<and> ds = ds'"
proof -
  have tw: "takeWhile (\<lambda>c. c = 48) (replicate k 48 @ show_digits xs) = replicate k 48"
    if "nonzero_digits xs" for k xs
    using that by (induction k) (auto simp: nonzero_digits_def neq_Nil_conv)
  have "replicate m (48 :: nat) = replicate m' 48"
    using tw [OF assms(2), of m] tw [OF assms(3), of m'] assms(1) by simp
  then have "m = m'" by (metis length_replicate)
  with assms(1) show ?thesis
    by (simp add: show_digits_def inj_map_eq_map)
qed

lemma show_digits_inject: "show_digits xs = show_digits ys \<longleftrightarrow> xs = ys"
  by (simp add: show_digits_def inj_map_eq_map)

lemma es6_parts_inject:
  assumes "nonzero_digits ds" "nonzero_digits ds'" "\<not> float_is_whole ds n" "\<not> float_is_whole ds' n'"
    and "es6_parts ds n = es6_parts ds' n'"
  shows "ds = ds' \<and> n = n'"
proof -
  obtain d x d' x' where ds: "ds = d # x" "ds' = d' # x'" "d \<noteq> 0" "d' \<noteq> 0"
    using assms(1,2) by (cases ds; cases ds') (auto simp: nonzero_digits_def)
  have lead: "show_digits (take m ds) \<noteq> [48]" "show_digits (take m ds') \<noteq> [48]" if "0 < m" for m
    using ds that by (auto simp: take_Cons')
  have joined: "xs = ys" if "show_digits (take j xs) = show_digits (take j ys)"
      "show_digits (drop j xs) = show_digits (drop j ys)" for j xs ys
    using that by (metis append_take_drop_id show_digits_inject)
  show ?thesis
  proof (cases rule: es6_parts_cases [where ds = ds and n = n])
    case whole
    with assms(3) show ?thesis by simp
  next
    case mid
    with assms(4,5) lead(1) [of "nat n"] have n': "0 < n'" "n' < int (length ds')"
      and eq: "show_digits (take (nat n) ds) = show_digits (take (nat n') ds')"
        "show_digits (drop (nat n) ds) = show_digits (drop (nat n') ds')"
      by (cases rule: es6_parts_cases [where ds = ds' and n = n']; auto)+
    from arg_cong [OF eq(1), of length] mid n' have "n = n'" by simp
    with eq joined show ?thesis by blast
  next
    case small
    with assms(4,5) lead(2) [of "nat n'"] have "n' \<le> 0"
      "replicate (nat (- n)) 48 @ show_digits ds = replicate (nat (- n')) 48 @ show_digits ds'"
      by (cases rule: es6_parts_cases [where ds = ds' and n = n']; auto)+
    with zeros_digits_unique [OF this(2) assms(1,2)] small show ?thesis by (auto simp: eq_nat_nat_iff)
  next
    case exp
    with assms(4,5) have eq: "show_digits (take 1 ds) = show_digits (take 1 ds')"
        "(if length ds = 1 then [] else 46 # show_digits (drop 1 ds)) =
         (if length ds' = 1 then [] else 46 # show_digits (drop 1 ds'))"
        "(if n < 1 then 45 else 43 :: nat) = (if n' < 1 then 45 else 43)"
        "show_nat (nat \<bar>n - 1\<bar>) = show_nat (nat \<bar>n' - 1\<bar>)"
      by (cases rule: es6_parts_cases [where ds = ds' and n = n']; simp)+
    from eq(2) have "show_digits (drop 1 ds) = show_digits (drop 1 ds')"
      using ds by (auto split: if_splits)
    with eq(1) joined have "ds = ds'" by blast
    moreover have "\<bar>n - 1\<bar> = \<bar>n' - 1\<bar>" using eq(4) by simp
    moreover have "n < 1 \<longleftrightarrow> n' < 1" using eq(3) by (simp split: if_splits)
    ultimately show ?thesis by (cases "n < 1") auto
  qed
qed

section \<open>The value of a number\<close>

text \<open>
  A number is an integer, or a sign with decimal digits and a decimal point. A float whose
  shortest digits end before the point, up to 21 digits, is the integer they write.
\<close>

datatype number = Whole int | Scaled bool "nat list" int

definition digits_value :: "nat list \<Rightarrow> nat" where
  "digits_value ds = foldl (\<lambda>a d. a * 10 + d) 0 ds"

fun number_value :: "json \<Rightarrow> number option" where
  "number_value (JInt i) = Some (Whole i)"
| "number_value (JFloat (Finite neg ds n)) = Some
     (if ds = [0] then Whole 0
      else if float_is_whole ds n
        then Whole ((if neg then - 1 else 1) * int (digits_value ds * 10 ^ nat (n - int (length ds))))
      else Scaled neg ds n)"
| "number_value _ = None"

fun number_ok :: "json \<Rightarrow> bool" where
  "number_ok (JFloat f) = (wf_float f \<and> float_is_finite f)"
| "number_ok _ = True"

lemma digits_value_pos: "nonzero_digits ds \<Longrightarrow> 0 < digits_value ds"
proof (induction ds rule: rev_induct)
  case (snoc d ds)
  then show ?case
    by (cases "ds = []") (auto simp: nonzero_digits_def digits_value_def)
qed (simp add: nonzero_digits_def)

lemma dec_digits_value: "nonzero_digits ds \<Longrightarrow> dec_digits (digits_value ds) = ds"
proof (induction ds rule: rev_induct)
  case (snoc d ds)
  show ?case
  proof (cases "ds = []")
    case True
    with snoc.prems show ?thesis
      by (simp add: nonzero_digits_def digits_value_def dec_digits.simps [of d])
  next
    case False
    with snoc.prems have ds: "nonzero_digits ds" "d < 10" by (auto simp: nonzero_digits_def)
    have v: "digits_value (ds @ [d]) = digits_value ds * 10 + d" by (simp add: digits_value_def)
    from snoc.IH [OF ds(1)] digits_value_pos [OF ds(1)] ds(2) show ?thesis
      unfolding v by (subst dec_digits.simps) (auto simp: div_add1_eq)
  qed
qed (simp add: nonzero_digits_def)

lemma digits_value_zeros: "digits_value (ds @ replicate m 0) = digits_value ds * 10 ^ m"
proof -
  have "foldl (\<lambda>a d. a * 10 + d) v (replicate m 0) = v * 10 ^ m" for v :: nat
    by (induction m arbitrary: v) (simp_all add: algebra_simps)
  then show ?thesis by (simp add: digits_value_def)
qed

lemma whole_text:
  assumes "nonzero_digits ds"
  shows "show_digits ds @ replicate m 48 = show_nat (digits_value ds * 10 ^ m)"
    and "0 < digits_value ds * 10 ^ m"
proof -
  have "nonzero_digits (ds @ replicate m 0)"
    using assms by (auto simp: nonzero_digits_def list_all_iff)
  from dec_digits_value [OF this] show "show_digits ds @ replicate m 48 = show_nat (digits_value ds * 10 ^ m)"
    by (simp add: digits_value_zeros show_nat_def show_digits_def)
  show "0 < digits_value ds * 10 ^ m"
    using digits_value_pos [OF assms] by simp
qed

text \<open>The text of a number, by its value.\<close>

fun number_text :: "number \<Rightarrow> pystr" where
  "number_text (Whole i) = show_int i"
| "number_text (Scaled neg ds n) = es6_number_to_string neg ds n"

lemma canonical_number:
  assumes "number_ok v" "number_value v = Some x"
  shows "canonical_json v = Inr (number_text x)"
    and "x = Scaled neg ds n \<Longrightarrow> nonzero_digits ds \<and> \<not> float_is_whole ds n"
proof -
  have "canonical_json v = Inr (number_text x) \<and>
    (\<forall>neg ds n. x = Scaled neg ds n \<longrightarrow> nonzero_digits ds \<and> \<not> float_is_whole ds n)"
    using assms(2)
  proof (cases v rule: number_value.cases)
    case (2 neg ds n)
    have wf: "wf_float (Finite neg ds n)" using 2 assms(1) by simp
    show ?thesis
    proof (cases "ds = [0]")
      case True
      with 2 assms(2) es6_float_finite [OF wf] show ?thesis
        by (auto simp: show_int_def show_nat_def dec_digits.simps [of 0] lit_def)
    next
      case False
      then have nz: "nonzero_digits ds" using wf by (auto simp: nonzero_digits_def)
      then have "float_is_whole ds n \<Longrightarrow> es6_number_to_string neg ds n =
          show_int ((if neg then - 1 else 1) * int (digits_value ds * 10 ^ nat (n - int (length ds))))"
        using whole_text [OF nz, of "nat (n - int (length ds))"]
        by (cases neg) (auto simp: es6_number_to_string_def float_is_whole_def show_int_def lit_def
          simp del: of_nat_mult of_nat_power)
      with 2 assms(2) False nz es6_float_finite [OF wf] show ?thesis
        by (auto split: if_splits)
    qed
  qed (use assms in auto)
  then show "canonical_json v = Inr (number_text x)"
    "x = Scaled neg ds n \<Longrightarrow> nonzero_digits ds \<and> \<not> float_is_whole ds n" by blast+
qed

lemma scaled_text:
  assumes "nonzero_digits ds" "\<not> float_is_whole ds n"
  obtains i f e where "es6_parts ds n = (i, f, e)"
    "es6_number_to_string neg ds n = (if neg then [45] else []) @ i @ f @ e"
    "int_part i \<and> hd i \<noteq> 45" "frac_part f" "exp_part e" "f \<noteq> [] \<or> e \<noteq> []"
proof -
  obtain i f e where p: "es6_parts ds n = (i, f, e)" by (cases "es6_parts ds n")
  show ?thesis
    by (rule that [OF p])
      (use es6_parts_text [OF p, of neg] es6_parts_shape [OF assms(1) p] assms(2) in \<open>auto simp: lit_def\<close>)
qed

definition number_proper :: "number \<Rightarrow> bool" where
  "number_proper x \<longleftrightarrow>
     (case x of Whole _ \<Rightarrow> True | Scaled neg ds n \<Rightarrow> nonzero_digits ds \<and> \<not> float_is_whole ds n)"

lemma whole_scaled_text:
  assumes "nonzero_digits ds" "\<not> float_is_whole ds n"
  shows "show_int j \<noteq> es6_number_to_string neg ds n"
proof -
  obtain i f e where p: "es6_number_to_string neg ds n = (if neg then [45] else []) @ i @ f @ e"
      "frac_part f" "exp_part e" "f \<noteq> [] \<or> e \<noteq> []"
    using scaled_text [OF assms, of neg] by metis
  then have "46 \<in> set (es6_number_to_string neg ds n) \<or> 101 \<in> set (es6_number_to_string neg ds n)"
    by (auto simp: frac_part_def exp_part_def)
  moreover have "46 \<notin> set (show_int j)" "101 \<notin> set (show_int j)"
    by (auto dest: show_int_chars)
  ultimately show ?thesis by auto
qed

lemma scaled_text_inject:
  assumes "nonzero_digits ds" "\<not> float_is_whole ds n" "nonzero_digits ds'" "\<not> float_is_whole ds' n'"
    and "es6_number_to_string neg ds n = es6_number_to_string neg' ds' n'"
  shows "neg = neg' \<and> ds = ds' \<and> n = n'"
proof -
  obtain i f e where p: "es6_parts ds n = (i, f, e)"
      "es6_number_to_string neg ds n = (if neg then [45] else []) @ i @ f @ e"
      "int_part i \<and> hd i \<noteq> 45" "frac_part f" "exp_part e"
    using scaled_text [OF assms(1,2), of neg] by metis
  obtain i' f' e' where p': "es6_parts ds' n' = (i', f', e')"
      "es6_number_to_string neg' ds' n' = (if neg' then [45] else []) @ i' @ f' @ e'"
      "int_part i' \<and> hd i' \<noteq> 45" "frac_part f'" "exp_part e'"
    using scaled_text [OF assms(3,4), of neg'] by metis
  have "neg = neg'" and eq: "i @ f @ e = i' @ f' @ e'"
    using assms(5) p(2,3) p'(2,3) int_part_head [of i] int_part_head [of i']
    by (auto split: if_splits)
  from parts_unique [OF p(3-5) p'(3-5) eq] p(1) p'(1) have "es6_parts ds n = es6_parts ds' n'" by simp
  with \<open>neg = neg'\<close> es6_parts_inject [OF assms(1,3,2,4)] show ?thesis by simp
qed

lemma number_text_inject:
  assumes "number_proper x" "number_proper y"
  shows "number_text x = number_text y \<longleftrightarrow> x = y"
proof (cases x; cases y)
  fix neg ds n neg' ds' n'
  assume xy: "x = Scaled neg ds n" "y = Scaled neg' ds' n'"
  show ?thesis
    using scaled_text_inject [of ds n ds' n' neg neg'] assms unfolding xy number_proper_def
    by auto
next
  fix i neg ds n
  assume xy: "x = Whole i" "y = Scaled neg ds n"
  show ?thesis
    using whole_scaled_text [of ds n i neg] assms xy by (simp add: number_proper_def)
next
  fix i neg ds n
  assume xy: "y = Whole i" "x = Scaled neg ds n"
  show ?thesis
    using whole_scaled_text [of ds n i neg] assms xy by (auto simp: number_proper_def dest: sym)
qed simp

section \<open>The value of a JSON text\<close>

datatype jvalue =
    VNull
  | VBool bool
  | VNumber number
  | VStr pystr
  | VList "jvalue list"
  | VDict "(pystr, jvalue) fmap"

fun denote :: "json \<Rightarrow> jvalue" where
  "denote JNull = VNull"
| "denote (JBool b) = VBool b"
| "denote (JStr s) = VStr s"
| "denote (JList vs) = VList (map denote vs)"
| "denote (JDict d) = VDict (fmap_of_list (map (\<lambda>(k, v). (k, denote v)) d))"
| "denote v = VNumber (the (number_value v))"

text \<open>The same value with the keys of its objects in order.\<close>

fun sort_keys :: "json \<Rightarrow> json" where
  "sort_keys (JList vs) = JList (map sort_keys vs)"
| "sort_keys (JDict d) = JDict (sort_key fst (map (\<lambda>(k, v). (k, sort_keys v)) d))"
| "sort_keys v = v"

text \<open>Values that have a canonical text: scalar-valued strings, distinct keys, finite floats.\<close>

abbreviation canon_ok :: "json \<Rightarrow> bool" where
  "canon_ok \<equiv> printable number_ok"

definition canon_atom :: "json \<Rightarrow> pystr" where
  "canon_atom v = projr (canonical_json v)"

abbreviation canon_text :: "json \<Rightarrow> pystr" where
  "canon_text \<equiv> print_json escape_json_char canon_atom []"

lemma map_fst_sort_key: "dict_keys_ok d \<Longrightarrow> map fst (sort_key fst d) = sort (map fst d)"
  by (rule sorted_distinct_set_unique) (simp_all add: dict_keys_ok_def distinct_map)

lemma sort_key_keys_ok: "dict_keys_ok (sort_key fst d) = dict_keys_ok d"
  by (simp add: dict_keys_ok_def distinct_map)

lemma map_of_sort_key: "dict_keys_ok d \<Longrightarrow> map_of (sort_key fst d) = map_of d"
  by (subst map_of_inject_set) (simp_all add: dict_keys_ok_def distinct_map)

lemma sort_key_distinct:
  assumes "dict_keys_ok d"
  shows "sort_key fst d = map (\<lambda>k. (k, the (map_of d k))) (sort (map fst d))"
proof -
  have "map (\<lambda>p. (fst p, the (map_of d (fst p)))) (sort_key fst d) = sort_key fst d"
    by (rule map_idI) (use assms in \<open>auto simp: dict_keys_ok_def\<close>)
  then show ?thesis
    by (simp add: map_fst_sort_key [OF assms, symmetric] comp_def)
qed

lemma map_result_Inr:
  "(\<And>x. x \<in> set xs \<Longrightarrow> f x = Inr (g x)) \<Longrightarrow> map_result f xs = Inr (map g xs)"
  by (induction xs) auto

lemma map_of_map_snd: "map_of (map (\<lambda>(k, v). (k, f v)) d) k = map_option f (map_of d k)"
  by (induction d) auto

lemma dict_keys_ok_map [simp]: "dict_keys_ok (map (\<lambda>(k, v). (k, f v)) d) = dict_keys_ok d"
  by (simp add: dict_keys_ok_def comp_def case_prod_unfold)

lemma map_fst_map_snd [simp]: "map fst (map (\<lambda>(k, v). (k, f v)) d) = map fst d"
  by (simp add: case_prod_unfold comp_def)

lemma sort_keys_dict:
  assumes "dict_keys_ok d"
  shows "sort_keys (JDict d) =
     JDict (map (\<lambda>k. (k, sort_keys (the (map_of d k)))) (sort (map fst d)))"
proof -
  have "the (map_option sort_keys (map_of d k)) = sort_keys (the (map_of d k))"
    if "k \<in> set (map fst d)" for k
    using that by (cases "map_of d k") (auto simp: map_of_eq_None_iff)
  then show ?thesis
    using assms by (simp add: sort_key_distinct map_of_map_snd del: map_map)
qed

lemma canonical_text: "canon_ok v \<Longrightarrow> canonical_json v = Inr (canon_text (sort_keys v))"
proof (induction v rule: canonical_json.induct)
  case (1 d)
  have ok: "dict_keys_ok d" using "1.prems" by simp
  have v: "canonical_json (the (map_of d k)) = Inr (canon_text (sort_keys (the (map_of d k))))"
      "\<exists>v. map_of d k = Some v"
    if k: "k \<in> set (sort (map fst d))" for k
  proof -
    from k obtain v where v: "map_of d k = Some v" by (cases "map_of d k") (auto simp: map_of_eq_None_iff)
    then have "canon_ok v" using "1.prems" by (auto simp: list_all_iff dest: map_of_SomeD)
    with "1.IH" [OF k v] v show "canonical_json (the (map_of d k)) = Inr (canon_text (sort_keys (the (map_of d k))))"
        "\<exists>v. map_of d k = Some v" by simp_all
  qed
  have "map_result (\<lambda>k. case map_of d k of None \<Rightarrow> Inl KeyError
      | Some v \<Rightarrow> rbind (canonical_json v) (\<lambda>t. Inr (escape_json_string k, t))) (sort (map fst d)) =
    Inr (map (\<lambda>k. (escape_json_string k, canon_text (sort_keys (the (map_of d k))))) (sort (map fst d)))"
    by (rule map_result_Inr) (use v in fastforce)
  then show ?case
    by (simp add: sort_keys_dict [OF ok] comp_def escape_json_string_def lit_def del: sort_keys.simps)
next
  case (2 vs)
  then have "map_result canonical_json vs = Inr (map (\<lambda>v. canon_text (sort_keys v)) vs)"
    by (intro map_result_Inr) (auto simp: list_all_iff)
  then show ?case by (simp add: comp_def lit_def)
next
  case (4 f)
  then show ?case
    by (cases f) (auto simp: canon_atom_def es6_float_finite simp del: wf_float.simps)
qed (simp_all add: canon_atom_def escape_json_string_def)

lemma sort_keys_ok: "canon_ok v \<Longrightarrow> canon_ok (sort_keys v)"
proof (induction v rule: sort_keys.induct)
  case (2 d)
  have "dict_keys_ok (sort_key fst (map (\<lambda>(k, v). (k, sort_keys v)) d))"
    using "2.prems" by (simp add: sort_key_keys_ok)
  with 2 show ?case by (auto simp: list_all_iff)
qed (auto simp: list_all_iff)

lemma denote_sort_keys: "canon_ok v \<Longrightarrow> denote (sort_keys v) = denote v"
proof (induction v rule: sort_keys.induct)
  case (2 d)
  let ?e = "map (\<lambda>(k, v). (k, denote v)) (sort_key fst (map (\<lambda>(k, v). (k, sort_keys v)) d))"
  have "map_option denote (map_option sort_keys (map_of d k)) = map_option denote (map_of d k)" for k
    using 2 by (cases "map_of d k") (fastforce simp: list_all_iff dest: map_of_SomeD)+
  then have "map_of ?e = map_of (map (\<lambda>(k, v). (k, denote v)) d)"
    using "2.prems" by (simp add: fun_eq_iff map_of_map_snd map_of_sort_key del: map_map)
  then show ?case by (simp add: fmap_ext fmlookup_of_list)
qed (auto simp: list_all_iff)

section \<open>Reading the canonical text\<close>

fun read_number :: "runtime \<Rightarrow> number \<Rightarrow> json" where
  "read_number rt (Whole i) = JInt i"
| "read_number rt (Scaled neg ds n) = JFloat (float_of rt (es6_number_to_string neg ds n))"

definition read_canon :: "runtime \<Rightarrow> json \<Rightarrow> json" where
  "read_canon rt v = (case number_value v of None \<Rightarrow> v | Some x \<Rightarrow> read_number rt x)"

lemma number_value_atom:
  assumes "is_atom v" "number_ok v" "number_value v = None"
  shows "v = JNull \<or> v = JBool True \<or> v = JBool False"
  using assms by (cases v rule: number_value.cases) auto

lemma number_value_proper: "number_ok v \<Longrightarrow> number_value v = Some x \<Longrightarrow> number_proper x"
  using canonical_number(2) [of v x] by (cases x) (auto simp: number_proper_def)

lemma canon_atom_number: "number_ok v \<Longrightarrow> number_value v = Some x \<Longrightarrow> canon_atom v = number_text x"
  by (simp add: canon_atom_def canonical_number)

lemma scan_number_value:
  assumes "number_proper x"
  shows "stops r \<Longrightarrow> scan_atom rt (number_text x @ r) = Some (read_number rt x, r)"
    and "\<exists>c cs. number_text x = c # cs \<and> (c = 45 \<or> is_dec c)"
proof -
  have "(stops r \<longrightarrow> scan_atom rt (number_text x @ r) = Some (read_number rt x, r)) \<and>
    (\<exists>c cs. number_text x = c # cs \<and> (c = 45 \<or> is_dec c))"
  proof (cases x)
    case (Whole i)
    then show ?thesis
      using int_part_head [OF int_part_show_int [of i]] by (auto simp: scan_show_int)
  next
    case (Scaled neg ds n)
    then have "nonzero_digits ds" "\<not> float_is_whole ds n"
      using assms by (simp_all add: number_proper_def)
    from scaled_text [OF this, of neg] obtain i f e where
      p: "es6_number_to_string neg ds n = (if neg then [45] else []) @ i @ f @ e"
        "int_part i \<and> hd i \<noteq> 45" "frac_part f" "exp_part e" "f \<noteq> [] \<or> e \<noteq> []"
      by metis
    let ?i = "(if neg then [45] else []) @ i"
    have i: "int_part ?i" using int_part_sign [of i neg] p(2) by (cases neg) (simp_all add: lit_def)
    have "scan_atom rt (?i @ f @ e @ r) = Some (read_number rt x, r)" if "stops r"
      using scan_number_text [OF i p(3,4) that, of rt] p(1,5) Scaled
      by (intro scan_atom_number [OF i]) simp
    moreover have "\<exists>c cs. ?i = c # cs \<and> (c = 45 \<or> is_dec c)" by (rule int_part_head [OF i])
    ultimately show ?thesis using p(1) Scaled by auto
  qed
  then show "stops r \<Longrightarrow> scan_atom rt (number_text x @ r) = Some (read_number rt x, r)"
    "\<exists>c cs. number_text x = c # cs \<and> (c = 45 \<or> is_dec c)" by blast+
qed

lemma escape_agrees: "escape_json_char c = json_escape_char c \<or> c = 127 \<and> escape_json_char c = [127]"
  by (cases "c = 127") (auto simp: escape_json_char_def json_escape_char_def Let_def)

interpretation canon: json_text rt escape_json_char canon_atom "[]" "read_canon rt" number_ok for rt
proof
  fix v r
  assume v: "is_atom v" "number_ok v"
  show "canon_atom v \<noteq> [] \<and> hd (canon_atom v) \<notin> {34, 91, 93, 123, 125} \<and> \<not> is_ws (hd (canon_atom v))"
  proof (cases "number_value v")
    case None
    with number_value_atom [OF v] show ?thesis by (auto simp: canon_atom_def lit_def is_ws_def)
  next
    case (Some x)
    with v scan_number_value(2) [OF number_value_proper [OF v(2) Some]] show ?thesis
      by (auto simp: canon_atom_number is_ws_def is_dec_def)
  qed
  assume r: "stops r"
  show "scan_atom rt (canon_atom v @ r) = Some (read_canon rt v, r)"
  proof (cases "number_value v")
    case None
    with number_value_atom [OF v] show ?thesis
      by (auto simp: canon_atom_def read_canon_def scan_atom_const)
  next
    case (Some x)
    with v r scan_number_value(1) [OF number_value_proper [OF v(2) Some]] show ?thesis
      by (simp add: canon_atom_number read_canon_def)
  qed
qed (use escape_agrees in auto)

section \<open>Equal texts are equal values\<close>

text \<open>A reading of float literals that keeps their text, to compare canonical texts with.\<close>

definition literal_runtime :: runtime where
  "literal_runtime = \<lparr>blake3 = \<lambda>_. [], float_of = \<lambda>s. Finite False s 0,
     div_1000 = \<lambda>_. Inl OverflowError, times_1000 = \<lambda>_. Inl OverflowError,
     py_repr = \<lambda>_. [], exc_text = \<lambda>_. [], netloc_ok = \<lambda>_. True\<rparr>"

lemma read_number_inject:
  assumes "number_proper x" "number_proper y" "read_number literal_runtime x = read_number literal_runtime y"
  shows "x = y"
proof -
  have "number_text x = number_text y"
    using assms(3) by (cases x; cases y) (auto simp: literal_runtime_def)
  with assms number_text_inject show ?thesis by blast
qed

lemma read_canon_inject:
  assumes "is_atom a" "is_atom b" "number_ok a" "number_ok b"
    and "read_canon literal_runtime a = read_canon literal_runtime b"
  shows "denote a = denote b"
proof (cases "number_value a"; cases "number_value b")
  fix x y
  assume xy: "number_value a = Some x" "number_value b = Some y"
  then have "x = y"
    using assms(3-5) by (auto simp: read_canon_def intro!: read_number_inject number_value_proper)
  with xy show ?thesis by (cases a; cases b) auto
next
  fix x
  assume "number_value a = None" "number_value b = Some x"
  with number_value_atom [OF assms(1,3)] assms(5) show ?thesis
    by (cases x) (auto simp: read_canon_def)
next
  fix x
  assume "number_value b = None" "number_value a = Some x"
  with number_value_atom [OF assms(2,4)] assms(5) show ?thesis
    by (cases x) (auto simp: read_canon_def)
qed (use assms in \<open>auto simp: read_canon_def\<close>)

lemma read_canon_atom: "is_atom a \<Longrightarrow> is_atom (read_canon rt a)"
  by (cases a rule: number_value.cases)
    (auto simp: read_canon_def split: option.splits)

lemma map_atoms_atom_iff: "is_atom (map_atoms (read_canon rt) a) = is_atom a"
  using read_canon_atom by (cases a) auto

lemma map_eq_list_all2: "map f xs = map g ys \<longleftrightarrow> list_all2 (\<lambda>x y. f x = g y) xs ys"
  by (auto simp: list_eq_iff_nth_eq list_all2_conv_all_nth)

lemma map_pairs_eq_iff:
  "map (\<lambda>(k, v). (k, f v)) d = map (\<lambda>(k, v). (k, g v)) e \<longleftrightarrow>
     list_all2 (\<lambda>(k, v) (k', v'). k = k' \<and> f v = g v') d e"
  by (auto simp: list_eq_iff_nth_eq list_all2_conv_all_nth split_beta prod_eq_iff)

lemma map_atoms_denote:
  assumes "map_atoms (read_canon literal_runtime) a = map_atoms (read_canon literal_runtime) b"
    and "canon_ok a" "canon_ok b"
  shows "denote a = denote b"
  using assms
proof (induction a arbitrary: b rule: measure_induct_rule [of size])
  case (less a)
  note eq = less.prems(1)
  have at: "is_atom a = is_atom b"
    by (metis map_atoms_atom_iff eq)
  consider (atom) "is_atom a" "is_atom b" | (str) s where "a = JStr s" "b = JStr s"
    | (list) vs ws where "a = JList vs" "b = JList ws"
    | (dict) d e where "a = JDict d" "b = JDict e"
  proof (cases "is_atom a")
    case True
    with at show ?thesis by (intro that(1)) simp_all
  next
    case False
    with at eq show ?thesis by (cases a; cases b; simp add: that)
  qed
  then show ?case
  proof cases
    case atom
    with less.prems show ?thesis
      by (intro read_canon_inject) (auto simp: map_atoms_atom printable_atom)
  next
    case list
    then have "list_all2 (\<lambda>v w. map_atoms (read_canon literal_runtime) v = map_atoms (read_canon literal_runtime) w) vs ws"
      using eq by (simp add: map_eq_list_all2)
    moreover have "v \<in> set vs \<Longrightarrow> size v < size a" for v
      using json_size_list list by blast
    ultimately have "list_all2 (\<lambda>v w. denote v = denote w) vs ws"
      using less list by (elim list.rel_mono_strong) (auto simp: list_all_iff)
    with list show ?thesis by (simp add: map_eq_list_all2)
  next
    case dict
    then have "list_all2 (\<lambda>(k, v) (k', v'). k = k' \<and>
        map_atoms (read_canon literal_runtime) v = map_atoms (read_canon literal_runtime) v') d e"
      using eq by (simp add: map_pairs_eq_iff)
    moreover have "(k, v) \<in> set d \<Longrightarrow> size v < size a" for k v
      using json_size_dict dict by blast
    moreover have "canon_ok v" if "(k, v) \<in> set d \<or> (k, v) \<in> set e" for k v
      using less.prems dict that by (auto simp: list_all_iff)
    ultimately have "list_all2 (\<lambda>(k, v) (k', v'). k = k' \<and> denote v = denote v') d e"
      by (elim list.rel_mono_strong) (use less.IH in blast)
    with dict show ?thesis by (simp add: map_pairs_eq_iff [symmetric])
  qed simp
qed

lemma denote_dict_keys:
  assumes "denote (JDict d) = denote (JDict e)" "dict_keys_ok d" "dict_keys_ok e"
  shows "sort (map fst d) = sort (map fst e)"
    and "map_option denote (map_of d k) = map_option denote (map_of e k)"
proof -
  have m: "map_of (map (\<lambda>(k, v). (k, denote v)) d) = map_of (map (\<lambda>(k, v). (k, denote v)) e)"
    using arg_cong [of _ _ fmlookup] assms(1) unfolding denote.simps jvalue.inject fmlookup_of_list [symmetric]
    by blast
  then show "map_option denote (map_of d k) = map_option denote (map_of e k)"
    by (metis map_of_map_snd)
  have "dom (map_of (map (\<lambda>(k, v). (k, denote v)) d)) = dom (map_of (map (\<lambda>(k, v). (k, denote v)) e))"
    by (simp only: m)
  then have "set (map fst d) = set (map fst e)"
    by (simp add: dom_map_of_conv_image_fst image_image case_prod_unfold)
  with assms(2,3) show "sort (map fst d) = sort (map fst e)"
    by (intro sorted_distinct_set_unique) (simp_all add: dict_keys_ok_def)
qed

lemma denote_atom_text:
  assumes "is_atom a" "is_atom b" "number_ok a" "number_ok b" "denote a = denote b"
  shows "canon_atom a = canon_atom b"
proof (cases "number_value a"; cases "number_value b")
  fix x y
  assume xy: "number_value a = Some x" "number_value b = Some y"
  with assms(5) have "x = y"
    by (cases a rule: number_value.cases; cases b rule: number_value.cases) auto
  with xy assms(3,4) show ?thesis by (simp add: canon_atom_number)
qed (use assms number_value_atom [of a] number_value_atom [of b] in
  \<open>cases a rule: number_value.cases; cases b rule: number_value.cases; auto\<close>)+

lemma sort_keys_atom: "is_atom a \<Longrightarrow> sort_keys a = a"
  by (cases a) auto

lemma denote_text:
  assumes "denote a = denote b" "canon_ok a" "canon_ok b"
  shows "canon_text (sort_keys a) = canon_text (sort_keys b)"
  using assms
proof (induction a arbitrary: b rule: measure_induct_rule [of size])
  case (less a)
  note eq = less.prems(1)
  consider (atom) "is_atom a" "is_atom b" | (str) s where "a = JStr s" "b = JStr s"
    | (list) vs ws where "a = JList vs" "b = JList ws"
    | (dict) d e where "a = JDict d" "b = JDict e"
    using eq by (cases a; cases b; simp)
  then show ?case
  proof cases
    case atom
    with less.prems denote_atom_text [of a b] show ?thesis
      by (simp add: print_atom printable_atom sort_keys_atom)
  next
    case list
    then have "list_all2 (\<lambda>v w. denote v = denote w) vs ws"
      using eq by (simp add: map_eq_list_all2)
    moreover have "v \<in> set vs \<Longrightarrow> size v < size a" for v
      using json_size_list list by blast
    ultimately have "list_all2 (\<lambda>v w. canon_text (sort_keys v) = canon_text (sort_keys w)) vs ws"
      using less list by (elim list.rel_mono_strong) (auto simp: list_all_iff)
    then have "map (canon_text \<circ> sort_keys) vs = map (canon_text \<circ> sort_keys) ws"
      by (simp add: map_eq_list_all2)
    with list show ?thesis by simp
  next
    case dict
    have ok: "dict_keys_ok d" "dict_keys_ok e" using less.prems dict by auto
    note de = denote_dict_keys [OF eq [unfolded dict] ok]
    have "canon_text (sort_keys (the (map_of d k))) = canon_text (sort_keys (the (map_of e k)))"
      if k: "k \<in> set (sort (map fst e))" for k
    proof -
      obtain w where w: "map_of e k = Some w"
        using k by (cases "map_of e k") (auto simp: map_of_eq_None_iff)
      with de(2) [of k] obtain v where v: "map_of d k = Some v" "denote v = denote w" by auto
      have "size v < size a"
        using dict json_size_dict [OF map_of_SomeD [OF v(1)]] by simp
      moreover have "canon_ok v" "canon_ok w"
        using less.prems dict map_of_SomeD [OF v(1)] map_of_SomeD [OF w] by (auto simp: list_all_iff)
      ultimately show ?thesis using less.IH v w by simp
    qed
    then show ?thesis
      by (simp add: dict sort_keys_dict ok de(1) comp_def cong: map_cong del: sort_keys.simps set_sort)
  qed simp
qed

lemma canonical_json_denote:
  assumes "canon_ok a" "canon_ok b"
  shows "canonical_json a = canonical_json b \<longleftrightarrow> denote a = denote b"
proof
  assume "canonical_json a = canonical_json b"
  then have "canon_text (sort_keys a) = canon_text (sort_keys b)"
    by (simp add: canonical_text assms)
  then have "map_atoms (read_canon literal_runtime) (sort_keys a) = map_atoms (read_canon literal_runtime) (sort_keys b)"
    using canon.decode_text [OF sort_keys_ok [OF assms(1)], of literal_runtime]
      canon.decode_text [OF sort_keys_ok [OF assms(2)], of literal_runtime] by simp
  then have "denote (sort_keys a) = denote (sort_keys b)"
    by (rule map_atoms_denote) (simp_all add: sort_keys_ok assms)
  then show "denote a = denote b" by (simp add: denote_sort_keys assms)
next
  assume "denote a = denote b"
  then have "canon_text (sort_keys a) = canon_text (sort_keys b)"
    by (rule denote_text) (rule assms)+
  then show "canonical_json a = canonical_json b" by (simp add: canonical_text assms)
qed

section \<open>The value of a decoded text\<close>

text \<open>
  The canonical text of a float writes the digits that \<^verbatim>\<open>repr\<close> writes in another notation;
  \<^verbatim>\<open>float\<close> reads a literal by its value, so it reads the float of a program back from it.
\<close>

definition reads_canonical :: "runtime \<Rightarrow> pyfloat \<Rightarrow> bool" where
  "reads_canonical rt f \<longleftrightarrow> (case es6_float f of Inl _ \<Rightarrow> True | Inr t \<Rightarrow> float_of rt t = f)"

lemma floats_sort_keys: "set (floats (sort_keys v)) = set (floats v)"
  by (induction v rule: sort_keys.induct) (auto simp: image_iff split_beta)

lemma read_canon_atom_same:
  assumes "is_atom a" "number_ok a" "list_all (reads_canonical rt) (floats a)"
  shows "denote (read_canon rt a) = denote a \<and> number_ok (read_canon rt a)"
proof (cases "number_value a")
  case None
  then show ?thesis using assms(2) by (simp add: read_canon_def)
next
  case (Some x)
  show ?thesis
  proof (cases x)
    case (Whole i)
    then show ?thesis using Some assms(1) by (cases a) (auto simp: read_canon_def)
  next
    case (Scaled neg ds n)
    then obtain f where f: "a = JFloat f" using Some by (cases a rule: number_value.cases) auto
    then have "es6_float f = Inr (es6_number_to_string neg ds n)"
      using canonical_number(1) [OF assms(2) Some] Scaled by simp
    then have "float_of rt (es6_number_to_string neg ds n) = f" using assms(3) f by (simp add: reads_canonical_def)
    then have "read_canon rt a = a" using Some Scaled f by (simp add: read_canon_def)
    then show ?thesis using assms(2) by simp
  qed
qed

lemma read_canon_same:
  assumes "canon_ok v" "list_all (reads_canonical rt) (floats v)"
  shows "denote (map_atoms (read_canon rt) v) = denote v \<and> canon_ok (map_atoms (read_canon rt) v)"
  using assms
proof (induction v rule: measure_induct_rule [of size])
  case (less v)
  consider (atom) "is_atom v" | (str) s where "v = JStr s" | (list) vs where "v = JList vs" | (dict) d where "v = JDict d"
    by (cases v) auto
  then show ?case
  proof cases
    case atom
    with read_canon_atom_same [of v rt] less.prems read_canon_atom [OF atom] show ?thesis
      by (simp add: map_atoms_atom printable_atom)
  next
    case list
    have "denote (map_atoms (read_canon rt) w) = denote w \<and> canon_ok (map_atoms (read_canon rt) w)" if "w \<in> set vs" for w
      using less.IH [OF json_size_list [OF that, folded list]] less.prems list that by (auto simp: list_all_iff)
    with list show ?thesis by (simp add: list_all_iff)
  next
    case dict
    have "denote (map_atoms (read_canon rt) w) = denote w \<and> canon_ok (map_atoms (read_canon rt) w)" if "(k, w) \<in> set d" for k w
      using less.IH [OF json_size_dict [OF that, folded dict]] less.prems dict that by (auto simp: list_all_iff)
    then have "map (\<lambda>(k, w). (k, denote w)) (map (\<lambda>(k, w). (k, map_atoms (read_canon rt) w)) d) = map (\<lambda>(k, w). (k, denote w)) d"
      "list_all (\<lambda>(k, w). canon_ok w) (map (\<lambda>(k, w). (k, map_atoms (read_canon rt) w)) d)"
      "list_all (\<lambda>kv. wf_str (fst kv)) (map (\<lambda>(k, w). (k, map_atoms (read_canon rt) w)) d)"
      using less.prems(1) dict by (auto simp: list_all_iff)
    with dict less.prems(1) show ?thesis by (simp del: map_map list.pred_map)
  qed (use less.prems in simp)
qed



end
