(* ===== verification/FloatRead.thy ===== *)
theory FloatRead
  imports JsonText
begin

text \<open>
  A reading of float literals that reads every float back, more than the round trips assume of
  Python's \<^verbatim>\<open>float\<close>, which is asked to do so for doubles only: it keeps the significant digits of the literal and the place
  of its point. \<open>decimal_runtime\<close> is a concrete choice of everything that comes from outside
  the sources; the theorems of the development hold for every choice.
\<close>

text \<open>\<open>0.ds \<times> 10^p\<close> without the zeros at both ends of its digits.\<close>

definition normal_digits :: "nat list \<Rightarrow> int \<Rightarrow> nat list \<times> int" where
  "normal_digits ds p =
     (let es = dropWhile (\<lambda>d. d = 0) ds in
      if es = [] then ([0], 1)
      else (rev (dropWhile (\<lambda>d. d = 0) (rev es)), p - int (length ds - length es)))"

definition exponent_value :: "pystr \<Rightarrow> int" where
  "exponent_value s =
     (case s of
        [] \<Rightarrow> 0
      | c # cs \<Rightarrow>
          (case int_digits 10 False 0 (if c = 43 \<or> c = 45 then cs else s) of
             None \<Rightarrow> 0
           | Some n \<Rightarrow> if c = 45 then - int n else int n))"

definition read_decimal :: "pystr \<Rightarrow> pyfloat" where
  "read_decimal s =
     (let neg = prefix (lit ''-'') s;
          (m, _, e) = py_partition 101 (if neg then drop 1 s else s);
          (i, _, f) = py_partition 46 m;
          (ds, k) = normal_digits (map (\<lambda>c. c - 48) (i @ f)) (int (length i) + exponent_value e)
      in Finite neg ds k)"

definition decimal_runtime :: runtime where
  "decimal_runtime = \<lparr>blake3 = \<lambda>bs. concat (map (\<lambda>b. [hex_digit (b div 16), hex_digit (b mod 16)]) bs),
     float_of = read_decimal,
     div_1000 = \<lambda>_. Inl OverflowError, times_1000 = \<lambda>_. Inl OverflowError,
     py_repr = json_dumps, exc_text = \<lambda>_. lit ''error'', netloc_ok = \<lambda>s. s = []\<rparr>"

section \<open>Reading a printed float\<close>

lemma normal_digits_padded:
  assumes "ds \<noteq> []" "hd ds \<noteq> 0" "last ds \<noteq> 0"
  shows "normal_digits (replicate a 0 @ ds @ replicate b 0) p = (ds, p - int a)"
proof -
  have "dropWhile (\<lambda>d. d = 0) (replicate a 0 @ ds @ replicate b 0) = ds @ replicate b 0"
    using assms(1,2) by (cases ds) (simp_all add: dropWhile_append)
  moreover have "dropWhile (\<lambda>d. d = 0) (replicate b 0 @ rev ds) = rev ds"
    using assms(1,3) by (cases "rev ds") (simp_all add: dropWhile_append hd_rev [symmetric])
  ultimately show ?thesis
    using assms(1) by (simp add: normal_digits_def Let_def rev_replicate)
qed

lemma normal_digits_zero: "normal_digits (replicate n 0) p = ([0], 1)"
  by (simp add: normal_digits_def)

lemma show_digits_values [simp]: "map (\<lambda>c. c - 48) (show_digits ds) = ds"
  by (simp add: show_digits_def o_def)

lemma show_digits_shape [simp]: "show_digits ds = [] \<longleftrightarrow> ds = []" "length (show_digits ds) = length ds"
  "c \<in> set (show_digits ds) \<Longrightarrow> 48 \<le> c"
  by (auto simp: show_digits_def)

lemma show_exp2_not_Nil [simp]: "show_exp2 e \<noteq> []"
  by (simp add: show_exp2_def)

lemma exponent_show: "exponent_value (show_exp2 e) = e"
proof -
  have z: "int_digits 10 False 0 (48 # show_nat n) = Some n" for n
    using int_digits_append_decimal [of "0 # dec_digits n" False 0 "[]"] int_digits_show_nat [of n]
      int_digits_append_decimal [of "dec_digits n" False 0 "[]"] dec_digits_less_10
    by (simp add: show_nat_def list_all_iff digit_val_def)
  show ?thesis
    by (simp add: exponent_value_def show_exp2_def lit_def z int_digits_show_nat del: int_digits.simps)
qed

definition literal_parts :: "nat list \<Rightarrow> int \<Rightarrow> pystr \<Rightarrow> pystr \<Rightarrow> pystr \<Rightarrow> bool" where
  "literal_parts ds k i f e \<longleftrightarrow>
     repr_digits ds k = i @ (if f = [] then [] else 46 # f) @ (if e = [] then [] else 101 # e) \<and>
     i \<noteq> [] \<and> (\<forall>c \<in> set i. 48 \<le> c) \<and> 101 \<notin> set (i @ f) \<and>
     normal_digits (map (\<lambda>c. c - 48) (i @ f)) (int (length i) + exponent_value e) = (ds, k)"

lemma read_digits:
  assumes "ds \<noteq> []" "list_all (\<lambda>d. d < 10) ds" "hd ds \<noteq> 0 \<and> last ds \<noteq> 0 \<or> ds = [0] \<and> k = 1"
  shows "\<exists>i f e. literal_parts ds k i f e"
proof -
  have dig: "46 \<notin> set (show_digits es)" "101 \<notin> set (show_digits es)" if "set es \<subseteq> set ds" for es
    using show_digits_chars [of es] that assms(2) by (fastforce simp: list_all_iff)+
  have pad: "normal_digits (replicate a 0 @ ds @ replicate b 0) p = (ds, p - int a)" if "ds \<noteq> [0]" for a b p
    using assms(1,3) that by (auto intro: normal_digits_padded)
  consider (zero) "ds = [0]" "k = 1" | (small) "ds \<noteq> [0]" "- 4 < k" "k \<le> 0"
    | (whole) "ds \<noteq> [0]" "0 < k" "k \<le> 16" "int (length ds) \<le> k"
    | (mid) "ds \<noteq> [0]" "0 < k" "k \<le> 16" "k < int (length ds)" | (exp) "ds \<noteq> [0]" "k \<le> - 4 \<or> 16 < k"
    using assms(3) by (cases "ds = [0]"; cases "k \<le> - 4"; cases "16 < k"; cases "k \<le> 0"; cases "int (length ds) \<le> k") auto
  then show ?thesis
  proof cases
    case zero
    then have "literal_parts ds k [48] [48] []"
      using normal_digits_zero [of 2]
      by (simp add: literal_parts_def repr_digits_def show_digits_def lit_def numeral_2_eq_2)
    then show ?thesis by blast
  next
    case small
    then have "literal_parts ds k [48] (replicate (nat (- k)) 48 @ show_digits ds) []"
      using assms(1) dig [of ds] pad [of "Suc (nat (- k))" 0 1]
      by (auto simp: literal_parts_def repr_digits_def lit_def exponent_value_def)
    then show ?thesis by blast
  next
    case whole
    then have "literal_parts ds k (show_digits ds @ replicate (nat k - length ds) 48) [48] []"
      using assms(1) dig [of ds] pad [of 0 "Suc (nat k - length ds)" k]
      by (auto simp: literal_parts_def repr_digits_def lit_def exponent_value_def replicate_append_same list_all_iff)
    then show ?thesis by blast
  next
    case mid
    then have "literal_parts ds k (show_digits (take (nat k) ds)) (show_digits (drop (nat k) ds)) []"
      using dig [OF set_take_subset] dig [OF set_drop_subset] pad [of 0 0 k]
      by (auto simp: literal_parts_def repr_digits_def lit_def exponent_value_def)
    then show ?thesis by blast
  next
    case exp
    have "min (length ds) 1 = 1" using assms(1) by (cases ds) auto
    with exp have "literal_parts ds k (show_digits (take 1 ds)) (show_digits (drop 1 ds)) (show_exp2 (k - 1))"
      using assms(1) dig [OF set_take_subset] dig [OF set_drop_subset] pad [of 0 0 k]
      by (auto simp: literal_parts_def repr_digits_def lit_def exponent_show le_Suc_eq simp del: One_nat_def)
    then show ?thesis by blast
  qed
qed

lemma decimal_double:
  assumes "wf_float f"
  shows "is_double decimal_runtime f"
  unfolding is_double_def
proof
  assume "float_is_finite f"
  then have f: "wf_float f" "float_is_finite f" using assms by simp_all
  then obtain neg ds k where Finite: "f = Finite neg ds k" by (cases f) auto
  have "ds \<noteq> []" "list_all (\<lambda>d. d < 10) ds" "hd ds \<noteq> 0 \<and> last ds \<noteq> 0 \<or> ds = [0] \<and> k = 1"
    using f(1) Finite by auto
  from read_digits [OF this] obtain i fr e where p: "literal_parts ds k i fr e" by blast
  then have i: "46 \<notin> set i" "i \<noteq> []" "hd i \<noteq> 45"
    by (cases i; auto simp: literal_parts_def list_all_iff)+
  then have sign: "\<not> prefix (lit ''-'') (repr_digits ds k)"
    using p by (cases i) (auto simp: literal_parts_def lit_def)
  have m: "py_partition 46 (i @ (if fr = [] then [] else 46 # fr)) = (i, (if fr = [] then [] else [46]), fr)"
    using i partition_at [of 46 i fr] partition_none [of 46 i] by (simp add: literal_parts_def)
  have b: "py_partition 101 (repr_digits ds k) =
      (i @ (if fr = [] then [] else 46 # fr), (if e = [] then [] else [101]), e)"
    using p partition_at [of 101 "i @ (if fr = [] then [] else 46 # fr)" e]
      partition_none [of 101 "i @ (if fr = [] then [] else 46 # fr)"] by (simp add: literal_parts_def)
  show "float_of decimal_runtime (float_repr f) = f"
    using p [unfolded literal_parts_def, THEN conjunct2, THEN conjunct2, THEN conjunct2, THEN conjunct2] sign
    by (simp add: decimal_runtime_def read_decimal_def Finite m b lit_def)
qed

lemma decimal_doubles: "wf_json v \<Longrightarrow> doubles decimal_runtime v"
  by (induction v rule: wf_json.induct) (auto simp: list_all_iff decimal_double)

end
