(* ===== verification/CallSignature.thy ===== *)
theory CallSignature
  imports CanonicalJson FloatRead
begin

text \<open>
  The call signature: its byte stream is an injective encoding of the session, the step, the
  tool name and the canonical arguments, and every failure is the exception the code raises.
\<close>

section \<open>Canonical text is ASCII\<close>

lemma escape_json_char_ascii: "x \<in> set (escape_json_char c) \<Longrightarrow> x < 128"
proof -
  have hex: "x \<in> set (hex4 n) \<Longrightarrow> x < 128" for n
    using hex4_chars [of x n] by auto
  assume "x \<in> set (escape_json_char c)"
  then show ?thesis
    by (auto simp: escape_json_char_def lit_def Let_def dest: hex split: if_splits)
qed

lemma number_text_ascii:
  assumes "number_proper n" "x \<in> set (number_text n)"
  shows "x < 128"
proof (cases n)
  case (Whole i)
  with assms show ?thesis by (auto dest: show_int_chars)
next
  case (Scaled neg ds k)
  with assms(1) have "nonzero_digits ds" "\<not> float_is_whole ds k" by (simp_all add: number_proper_def)
  from scaled_text [OF this, of neg] obtain i f e where
    "es6_number_to_string neg ds k = (if neg then [45] else []) @ i @ f @ e"
    "int_part i" "frac_part f" "exp_part e" by metis
  with Scaled assms(2) number_parts_ascii [of i f e x] show ?thesis
    by (auto split: if_splits)
qed

lemma canon_atom_ascii:
  assumes "is_atom v" "number_ok v" "x \<in> set (canon_atom v)"
  shows "x < 128"
proof (cases "number_value v")
  case None
  with number_value_atom [OF assms(1,2)] assms(3) show ?thesis
    by (auto simp: canon_atom_def lit_def)
next
  case (Some n)
  with assms number_text_ascii [OF number_value_proper] show ?thesis by (simp add: canon_atom_number)
qed

lemma canon_text_ascii: "canon_ok v \<Longrightarrow> \<forall>x \<in> set (canon_text v). x < 128"
  by (rule print_json_all [where ok = number_ok]) (auto intro: escape_json_char_ascii canon_atom_ascii)

lemma canonical_ascii: "canon_ok v \<Longrightarrow> canonical_json v = Inr t \<Longrightarrow> \<forall>x \<in> set t. x < 128"
  using canon_text_ascii [OF sort_keys_ok] canonical_text by simp

text \<open>
  C12. Canonical JSON is JSON: every value with well-formed strings and finite numbers has a
  canonical text, the text is plain ASCII, and decoding it gives a value that denotes the same
  and has the same canonical text. It is assumed that \<^verbatim>\<open>float\<close> reads each float of the value back
  from its canonical text.
\<close>

theorem canonical_json_decodes:
  assumes "canon_ok v" "list_all (reads_canonical rt) (floats v)"
  shows "\<exists>t v'. canonical_json v = Inr t \<and> (\<forall>x \<in> set t. x < 128) \<and>
    json_loads rt t = Inr v' \<and> denote v' = denote v \<and> canonical_json v' = Inr t"
proof -
  let ?v = "map_atoms (read_canon rt) (sort_keys v)"
  have "list_all (reads_canonical rt) (floats (sort_keys v))" using assms(2) floats_sort_keys [of v] by (simp add: list_all_iff)
  from read_canon_same [OF sort_keys_ok [OF assms(1)] this]
  have d: "denote ?v = denote v" "canon_ok ?v" by (simp_all add: denote_sort_keys [OF assms(1)])
  then have c: "canonical_json ?v = canonical_json v" using canonical_json_denote [OF d(2) assms(1)] by simp
  let ?t = "canon_text (sort_keys v)"
  have a: "\<forall>x \<in> set ?t. x < 128" by (rule canon_text_ascii [OF sort_keys_ok [OF assms(1)]])
  then have "\<not> prefix [0xFEFF] ?t" by (cases ?t) auto
  with canon.decode_text [OF sort_keys_ok [OF assms(1)], of rt] have "json_loads rt ?t = Inr ?v"
    by (simp add: json_loads_def)
  with a d(1) c canonical_text [OF assms(1)] show ?thesis by auto
qed

theorem canonical_json_decodes_witness:
  "\<exists>t v'. canonical_json (JDict [(lit ''z'', JFloat (Finite False [1, 5] (- 6))), (lit ''k'', JFloat (Finite True [3] 1))]) = Inr t \<and>
    json_loads decimal_runtime t = Inr v' \<and>
    denote v' = denote (JDict [(lit ''z'', JFloat (Finite False [1, 5] (- 6))), (lit ''k'', JFloat (Finite True [3] 1))])"
proof -
  let ?v = "JDict [(lit ''z'', JFloat (Finite False [1, 5] (- 6))), (lit ''k'', JFloat (Finite True [3] 1))]"
  have "canon_ok ?v" "list_all (reads_canonical decimal_runtime) (floats ?v)" by code_simp+
  from canonical_json_decodes [OF this] show ?thesis by blast
qed

section \<open>The byte stream\<close>

lemma le_bytes_length [simp]: "length (le_bytes k n) = k"
  by (induction k arbitrary: n) simp_all

lemma be_bytes_length [simp]: "length (be_bytes k n) = k"
  by (induction k arbitrary: n) simp_all

lemma le_bytes_inject: "m < 256 ^ k \<Longrightarrow> n < 256 ^ k \<Longrightarrow> le_bytes k m = le_bytes k n \<longleftrightarrow> m = n"
proof (induction k arbitrary: m n)
  case (Suc k)
  have "m div 256 < 256 ^ k" "n div 256 < 256 ^ k"
    using Suc.prems by (simp_all add: less_mult_imp_div_less mult.commute)
  with Suc.IH show ?case
    by (simp) (metis div_mult_mod_eq)
qed simp

lemma be_bytes_inject: "m < 256 ^ k \<Longrightarrow> n < 256 ^ k \<Longrightarrow> be_bytes k m = be_bytes k n \<longleftrightarrow> m = n"
proof (induction k arbitrary: m n)
  case (Suc k)
  have "m div 256 < 256 ^ k" "n div 256 < 256 ^ k"
    using Suc.prems by (simp_all add: less_mult_imp_div_less mult.commute)
  with Suc.IH show ?case
    by (simp) (metis div_mult_mod_eq)
qed simp

lemma pack_u32_length: "pack_u32 n = Inr b \<Longrightarrow> length b = 4"
  by (auto simp: pack_u32_def split: if_splits)

lemma pack_u32_inject: "pack_u32 m = Inr b \<Longrightarrow> pack_u32 n = Inr b \<Longrightarrow> m = n"
  using le_bytes_inject [of "nat m" 4 "nat n"]
  by (auto simp: pack_u32_def nat_less_iff eq_nat_nat_iff split: if_splits)

lemma uuid_int_bound: "uuid_int s = Some n \<Longrightarrow> n < 256 ^ 16"
  by (auto simp: uuid_int_def Let_def split: if_splits option.splits)

subsection \<open>UTF-8 is injective\<close>

lemma utf8_char_lead:
  "c < 0x80 \<and> utf8_char c = [c] \<or>
   0x80 \<le> c \<and> c < 0x800 \<and> (\<exists>l < 0x20. utf8_char c = [0xC0 + l, 0x80 + c mod 64] \<and> l = c div 64) \<or>
   0x800 \<le> c \<and> c < 0x10000 \<and> (\<exists>l < 0x10. \<exists>m. utf8_char c = [0xE0 + l, 0x80 + m, 0x80 + c mod 64] \<and>
     c div 64 = l * 64 + m) \<or>
   0x10000 \<le> c \<and> (\<exists>l m n. utf8_char c = [0xF0 + l, 0x80 + m, 0x80 + n, 0x80 + c mod 64] \<and>
     c div 64 = (l * 64 + m) * 64 + n)"
proof -
  have q3: "c div 64 = c div 4096 * 64 + c div 64 mod 64"
    using div_mult_mod_eq [of "c div 64" 64] by (simp add: div_mult2_eq [symmetric])
  have q4: "c div 4096 = c div 262144 * 64 + c div 4096 mod 64"
    using div_mult_mod_eq [of "c div 4096" 64] by (simp add: div_mult2_eq [symmetric])
  consider "c < 0x80" | "0x80 \<le> c" "c < 0x800" | "0x800 \<le> c" "c < 0x10000" | "0x10000 \<le> c"
    by linarith
  then show ?thesis
  proof cases
    case 3
    then have "utf8_char c = [0xE0 + c div 4096, 0x80 + c div 64 mod 64, 0x80 + c mod 64]"
      "c div 4096 < 0x10" by (auto simp: utf8_char_def)
    with 3 q3 show ?thesis by blast
  next
    case 4
    then have "utf8_char c = [0xF0 + c div 262144, 0x80 + c div 4096 mod 64, 0x80 + c div 64 mod 64,
        0x80 + c mod 64]"
      by (auto simp: utf8_char_def)
    moreover have "c div 64 = (c div 262144 * 64 + c div 4096 mod 64) * 64 + c div 64 mod 64"
      using q3 q4 by simp
    ultimately show ?thesis using 4 by blast
  qed (auto simp: utf8_char_def)
qed

lemma utf8_char_unique:
  assumes "utf8_char c @ x = utf8_char d @ y"
  shows "c = d \<and> x = y"
proof -
  have "c = c div 64 * 64 + c mod 64" "d = d div 64 * 64 + d mod 64" by simp_all
  then have eq: "c div 64 = d div 64 \<Longrightarrow> c mod 64 = d mod 64 \<Longrightarrow> c = d" by metis
  show ?thesis
    using utf8_char_lead [of c] utf8_char_lead [of d] assms
    by (elim disjE conjE exE) (auto intro: eq)
qed

lemma utf8_concat_inject:
  assumes "concat (map utf8_char s) = concat (map utf8_char t)"
  shows "s = t"
  using assms
proof (induction s arbitrary: t)
  case Nil
  then show ?case by (cases t) (auto simp: utf8_char_def split: if_splits)
next
  case (Cons c s)
  then obtain d t' where t: "t = d # t'" by (cases t) (auto simp: utf8_char_def split: if_splits)
  with Cons utf8_char_unique [of c "concat (map utf8_char s)" d "concat (map utf8_char t')"]
  show ?case by simp
qed

lemma utf8_encode_inject:
  "utf8_encode s = Inr b \<Longrightarrow> utf8_encode t = Inr b \<Longrightarrow> s = t"
  using utf8_concat_inject [of s t] by (auto simp: utf8_encode_def split: if_splits)

subsection \<open>What the stream determines\<close>

lemma signature_stream_Inr_iff:
  "signature_stream rt sid step name args = Inr x \<longleftrightarrow>
     (\<exists>u canon nb ab s nl al. uuid_int sid = Some u \<and> canonical_json args = Inr canon \<and>
        utf8_encode name = Inr nb \<and> utf8_encode canon = Inr ab \<and> pack_u32 step = Inr s \<and>
        pack_u32 (int (length nb)) = Inr nl \<and> pack_u32 (int (length ab)) = Inr al \<and>
        x = be_bytes 16 u @ s @ nl @ nb @ al @ ab)"
  by (auto simp: signature_stream_def rbind_eq_Inr_iff split: option.splits)

lemma signature_stream_inject:
  assumes "signature_stream rt sid step name args = Inr x"
    and "signature_stream rt' sid' step' name' args' = Inr x"
  shows "uuid_int sid = uuid_int sid' \<and> step = step' \<and> name = name' \<and>
    canonical_json args = canonical_json args'"
proof -
  obtain u canon nb ab s nl al where 1: "uuid_int sid = Some u" "canonical_json args = Inr canon"
      "utf8_encode name = Inr nb" "utf8_encode canon = Inr ab" "pack_u32 step = Inr s"
      "pack_u32 (int (length nb)) = Inr nl" "pack_u32 (int (length ab)) = Inr al"
      "x = be_bytes 16 u @ s @ nl @ nb @ al @ ab"
    using assms(1) unfolding signature_stream_Inr_iff by blast
  obtain u' canon' nb' ab' s' nl' al' where 2: "uuid_int sid' = Some u'" "canonical_json args' = Inr canon'"
      "utf8_encode name' = Inr nb'" "utf8_encode canon' = Inr ab'" "pack_u32 step' = Inr s'"
      "pack_u32 (int (length nb')) = Inr nl'" "pack_u32 (int (length ab')) = Inr al'"
      "x = be_bytes 16 u' @ s' @ nl' @ nb' @ al' @ ab'"
    using assms(2) unfolding signature_stream_Inr_iff by blast
  note len = 1(5-7) [THEN pack_u32_length] 2(5-7) [THEN pack_u32_length]
  have head: "be_bytes 16 u = be_bytes 16 u'" "s = s'" "nl = nl'" "nb @ al @ ab = nb' @ al' @ ab'"
    using 1(8) 2(8) len by (auto simp: append_eq_append_conv)
  have "length nb = length nb'"
    using pack_u32_inject [OF 1(6), of "int (length nb')"] 2(6) head(3) by simp
  with head(4) len have tail: "nb = nb'" "ab = ab'" by (auto simp: append_eq_append_conv)
  have "u = u'"
    using head(1) be_bytes_inject uuid_int_bound [OF 1(1)] uuid_int_bound [OF 2(1)] by blast
  moreover have "step = step'" using pack_u32_inject 1(5) 2(5) head(2) by blast
  moreover have "name = name'" using utf8_encode_inject 1(3) 2(3) tail(1) by blast
  moreover have "canon = canon'" using utf8_encode_inject 1(4) 2(4) tail(2) by blast
  ultimately show ?thesis using 1 2 by simp
qed

lemma signature_stream_same:
  assumes "uuid_int sid = uuid_int sid'" "step = step'" "name = name'"
    "canonical_json args = canonical_json args'" "signature_stream rt sid step name args = Inr x"
  shows "signature_stream rt' sid' step' name' args' = Inr x"
  using assms unfolding signature_stream_Inr_iff by auto



text \<open>Values of Python: well-formed floats, the infinities and NaN included, and distinct keys.\<close>

fun py_value :: "json \<Rightarrow> bool" where
  "py_value (JFloat f) = wf_float f"
| "py_value (JList vs) = list_all py_value vs"
| "py_value (JDict d) = (dict_keys_ok d \<and> list_all (\<lambda>(k, v). py_value v) d)"
| "py_value _ = True"

abbreviation not_a_number :: "pyfloat \<Rightarrow> py_exc" where
  "not_a_number f \<equiv> ValueError (lit ''Invalid JSON number: '' @ float_repr f)"

text \<open>Canonical JSON fails exactly on the values that hold a non-finite float, with the error of one of them.\<close>

definition canonical_outcome :: "json \<Rightarrow> bool" where
  "canonical_outcome v \<longleftrightarrow>
     (case canonical_json v of
        Inl e \<Rightarrow> \<exists>f \<in> set (floats v). \<not> float_is_finite f \<and> e = not_a_number f
      | Inr t \<Rightarrow> list_all float_is_finite (floats v) \<and> (\<forall>x \<in> set t. x < 128))"

lemma map_result_Inl: "map_result f xs = Inl e \<Longrightarrow> \<exists>x \<in> set xs. f x = Inl e"
  by (induction xs) (auto simp: rbind_def split: sum.splits)

lemma list_all2_partner:
  assumes "list_all2 P xs ys"
  shows "x \<in> set xs \<Longrightarrow> \<exists>y \<in> set ys. P x y" "y \<in> set ys \<Longrightarrow> \<exists>x \<in> set xs. P x y"
  using assms by (induction rule: list_all2_induct) auto

lemma canonical_list_outcome:
  assumes "\<And>v. v \<in> set vs \<Longrightarrow> canonical_outcome v"
  shows "canonical_outcome (JList vs)"
proof (cases "map_result canonical_json vs")
  case (Inl e)
  with map_result_Inl [OF this] assms show ?thesis by (fastforce simp: canonical_outcome_def)
next
  case (Inr ts)
  then have "list_all2 (\<lambda>v t. canonical_json v = Inr t) vs ts" by (simp add: map_result_Inr_iff)
  then have "\<forall>v \<in> set vs. list_all float_is_finite (floats v)" "\<forall>t \<in> set ts. \<forall>x \<in> set t. x < 128"
    using assms by (fastforce simp: canonical_outcome_def list_all2_conv_all_nth in_set_conv_nth)+
  moreover from this(2) have "\<forall>x \<in> set (py_join [44] ts). x < 128" by (intro py_join_all) auto
  ultimately show ?thesis using Inr by (auto simp: canonical_outcome_def list_all_iff lit_def)
qed

lemma canonical_dict_outcome:
  assumes "dict_keys_ok d" "\<And>k v. (k, v) \<in> set d \<Longrightarrow> canonical_outcome v"
  shows "canonical_outcome (JDict d)"
proof -
  let ?f = "\<lambda>k. case map_of d k of None \<Rightarrow> Inl KeyError
      | Some v \<Rightarrow> rbind (canonical_json v) (\<lambda>t. Inr (escape_json_string k, t))"
  have m: "map_of d k = Some v \<longleftrightarrow> (k, v) \<in> set d" for k v using assms(1) by (auto simp: dict_keys_ok_def)
  have f: "\<exists>v. (k, v) \<in> set d \<and> ?f k = rbind (canonical_json v) (\<lambda>t. Inr (escape_json_string k, t))" if "k \<in> fst ` set d" for k
    using that by (auto simp: m [symmetric])
  show ?thesis
  proof (cases "map_result ?f (sort (map fst d))")
    case (Inl e)
    from map_result_Inl [OF this] obtain k where k: "k \<in> fst ` set d" "?f k = Inl e" by auto
    from f [OF k(1)] obtain v where w: "(k, v) \<in> set d" "?f k = rbind (canonical_json v) (\<lambda>t. Inr (escape_json_string k, t))"
      by blast
    with k(2) have v: "(k, v) \<in> set d" "canonical_json v = Inl e" by (cases "canonical_json v"; simp)+
    with assms(2) [OF v(1)] Inl show ?thesis by (force simp: canonical_outcome_def)
  next
    case (Inr ps)
    then have l: "list_all2 (\<lambda>k p. ?f k = Inr p) (sort (map fst d)) ps" by (simp add: map_result_Inr_iff)
    have fin: "list_all float_is_finite (floats v)" if "(k, v) \<in> set d" for k v
    proof -
      have "k \<in> set (sort (map fst d))" using that by force
      from list_all2_partner(1) [OF l this] obtain p where "?f k = Inr p" by blast
      moreover have "map_of d k = Some v" using that by (simp add: m)
      ultimately show ?thesis using assms(2) [OF that] by (auto simp: canonical_outcome_def rbind_eq_Inr_iff)
    qed
    have "\<forall>c \<in> set x. c < 128" if "x \<in> set (map (\<lambda>(k, v). k @ 58 # v) ps)" for x
    proof -
      from that obtain p where p: "p \<in> set ps" "x = (\<lambda>(k, v). k @ 58 # v) p" by auto
      from list_all2_partner(2) [OF l p(1)] obtain k where k: "k \<in> fst ` set d" "?f k = Inr p" by auto
      from f [OF k(1)] obtain v where v: "(k, v) \<in> set d" "rbind (canonical_json v) (\<lambda>t. Inr (escape_json_string k, t)) = Inr p"
        unfolding k(2) by metis
      then obtain t where "canonical_json v = Inr t" "p = (escape_json_string k, t)" by (auto simp: rbind_eq_Inr_iff)
      with assms(2) [OF v(1)] show ?thesis
        using p(2) by (auto simp: canonical_outcome_def escape_json_string_def dest: escape_json_char_ascii)
    qed
    then have "\<forall>c \<in> set (py_join [44] (map (\<lambda>(k, v). k @ 58 # v) ps)). c < 128" by (intro py_join_all) auto
    with Inr fin show ?thesis by (auto simp: canonical_outcome_def list_all_iff lit_def)
  qed
qed

lemma canonical_result: "py_value v \<Longrightarrow> canonical_outcome v"
proof (induction v rule: measure_induct_rule [of size])
  case (less v)
  show ?case
  proof (cases v)
    case (JList vs)
    then show ?thesis
      using less.prems less.IH json_size_list [of _ vs] by (auto intro!: canonical_list_outcome simp: list_all_iff)
  next
    case (JDict d)
    then show ?thesis
      using less.prems less.IH json_size_dict [of _ _ d] by (auto intro!: canonical_dict_outcome simp: list_all_iff)
  next
    case (JFloat f)
    show ?thesis
    proof (cases "float_is_finite f")
      case True
      then have ok: "number_ok v" "is_atom v" using less.prems JFloat by simp_all
      then have "canonical_json v = Inr (canon_atom v)"
        using canonical_text [of v] JFloat by (simp add: print_atom)
      with canon_atom_ascii [OF ok(2,1)] True JFloat show ?thesis by (auto simp: canonical_outcome_def)
    next
      case False
      then show ?thesis using JFloat by (simp add: canonical_outcome_def es6_float_def)
    qed
  qed (auto simp: canonical_outcome_def lit_def escape_json_string_def dest: show_int_chars escape_json_char_ascii)
qed

text \<open>
  C14. The signature of a call fails exactly where the code raises: a session id that is no UUID
  gives \<^verbatim>\<open>ValueError\<close>; arguments that hold a non-finite number give the \<^verbatim>\<open>ValueError\<close> of one of
  them, and no other arguments fail; a surrogate in the tool name gives \<^verbatim>\<open>UnicodeEncodeError\<close>; and
  a step that is no unsigned 32-bit number, or a name or text of 4 GiB, gives \<^verbatim>\<open>struct.error\<close>, which
  is no \<^verbatim>\<open>ValueError\<close>. Every other call has the signature of its byte stream. It is only assumed
  that the arguments are a value of Python.
\<close>

theorem call_signature_result:
  assumes "py_value args"
  shows "call_signature rt sid step name args =
    (case uuid_int sid of
       None \<Rightarrow> Inl (ValueError (lit ''session_id must be a valid UUID string, got '' @ py_repr rt (JStr sid)))
     | Some u \<Rightarrow>
         (case canonical_json args of
            Inl e \<Rightarrow> Inl e
          | Inr t \<Rightarrow>
              if list_ex is_surrogate name then Inl UnicodeEncodeError
              else let nb = concat (map utf8_char name) in
                if step < 0 \<or> 2 ^ 32 \<le> step \<or> 2 ^ 32 \<le> length nb \<or> 2 ^ 32 \<le> length t then Inl StructError
                else Inr (blake3 rt (be_bytes 16 u @ le_bytes 4 (nat step) @
                  le_bytes 4 (length nb) @ nb @ le_bytes 4 (length t) @ t)))) \<and>
    (case canonical_json args of
       Inl e \<Rightarrow> \<exists>f \<in> set (floats args). \<not> float_is_finite f \<and> e = not_a_number f
     | Inr t \<Rightarrow> list_all float_is_finite (floats args))"
proof (cases "canonical_json args")
  case (Inl e)
  with canonical_result [OF assms] show ?thesis
    by (simp add: canonical_outcome_def call_signature_def signature_stream_def rbind_def split: option.split)
next
  case (Inr t)
  with canonical_result [OF assms] have t: "list_all float_is_finite (floats args)" "utf8_encode t = Inr t"
    by (simp_all add: canonical_outcome_def utf8_encode_ascii)
  then show ?thesis
    using Inr by (auto simp: call_signature_def signature_stream_def utf8_encode_def [of name] pack_u32_def Let_def
      split: option.splits)
qed

theorem call_signature_result_witness:
  "call_signature literal_runtime (lit ''00000000-0000-0000-0000-0000000000ab'') (2 ^ 32) (lit ''pay'') (JDict []) =
     Inl StructError \<and>
   call_signature literal_runtime (lit ''00000000-0000-0000-0000-0000000000ab'') 0 (lit ''pay'') (JList [JInt 1, JFloat NaN]) =
     Inl (not_a_number NaN)"
proof -
  let ?s = "lit ''00000000-0000-0000-0000-0000000000ab''"
  have u: "uuid_int ?s = Some 171" "\<not> list_ex is_surrogate (lit ''pay'')" by code_simp+
  have ok: "py_value (JDict [])" "py_value (JList [JInt 1, JFloat NaN])" by code_simp+
  have "canonical_json (JList [JInt 1, JFloat NaN]) = Inl (not_a_number NaN)" by code_simp
  with call_signature_result [OF ok(1), of literal_runtime ?s "2 ^ 32" "lit ''pay''"]
    call_signature_result [OF ok(2), of literal_runtime ?s 0 "lit ''pay''"] u
  show ?thesis by (auto simp: Let_def)
qed

end
