(* ===== verification/Journal.thy ===== *)
theory Journal
  imports JsonText "HOL-Library.Product_Lexorder"
begin

text \<open>
  The model of \<^verbatim>\<open>DevJournal\<close> in \<^verbatim>\<open>dev.py\<close>: the two SQLite tables as lists of rows in
  insertion order, and one definition per method. A method runs on its own connection in
  autocommit mode or in one immediate transaction, so it is one atomic step on the tables; a
  statement that raises leaves them as they were. The values of \<^verbatim>\<open>uuid.uuid4()\<close> and
  \<^verbatim>\<open>_utc_now()\<close> inside a method are arguments.
\<close>

section \<open>Time stamps\<close>

record datetime =
  year :: nat
  month :: nat
  day :: nat
  hour :: nat
  minute :: nat
  second :: nat
  microsecond :: nat

definition pad_nat :: "nat \<Rightarrow> nat \<Rightarrow> pystr" where
  "pad_nat w n = replicate (w - length (show_nat n)) 48 @ show_nat n"

definition utc_now :: "datetime \<Rightarrow> pystr" where
  "utc_now t =
     pad_nat 4 (year t) @ lit ''-'' @ pad_nat 2 (month t) @ lit ''-'' @ pad_nat 2 (day t) @ lit ''T'' @
     pad_nat 2 (hour t) @ lit '':'' @ pad_nat 2 (minute t) @ lit '':'' @ pad_nat 2 (second t) @
     lit ''.'' @ pad_nat 6 (microsecond t) @ lit ''Z''"

section \<open>Constants and rows\<close>

definition DEFAULT_APPROVAL_LIMIT :: int where
  "DEFAULT_APPROVAL_LIMIT = 100"

definition MAX_APPROVAL_LIMIT :: int where
  "MAX_APPROVAL_LIMIT = 500"

definition EFFECT_EXECUTING :: pystr where
  "EFFECT_EXECUTING = lit ''executing''"

definition EFFECT_AWAITING_APPROVAL :: pystr where
  "EFFECT_AWAITING_APPROVAL = lit ''awaiting_approval''"

definition EFFECT_COMMITTED :: pystr where
  "EFFECT_COMMITTED = lit ''committed''"

definition EFFECT_FAILED :: pystr where
  "EFFECT_FAILED = lit ''failed''"

definition EFFECT_REJECTED :: pystr where
  "EFFECT_REJECTED = lit ''rejected''"

definition LIVE_EFFECT_STATUSES :: "pystr list" where
  "LIVE_EFFECT_STATUSES = [EFFECT_EXECUTING, EFFECT_AWAITING_APPROVAL, EFFECT_COMMITTED]"

definition APPROVAL_PENDING :: pystr where
  "APPROVAL_PENDING = lit ''pending''"

definition APPROVAL_APPROVED :: pystr where
  "APPROVAL_APPROVED = lit ''approved''"

definition APPROVAL_REJECTED :: pystr where
  "APPROVAL_REJECTED = lit ''rejected''"

record effect_row =
  eff_id :: pystr
  eff_org :: pystr
  eff_session :: pystr
  eff_tool :: pystr
  eff_version :: pystr
  eff_tier :: pystr
  eff_step :: int
  eff_signature :: pystr
  eff_status :: pystr
  eff_args :: pystr
  eff_result :: "pystr option"
  eff_error :: "pystr option"
  eff_replays :: int
  eff_last_replayed :: "pystr option"
  eff_approval :: "pystr option"
  eff_created :: pystr
  eff_updated :: pystr

record approval_row =
  app_id :: pystr
  app_org :: pystr
  app_session :: pystr
  app_effect :: pystr
  app_tool :: pystr
  app_args :: pystr
  app_status :: pystr
  app_created :: pystr
  app_resolved :: "pystr option"

record journal =
  effects :: "effect_row list"
  approvals :: "approval_row list"

text \<open>A row as \<^verbatim>\<open>_effect_to_dict\<close> and \<^verbatim>\<open>_approval_to_dict\<close> return it, with decoded JSON.\<close>

record effect = effect_row +
  dec_args :: json
  dec_result :: "json option"

record approval = approval_row +
  dec_app_args :: json

definition is_live :: "effect_row \<Rightarrow> bool" where
  "is_live r \<longleftrightarrow> eff_status r \<in> set LIVE_EFFECT_STATUSES"

definition mock_tool_result :: "pystr \<Rightarrow> json \<Rightarrow> json" where
  "mock_tool_result tool_name args =
     JDict [(lit ''success'', JBool True),
       (lit ''output'', JDict [(lit ''mock'', JBool True), (lit ''tool_name'', JStr tool_name), (lit ''args'', args)]),
       (lit ''duration_ms'', JInt 0)]"

section \<open>Opening a journal\<close>

definition MEMORY_DB_PREFIX :: pystr where
  "MEMORY_DB_PREFIX = lit ''file:undolog-dev-memory-''"

text \<open>
  The object's own attributes: where its connections go, and whether the connection that
  anchors an in-memory database is open.
\<close>

record dev_journal =
  dj_path :: pystr
  dj_in_memory :: bool
  dj_dsn :: pystr
  dj_anchor :: bool

definition dev_journal_init :: "pystr \<Rightarrow> pystr \<Rightarrow> dev_journal" where
  "dev_journal_init db_path uuid_hex =
     (if db_path = lit '':memory:''
      then \<lparr>dj_path = db_path, dj_in_memory = True,
            dj_dsn = MEMORY_DB_PREFIX @ uuid_hex @ lit ''?mode=memory&cache=shared'', dj_anchor = True\<rparr>
      else \<lparr>dj_path = db_path, dj_in_memory = False, dj_dsn = db_path, dj_anchor = False\<rparr>)"

definition dev_journal_close :: "dev_journal \<Rightarrow> dev_journal" where
  "dev_journal_close d = (if dj_anchor d then d\<lparr>dj_anchor := False\<rparr> else d)"

text \<open>The target of a connection and whether it is opened as a URI.\<close>

definition dev_journal_connect :: "dev_journal \<Rightarrow> pystr \<times> bool" where
  "dev_journal_connect d = (dj_dsn d, dj_in_memory d)"

section \<open>The schema\<close>

definition effect_columns :: "pystr list" where
  "effect_columns = map lit
     [''id'', ''org_id'', ''session_id'', ''tool_name'', ''tool_version'', ''tier'', ''step_index'',
      ''signature'', ''status'', ''args'', ''result'', ''error'', ''replay_count'',
      ''last_replayed_at'', ''approval_id'', ''created_at'', ''updated_at'']"

text \<open>
  The columns of the \<^verbatim>\<open>effects\<close> table after \<^verbatim>\<open>_create_schema\<close>, from those it had
  (\<open>None\<close>: no table yet). \<^verbatim>\<open>ALTER TABLE\<close> appends a column.
\<close>

definition create_schema :: "pystr list option \<Rightarrow> pystr list" where
  "create_schema table =
     (let columns = (case table of None \<Rightarrow> effect_columns | Some cs \<Rightarrow> cs);
          add = (\<lambda>c cs. if columns \<noteq> [] \<and> lit c \<notin> set columns then cs @ [lit c] else cs)
      in add ''approval_id'' (add ''last_replayed_at'' (add ''replay_count''
           (add ''tier'' (add ''tool_version'' columns)))))"

text \<open>The two views, as the named columns of one row.\<close>

definition opt_json :: "pystr option \<Rightarrow> json" where
  "opt_json x = (case x of None \<Rightarrow> JNull | Some s \<Rightarrow> JStr s)"

definition undolog_effect_log :: "effect_row \<Rightarrow> json dict" where
  "undolog_effect_log r =
     [(lit ''effect_id'', JStr (eff_id r)), (lit ''org_id'', JStr (eff_org r)),
      (lit ''session_id'', JStr (eff_session r)), (lit ''tool_id'', JNull),
      (lit ''call_signature'', JStr (eff_signature r)), (lit ''tool_name'', JStr (eff_tool r)),
      (lit ''tool_version'', JStr (eff_version r)), (lit ''tier'', JStr (eff_tier r)),
      (lit ''step_index'', JInt (eff_step r)), (lit ''args_snapshot'', JStr (eff_args r)),
      (lit ''result_snapshot'', opt_json (eff_result r)), (lit ''state'', JStr (eff_status r)),
      (lit ''compensation_args'', JNull), (lit ''executed_at'', JStr (eff_created r)),
      (lit ''committed_at'', JStr (eff_updated r)), (lit ''compensated_at'', JNull),
      (lit ''replay_count'', JInt (eff_replays r)),
      (lit ''last_replayed_at'', opt_json (eff_last_replayed r)),
      (lit ''approval_request_id'', opt_json (eff_approval r))]"

definition undolog_approval_requests :: "approval_row \<Rightarrow> json dict" where
  "undolog_approval_requests r =
     [(lit ''approval_request_id'', JStr (app_id r)), (lit ''org_id'', JStr (app_org r)),
      (lit ''session_id'', JStr (app_session r)), (lit ''effect_id'', JStr (app_effect r)),
      (lit ''tool_name'', JStr (app_tool r)),
      (lit ''irreversibility_reason'', JStr (lit ''irreversible tool execution requires approval'')),
      (lit ''risk_tags'', JStr (lit ''[]'')), (lit ''estimated_impact'', JNull),
      (lit ''proposed_args'', JStr (app_args r)), (lit ''agent_context'', JStr (lit ''{}'')),
      (lit ''state'', JStr (app_status r)), (lit ''timeout_at'', JStr (app_created r)),
      (lit ''auto_approve_on_timeout'', JInt 0), (lit ''resolved_at'', opt_json (app_resolved r)),
      (lit ''resolved_by'', if app_status r = lit ''approved'' then JStr (lit ''user'') else JNull),
      (lit ''approved_args'', if app_status r = lit ''approved'' then JStr (app_args r) else JNull),
      (lit ''created_at'', JStr (app_created r))]"

section \<open>Statements\<close>

text \<open>
  Binding a parameter: text is encoded as UTF-8, an integer must fit in 64 bits.
\<close>

definition bind_text :: "pystr \<Rightarrow> py_exc + unit" where
  "bind_text s = (if list_ex is_surrogate s then Inl UnicodeEncodeError else Inr ())"

definition bind_opt :: "pystr option \<Rightarrow> py_exc + unit" where
  "bind_opt x = (case x of None \<Rightarrow> Inr () | Some s \<Rightarrow> bind_text s)"

definition bind_int :: "int \<Rightarrow> py_exc + unit" where
  "bind_int n = (if - (2 ^ 63) \<le> n \<and> n < 2 ^ 63 then Inr () else Inl OverflowError)"

text \<open>The uniqueness constraints of \<^verbatim>\<open>effects\<close> that a row would break against other rows.\<close>

definition effect_conflict :: "effect_row list \<Rightarrow> effect_row \<Rightarrow> bool" where
  "effect_conflict rs r \<longleftrightarrow>
     list_ex (\<lambda>r'. eff_id r' = eff_id r \<or>
       is_live r \<and> is_live r' \<and> eff_signature r' = eff_signature r) rs"

text \<open>\<^verbatim>\<open>INSERT OR IGNORE INTO effects\<close>, with the row count.\<close>

definition insert_effect :: "effect_row \<Rightarrow> journal \<Rightarrow> nat \<times> journal" where
  "insert_effect r j =
     (if effect_conflict (effects j) r then (0, j) else (1, j\<lparr>effects := effects j @ [r]\<rparr>))"

definition insert_approval :: "approval_row \<Rightarrow> journal \<Rightarrow> py_exc + journal" where
  "insert_approval a j =
     (if list_ex (\<lambda>a'. app_id a' = app_id a) (approvals j) then Inl IntegrityError
      else Inr (j\<lparr>approvals := approvals j @ [a]\<rparr>))"

text \<open>
  \<^verbatim>\<open>UPDATE effects SET ... WHERE id = ?\<close>: the rows are rewritten one by one, and one that
  breaks a constraint undoes the statement.
\<close>

fun update_effects ::
  "pystr \<Rightarrow> (effect_row \<Rightarrow> effect_row) \<Rightarrow> effect_row list \<Rightarrow> effect_row list \<Rightarrow>
   py_exc + (nat \<times> effect_row list)" where
  "update_effects i f before [] = Inr (0, before)"
| "update_effects i f before (r # rs) =
     (if eff_id r = i then
        if effect_conflict (before @ rs) (f r) then Inl IntegrityError
        else rbind (update_effects i f (before @ [f r]) rs) (\<lambda>(n, rs'). Inr (Suc n, rs'))
      else update_effects i f (before @ [r]) rs)"

section \<open>Methods\<close>

definition resolved_tier :: "pystr option \<Rightarrow> pystr \<Rightarrow> pystr" where
  "resolved_tier tier status =
     (case tier of
        Some (c # cs) \<Rightarrow> c # cs
      | _ \<Rightarrow> if status = EFFECT_AWAITING_APPROVAL then lit ''irreversible'' else lit ''compensable'')"

definition new_effect_row ::
  "pystr \<Rightarrow> pystr \<Rightarrow> pystr \<Rightarrow> pystr \<Rightarrow> pystr \<Rightarrow> int \<Rightarrow> json \<Rightarrow> pystr \<Rightarrow> pystr \<Rightarrow> pystr option \<Rightarrow> pystr \<Rightarrow>
   pystr option \<Rightarrow> effect_row" where
  "new_effect_row effect_id created_at org session tool step args signature status approval_id version tier =
     \<lparr>eff_id = effect_id, eff_org = org, eff_session = session, eff_tool = tool, eff_version = version,
      eff_tier = resolved_tier tier status, eff_step = step, eff_signature = signature,
      eff_status = status, eff_args = json_dumps args, eff_result = None, eff_error = None,
      eff_replays = 0, eff_last_replayed = None, eff_approval = approval_id, eff_created = created_at,
      eff_updated = created_at\<rparr>"

definition new_approval_row :: "pystr \<Rightarrow> pystr \<Rightarrow> pystr \<Rightarrow> pystr \<Rightarrow> pystr \<Rightarrow> json \<Rightarrow> pystr \<Rightarrow> approval_row" where
  "new_approval_row approval_id created_at org session tool args effect_id =
     \<lparr>app_id = approval_id, app_org = org, app_session = session, app_effect = effect_id,
      app_tool = tool, app_args = json_dumps args, app_status = APPROVAL_PENDING,
      app_created = created_at, app_resolved = None\<rparr>"

definition create_effect ::
  "pystr \<Rightarrow> pystr \<Rightarrow> pystr \<Rightarrow> pystr \<Rightarrow> pystr \<Rightarrow> int \<Rightarrow> json \<Rightarrow> pystr \<Rightarrow> pystr \<Rightarrow> pystr option \<Rightarrow> pystr \<Rightarrow>
   pystr option \<Rightarrow> journal \<Rightarrow> py_exc + (pystr option \<times> journal)" where
  "create_effect effect_id created_at org session tool step args signature status approval_id
     version tier j =
     rbind (map_result bind_text [effect_id, org, session, tool, version, resolved_tier tier status]) (\<lambda>_.
     rbind (bind_int step) (\<lambda>_.
     rbind (map_result bind_text [signature, status, json_dumps args]) (\<lambda>_.
     rbind (bind_opt approval_id) (\<lambda>_.
     let (rowcount, j') = insert_effect (new_effect_row effect_id created_at org session tool step args
           signature status approval_id version tier) j in
     if rowcount = 0 then Inr (None, j)
     else
       rbind (case approval_id of
                None \<Rightarrow> Inr j'
              | Some a \<Rightarrow> insert_approval
                  (new_approval_row a created_at org session tool args effect_id) j')
         (\<lambda>j''. Inr (Some effect_id, j''))))))"

definition effect_to_dict :: "runtime \<Rightarrow> effect_row \<Rightarrow> py_exc + effect" where
  "effect_to_dict rt r =
     rbind (json_loads rt (eff_args r)) (\<lambda>a.
     rbind (case eff_result r of
              None \<Rightarrow> Inr None
            | Some t \<Rightarrow> rbind (json_loads rt t) (\<lambda>v. Inr (Some v))) (\<lambda>v.
       Inr (effect_row.extend r \<lparr>dec_args = a, dec_result = v\<rparr>)))"

definition approval_to_dict :: "runtime \<Rightarrow> approval_row \<Rightarrow> py_exc + approval" where
  "approval_to_dict rt r =
     rbind (json_loads rt (app_args r)) (\<lambda>a. Inr (approval_row.extend r \<lparr>dec_app_args = a\<rparr>))"

definition find_live_effect :: "runtime \<Rightarrow> pystr \<Rightarrow> journal \<Rightarrow> py_exc + effect option" where
  "find_live_effect rt signature j =
     rbind (bind_text signature) (\<lambda>_. case List.find (\<lambda>r. eff_signature r = signature \<and> is_live r) (effects j) of
        None \<Rightarrow> Inr None
      | Some r \<Rightarrow> rbind (effect_to_dict rt r) (\<lambda>e. Inr (Some e)))"

definition update_effect ::
  "pystr \<Rightarrow> pystr \<Rightarrow> pystr \<Rightarrow> pystr option \<Rightarrow> pystr option \<Rightarrow> journal \<Rightarrow> py_exc + (bool \<times> journal)" where
  "update_effect now effect_id status result error j =
     rbind (bind_text status) (\<lambda>_. rbind (bind_opt result) (\<lambda>_. rbind (bind_opt error) (\<lambda>_.
     rbind (bind_text effect_id) (\<lambda>_.
     rbind (update_effects effect_id
              (\<lambda>r. r\<lparr>eff_status := status, eff_result := result, eff_error := error,
                     eff_updated := now\<rparr>) [] (effects j))
       (\<lambda>(rowcount, rs). Inr (rowcount > 0, j\<lparr>effects := rs\<rparr>))))))"

definition record_commit :: "pystr \<Rightarrow> pystr \<Rightarrow> json \<Rightarrow> journal \<Rightarrow> py_exc + (bool \<times> journal)" where
  "record_commit now effect_id result j =
     update_effect now effect_id EFFECT_COMMITTED (Some (json_dumps result)) None j"

definition record_replay :: "pystr \<Rightarrow> pystr \<Rightarrow> journal \<Rightarrow> py_exc + (bool \<times> journal)" where
  "record_replay now effect_id j =
     rbind (bind_text effect_id) (\<lambda>_.
     rbind (update_effects effect_id
              (\<lambda>r. r\<lparr>eff_replays := eff_replays r + 1, eff_last_replayed := Some now,
                     eff_updated := now\<rparr>) [] (effects j))
       (\<lambda>(rowcount, rs). Inr (rowcount > 0, j\<lparr>effects := rs\<rparr>)))"

definition record_fail :: "pystr \<Rightarrow> pystr \<Rightarrow> pystr \<Rightarrow> journal \<Rightarrow> py_exc + (bool \<times> journal)" where
  "record_fail now effect_id error j = update_effect now effect_id EFFECT_FAILED None (Some error) j"

definition mark_rejected :: "pystr \<Rightarrow> pystr \<Rightarrow> journal \<Rightarrow> py_exc + (bool \<times> journal)" where
  "mark_rejected now effect_id j = update_effect now effect_id EFFECT_REJECTED None None j"

definition find_pending_approval :: "runtime \<Rightarrow> pystr \<Rightarrow> journal \<Rightarrow> py_exc + approval option" where
  "find_pending_approval rt effect_id j =
     rbind (bind_text effect_id) (\<lambda>_.
     case rev (sort_key app_created
            (filter (\<lambda>a. app_effect a = effect_id \<and> app_status a = APPROVAL_PENDING) (approvals j))) of
       [] \<Rightarrow> Inr None
     | a # _ \<Rightarrow> rbind (approval_to_dict rt a) (\<lambda>d. Inr (Some d)))"

definition get_approval :: "runtime \<Rightarrow> pystr \<Rightarrow> journal \<Rightarrow> py_exc + approval option" where
  "get_approval rt approval_id j =
     rbind (bind_text approval_id) (\<lambda>_.
     case List.find (\<lambda>a. app_id a = approval_id) (approvals j) of
       None \<Rightarrow> Inr None
     | Some a \<Rightarrow> rbind (approval_to_dict rt a) (\<lambda>d. Inr (Some d)))"

definition resolve_approval ::
  "pystr \<Rightarrow> pystr \<Rightarrow> pystr \<Rightarrow> journal \<Rightarrow> py_exc + (bool \<times> journal)" where
  "resolve_approval now approval_id status j =
     rbind (bind_text status) (\<lambda>_. rbind (bind_text approval_id) (\<lambda>_.
     let hit = (\<lambda>a. app_id a = approval_id \<and> app_status a = APPROVAL_PENDING) in
     Inr (list_ex hit (approvals j),
          j\<lparr>approvals := map (\<lambda>a. if hit a then a\<lparr>app_status := status, app_resolved := Some now\<rparr> else a)
              (approvals j)\<rparr>)))"

definition list_approvals :: "runtime \<Rightarrow> pystr \<Rightarrow> int \<Rightarrow> journal \<Rightarrow> py_exc + approval list" where
  "list_approvals rt state limit j =
     (let limit = (if limit < 1 then DEFAULT_APPROVAL_LIMIT else limit);
          clamped = min limit MAX_APPROVAL_LIMIT
      in rbind (if state = lit ''all'' then Inr (approvals j)
                else rbind (bind_text state) (\<lambda>_. Inr (filter (\<lambda>a. app_status a = state) (approvals j))))
         (\<lambda>rows. map_result (approval_to_dict rt)
            (take (nat clamped) (rev (sort_key (\<lambda>a. (app_created a, app_id a)) rows)))))"

end
