(* ===== verification/JournalInv.thy ===== *)
theory JournalInv
  imports Journal
begin

text \<open>
  The invariant of the journal and the gate it gives. \<open>journal_step\<close> is the relation of
  the atomic state-changing method calls, whoever makes them and in whatever order; every
  interleaving of request handlers is a path of it.
\<close>

section \<open>Facts about the statements\<close>

lemmas status_defs = EFFECT_EXECUTING_def EFFECT_AWAITING_APPROVAL_def EFFECT_COMMITTED_def
  EFFECT_FAILED_def EFFECT_REJECTED_def

lemma is_live_iff:
  "is_live r \<longleftrightarrow> eff_status r = EFFECT_EXECUTING \<or> eff_status r = EFFECT_AWAITING_APPROVAL \<or>
     eff_status r = EFFECT_COMMITTED"
  by (auto simp: is_live_def LIVE_EFFECT_STATUSES_def)

lemma status_distinct [simp]:
  "EFFECT_EXECUTING \<noteq> EFFECT_AWAITING_APPROVAL" "EFFECT_EXECUTING \<noteq> EFFECT_COMMITTED"
  "EFFECT_EXECUTING \<noteq> EFFECT_FAILED" "EFFECT_EXECUTING \<noteq> EFFECT_REJECTED"
  "EFFECT_AWAITING_APPROVAL \<noteq> EFFECT_EXECUTING" "EFFECT_AWAITING_APPROVAL \<noteq> EFFECT_COMMITTED"
  "EFFECT_AWAITING_APPROVAL \<noteq> EFFECT_FAILED" "EFFECT_AWAITING_APPROVAL \<noteq> EFFECT_REJECTED"
  "EFFECT_COMMITTED \<noteq> EFFECT_EXECUTING" "EFFECT_COMMITTED \<noteq> EFFECT_AWAITING_APPROVAL"
  "EFFECT_COMMITTED \<noteq> EFFECT_FAILED" "EFFECT_COMMITTED \<noteq> EFFECT_REJECTED"
  "EFFECT_FAILED \<noteq> EFFECT_EXECUTING" "EFFECT_FAILED \<noteq> EFFECT_AWAITING_APPROVAL"
  "EFFECT_FAILED \<noteq> EFFECT_COMMITTED" "EFFECT_REJECTED \<noteq> EFFECT_EXECUTING"
  "EFFECT_REJECTED \<noteq> EFFECT_AWAITING_APPROVAL" "EFFECT_REJECTED \<noteq> EFFECT_COMMITTED"
  by (simp_all add: status_defs)

lemma update_effects_result:
  assumes "distinct (map eff_id (before @ rs))" "\<And>r. eff_id (f r) = eff_id r"
  shows "update_effects i f before rs =
    (case List.find (\<lambda>r. eff_id r = i) rs of
       None \<Rightarrow> Inr (0, before @ rs)
     | Some r \<Rightarrow>
         if effect_conflict (filter (\<lambda>x. eff_id x \<noteq> i) (before @ rs)) (f r) then Inl IntegrityError
         else Inr (1, before @ map (\<lambda>x. if eff_id x = i then f x else x) rs))"
  using assms
proof (induction rs arbitrary: before)
  case (Cons r rs)
  show ?case
  proof (cases "eff_id r = i")
    case True
    with Cons.prems have no: "\<forall>x \<in> set before. eff_id x \<noteq> i" "\<forall>x \<in> set rs. eff_id x \<noteq> i"
      by (force simp: image_iff)+
    then have f: "filter (\<lambda>x. eff_id x \<noteq> i) (before @ r # rs) = before @ rs"
      using True by (simp add: filter_id_conv)
    have "List.find (\<lambda>r. eff_id r = i) rs = None" using no(2) by (auto simp: find_None_iff)
    moreover have "map (\<lambda>x. if eff_id x = i then f x else x) rs = rs"
      using no(2) by (intro map_idI) auto
    moreover have "update_effects i f (before @ [f r]) rs = Inr (0, before @ f r # rs)"
      using Cons.IH [of "before @ [f r]"] Cons.prems \<open>List.find (\<lambda>r. eff_id r = i) rs = None\<close> by simp
    ultimately show ?thesis using True unfolding f by simp
  next
    case False
    with Cons.IH [of "before @ [r]"] Cons.prems show ?thesis
      by (simp split: option.splits)
  qed
qed simp

section \<open>The invariant\<close>

definition live_row :: "journal \<Rightarrow> pystr \<Rightarrow> effect_row option" where
  "live_row j signature = List.find (\<lambda>r. eff_signature r = signature \<and> is_live r) (effects j)"

definition row_of :: "journal \<Rightarrow> pystr \<Rightarrow> effect_row option" where
  "row_of j i = List.find (\<lambda>r. eff_id r = i) (effects j)"

text \<open>
  Identifiers are unique, a signature has at most one live effect, every approval belongs to
  the one effect that names it, and every held effect has its approval.
\<close>

definition unique_ids :: "journal \<Rightarrow> bool" where
  "unique_ids j \<longleftrightarrow> distinct (map eff_id (effects j)) \<and> distinct (map app_id (approvals j)) \<and>
     distinct (map app_effect (approvals j))"

definition unique_live :: "effect_row list \<Rightarrow> bool" where
  "unique_live rs \<longleftrightarrow> (\<forall>r \<in> set rs. \<forall>r' \<in> set rs. is_live r \<longrightarrow> is_live r' \<longrightarrow>
     eff_signature r = eff_signature r' \<longrightarrow> eff_id r = eff_id r')"

definition has_effect :: "effect_row list \<Rightarrow> approval_row \<Rightarrow> bool" where
  "has_effect rs a \<longleftrightarrow> (\<exists>r \<in> set rs. eff_id r = app_effect a \<and> eff_approval r = Some (app_id a))"

definition has_approval :: "approval_row list \<Rightarrow> effect_row \<Rightarrow> bool" where
  "has_approval as r \<longleftrightarrow> (eff_status r = EFFECT_AWAITING_APPROVAL \<longrightarrow>
     (\<exists>a \<in> set as. app_effect a = eff_id r \<and> eff_approval r = Some (app_id a)))"

definition stamped :: "approval_row \<Rightarrow> bool" where
  "stamped a \<longleftrightarrow> (app_status a = APPROVAL_PENDING \<longleftrightarrow> app_resolved a = None)"

definition journal_ok :: "journal \<Rightarrow> bool" where
  "journal_ok j \<longleftrightarrow> unique_ids j \<and> unique_live (effects j) \<and>
     list_all (has_effect (effects j)) (approvals j) \<and>
     list_all (has_approval (approvals j)) (effects j) \<and> list_all stamped (approvals j)"

lemma journal_okD:
  assumes "journal_ok j"
  shows "distinct (map eff_id (effects j))" "distinct (map app_id (approvals j))"
    "distinct (map app_effect (approvals j))"
    "r \<in> set (effects j) \<Longrightarrow> r' \<in> set (effects j) \<Longrightarrow> is_live r \<Longrightarrow> is_live r' \<Longrightarrow>
       eff_signature r = eff_signature r' \<Longrightarrow> r = r'"
    "a \<in> set (approvals j) \<Longrightarrow> \<exists>r \<in> set (effects j). eff_id r = app_effect a \<and> eff_approval r = Some (app_id a)"
    "r \<in> set (effects j) \<Longrightarrow> eff_status r = EFFECT_AWAITING_APPROVAL \<Longrightarrow>
       \<exists>a \<in> set (approvals j). app_effect a = eff_id r \<and> eff_approval r = Some (app_id a)"
    "a \<in> set (approvals j) \<Longrightarrow> stamped a"
proof -
  show d: "distinct (map eff_id (effects j))" "distinct (map app_id (approvals j))"
    "distinct (map app_effect (approvals j))"
    using assms by (simp_all add: journal_ok_def unique_ids_def)
  assume r: "r \<in> set (effects j)" "r' \<in> set (effects j)"
  assume "is_live r" "is_live r'" "eff_signature r = eff_signature r'"
  then have "eff_id r = eff_id r'"
    using r assms unfolding journal_ok_def unique_live_def by blast
  with d(1) r show "r = r'" by (auto simp: distinct_map dest: inj_onD)
qed (use assms in \<open>unfold journal_ok_def list_all_iff has_effect_def has_approval_def, blast+\<close>)

lemma has_effect_map:
  assumes "has_effect rs a" "\<And>r. eff_id (g r) = eff_id r" "\<And>r. eff_approval (g r) = eff_approval r"
  shows "has_effect (map g rs) a"
proof -
  from assms(1) obtain r where "r \<in> set rs" "eff_id r = app_effect a" "eff_approval r = Some (app_id a)"
    unfolding has_effect_def by blast
  then have "g r \<in> set (map g rs)" "eff_id (g r) = app_effect a" "eff_approval (g r) = Some (app_id a)"
    by (simp_all add: assms(2,3))
  then show ?thesis unfolding has_effect_def by blast
qed

lemma has_approval_map:
  assumes "has_approval as r" "\<And>a. app_id (g a) = app_id a" "\<And>a. app_effect (g a) = app_effect a"
  shows "has_approval (map g as) r"
  unfolding has_approval_def
proof
  assume "eff_status r = EFFECT_AWAITING_APPROVAL"
  with assms(1) obtain a where "a \<in> set as" "app_effect a = eff_id r" "eff_approval r = Some (app_id a)"
    unfolding has_approval_def by blast
  then have "g a \<in> set (map g as)" "app_effect (g a) = eff_id r" "eff_approval r = Some (app_id (g a))"
    by (simp_all add: assms(2,3))
  then show "\<exists>a \<in> set (map g as). app_effect a = eff_id r \<and> eff_approval r = Some (app_id a)" by blast
qed

lemma has_approval_row:
  assumes "has_approval as r" "eff_id r' = eff_id r" "eff_approval r' = eff_approval r"
    "eff_status r' = EFFECT_AWAITING_APPROVAL \<Longrightarrow> eff_status r = EFFECT_AWAITING_APPROVAL"
  shows "has_approval as r'"
  using assms(1,4) unfolding has_approval_def assms(2,3) by blast

lemma has_effect_mono: "has_effect rs a \<Longrightarrow> set rs \<subseteq> set rs' \<Longrightarrow> has_effect rs' a"
  unfolding has_effect_def by blast

lemma has_approval_mono: "has_approval as r \<Longrightarrow> set as \<subseteq> set as' \<Longrightarrow> has_approval as' r"
  unfolding has_approval_def by blast

lemma has_effect_same: "has_effect rs a \<Longrightarrow> app_id a' = app_id a \<Longrightarrow> app_effect a' = app_effect a \<Longrightarrow> has_effect rs a'"
  by (simp add: has_effect_def)

definition empty_journal :: journal where
  "empty_journal = \<lparr>effects = [], approvals = []\<rparr>"

text \<open>The state-changing calls, as the events they stand for.\<close>

datatype journal_event =
    Created pystr pystr
  | Refused pystr
  | Commit pystr json bool
  | Fail pystr pystr bool
  | Reject pystr bool
  | Replay pystr bool
  | Resolve pystr pystr bool

inductive journal_step :: "journal \<Rightarrow> journal_event \<Rightarrow> journal \<Rightarrow> bool" where
  create: "create_effect i now org ses tool step args sg st aid ver tier j = Inr (Some i', j') \<Longrightarrow>
    st = EFFECT_EXECUTING \<or> st = EFFECT_AWAITING_APPROVAL \<and> aid \<noteq> None \<Longrightarrow>
    journal_step j (Created sg i') j'"
| refuse: "create_effect i now org ses tool step args sg st aid ver tier j = Inr (None, j') \<Longrightarrow>
    journal_step j (Refused sg) j'"
| commit: "record_commit now i v j = Inr (b, j') \<Longrightarrow> journal_step j (Commit i v b) j'"
| fail: "record_fail now i e j = Inr (b, j') \<Longrightarrow> journal_step j (Fail i e b) j'"
| reject: "mark_rejected now i j = Inr (b, j') \<Longrightarrow> journal_step j (Reject i b) j'"
| replay: "record_replay now i j = Inr (b, j') \<Longrightarrow> journal_step j (Replay i b) j'"
| resolve: "resolve_approval now a st j = Inr (b, j') \<Longrightarrow> st \<noteq> APPROVAL_PENDING \<Longrightarrow>
    journal_step j (Resolve a st b) j'"

inductive_cases journal_stepE: "journal_step j ev j'"

inductive_simps journal_step_simps:
  "journal_step j (Created sg i) j'" "journal_step j (Refused sg) j'" "journal_step j (Commit i v b) j'"
  "journal_step j (Fail i e b) j'" "journal_step j (Reject i b) j'" "journal_step j (Replay i b) j'"
  "journal_step j (Resolve a st b) j'"

lemma new_effect_row_simps [simp]:
  "eff_id (new_effect_row i now org ses tool step args sg st aid ver tier) = i"
  "eff_signature (new_effect_row i now org ses tool step args sg st aid ver tier) = sg"
  "eff_status (new_effect_row i now org ses tool step args sg st aid ver tier) = st"
  "eff_approval (new_effect_row i now org ses tool step args sg st aid ver tier) = aid"
  "eff_result (new_effect_row i now org ses tool step args sg st aid ver tier) = None"
  "eff_args (new_effect_row i now org ses tool step args sg st aid ver tier) = json_dumps args"
  by (simp_all add: new_effect_row_def)

lemma new_approval_row_simps [simp]:
  "app_id (new_approval_row a now org ses tool args i) = a"
  "app_effect (new_approval_row a now org ses tool args i) = i"
  "app_status (new_approval_row a now org ses tool args i) = APPROVAL_PENDING"
  "app_resolved (new_approval_row a now org ses tool args i) = None"
  "app_args (new_approval_row a now org ses tool args i) = json_dumps args"
  by (simp_all add: new_approval_row_def)

lemma create_effect_Inr:
  assumes "create_effect i now org ses tool step args sg st aid ver tier j = Inr (x, j')"
  shows "(if effect_conflict (effects j) (new_effect_row i now org ses tool step args sg st aid ver tier)
     then x = None \<and> j' = j
     else x = Some i \<and>
       j' = \<lparr>effects = effects j @ [new_effect_row i now org ses tool step args sg st aid ver tier],
             approvals = approvals j @ (case aid of None \<Rightarrow> [] | Some a \<Rightarrow> [new_approval_row a now org ses tool args i])\<rparr> \<and>
       (\<forall>a. aid = Some a \<longrightarrow> a \<notin> app_id ` set (approvals j)))"
  using assms
  by (cases aid)
    (auto simp: create_effect_def rbind_eq_Inr_iff insert_effect_def insert_approval_def list_ex_iff image_iff
      split: if_splits)

lemma conflict_iff:
  "effect_conflict rs r \<longleftrightarrow> (\<exists>r' \<in> set rs. eff_id r' = eff_id r \<or>
     is_live r \<and> is_live r' \<and> eff_signature r' = eff_signature r)"
  by (simp add: effect_conflict_def list_ex_iff)

lemma unique_live_snoc:
  assumes "unique_live rs" "\<not> effect_conflict rs r"
  shows "unique_live (rs @ [r])"
proof -
  have new: "\<not> (is_live r \<and> is_live x \<and> eff_signature x = eff_signature r)" if "x \<in> set rs" for x
    using assms(2) that unfolding conflict_iff by blast
  show ?thesis
    unfolding unique_live_def
  proof (intro ballI impI)
    fix x y
    assume x: "x \<in> set (rs @ [r])" and y: "y \<in> set (rs @ [r])"
      and l: "is_live x" "is_live y" "eff_signature x = eff_signature y"
    from x y consider "x \<in> set rs" "y \<in> set rs" | "x = r" "y = r" | "x \<in> set rs" "y = r" | "x = r" "y \<in> set rs"
      by auto
    then show "eff_id x = eff_id y"
    proof cases
      case 1
      with l assms(1) show ?thesis unfolding unique_live_def by blast
    next
      case 3
      with l new [of x] show ?thesis by simp
    next
      case 4
      with l new [of y] show ?thesis by simp
    qed simp
  qed
qed

text \<open>How a method changes one row: identity, signature and approval link are never touched.\<close>

definition keeps_identity :: "(effect_row \<Rightarrow> effect_row) \<Rightarrow> bool" where
  "keeps_identity f \<longleftrightarrow> (\<forall>r. eff_id (f r) = eff_id r \<and> eff_signature (f r) = eff_signature r \<and>
     eff_approval (f r) = eff_approval r \<and> (eff_status (f r) = EFFECT_AWAITING_APPROVAL \<longrightarrow>
       eff_status r = EFFECT_AWAITING_APPROVAL))"

definition update_row :: "pystr \<Rightarrow> (effect_row \<Rightarrow> effect_row) \<Rightarrow> effect_row \<Rightarrow> effect_row" where
  "update_row i f x = (if eff_id x = i then f x else x)"

lemma update_row_keeps:
  assumes "keeps_identity f"
  shows "eff_id (update_row i f r) = eff_id r" "eff_signature (update_row i f r) = eff_signature r"
    "eff_approval (update_row i f r) = eff_approval r"
    "eff_status (update_row i f r) = EFFECT_AWAITING_APPROVAL \<Longrightarrow> eff_status r = EFFECT_AWAITING_APPROVAL"
  using assms unfolding keeps_identity_def update_row_def by (simp_all split: if_splits)

lemma update_effects_Inr:
  assumes "journal_ok j" "keeps_identity f" "update_effects i f [] (effects j) = Inr (n, rs)"
  shows "rs = map (update_row i f) (effects j)" "n > 0 \<longleftrightarrow> i \<in> eff_id ` set (effects j)"
    "\<And>r r'. r \<in> set (effects j) \<Longrightarrow> r' \<in> set (effects j) \<Longrightarrow> eff_id r = i \<Longrightarrow> eff_id r' \<noteq> i \<Longrightarrow>
       \<not> (is_live (f r) \<and> is_live r' \<and> eff_signature r' = eff_signature r)"
proof -
  have d: "distinct (map eff_id ([] @ effects j))" using journal_okD(1) [OF assms(1)] by simp
  have f: "\<And>r. eff_id (f r) = eff_id r" "\<And>r. eff_signature (f r) = eff_signature r"
    using assms(2) by (auto simp: keeps_identity_def)
  note u = update_effects_result [OF d f(1), of i, unfolded assms(3)]
  show "rs = map (update_row i f) (effects j)"
    using u by (cases "List.find (\<lambda>r. eff_id r = i) (effects j)")
      (auto simp: find_None_iff update_row_def intro!: map_idI [symmetric] split: if_splits)
  show "n > 0 \<longleftrightarrow> i \<in> eff_id ` set (effects j)"
    using u by (cases "List.find (\<lambda>r. eff_id r = i) (effects j)")
      (auto simp: find_None_iff find_Some_iff split: if_splits)
  fix r r'
  assume r: "r \<in> set (effects j)" "r' \<in> set (effects j)" "eff_id r = i" "eff_id r' \<noteq> i"
  then obtain x where x: "List.find (\<lambda>r. eff_id r = i) (effects j) = Some x"
    by (cases "List.find (\<lambda>r. eff_id r = i) (effects j)") (auto simp: find_None_iff)
  then have "x \<in> set (effects j)" "eff_id x = i" by (auto simp: find_Some_iff)
  with r(1,3) d have "x = r" by (auto simp: distinct_map dest: inj_onD)
  with x u have "\<not> effect_conflict (filter (\<lambda>x. eff_id x \<noteq> i) (effects j)) (f r)"
    by (simp split: if_splits)
  with r(2,4) f(2) show "\<not> (is_live (f r) \<and> is_live r' \<and> eff_signature r' = eff_signature r)"
    by (auto simp: conflict_iff)
qed

lemma update_keeps_ok:
  assumes "journal_ok j" "keeps_identity f" "update_effects i f [] (effects j) = Inr (n, rs)"
  shows "journal_ok (j\<lparr>effects := rs\<rparr>)"
proof -
  note u = update_effects_Inr [OF assms]
  note k = update_row_keeps [OF assms(2), of i]
  have same: "eff_id r = eff_id r'"
    if "r \<in> set (effects j)" "r' \<in> set (effects j)" "is_live (update_row i f r)" "is_live (update_row i f r')"
      "eff_signature r = eff_signature r'" for r r'
    using that u(3) [of r r'] u(3) [of r' r] journal_okD(4) [OF assms(1), of r r']
    by (cases "eff_id r = i"; cases "eff_id r' = i") (auto simp: update_row_def)
  have "unique_live rs"
    unfolding unique_live_def u(1) set_map ball_simps(9) k(1,2) using same by blast
  moreover have "map eff_id rs = map eff_id (effects j)" by (simp add: u(1) k(1))
  moreover have "list_all (has_effect rs) (approvals j)"
    using assms(1) has_effect_map [OF _ k(1,3)] unfolding journal_ok_def list_all_iff u(1) by blast
  moreover have "list_all (has_approval (approvals j)) rs"
    using assms(1) has_approval_row [OF _ k(1,3,4)] unfolding journal_ok_def list_all_iff u(1) set_map by blast
  ultimately show ?thesis
    using assms(1) by (simp add: journal_ok_def unique_ids_def)
qed

lemma update_effect_Inr:
  "update_effect now i st res er j = Inr (b, j') \<longleftrightarrow>
     bind_text st = Inr () \<and> bind_opt res = Inr () \<and> bind_opt er = Inr () \<and> bind_text i = Inr () \<and>
     (\<exists>n rs. update_effects i (\<lambda>r. r\<lparr>eff_status := st, eff_result := res, eff_error := er, eff_updated := now\<rparr>)
        [] (effects j) = Inr (n, rs) \<and> b = (n > 0) \<and> j' = j\<lparr>effects := rs\<rparr>)"
  by (auto simp: update_effect_def rbind_eq_Inr_iff)

lemma keeps_identity_status:
  "st \<noteq> EFFECT_AWAITING_APPROVAL \<Longrightarrow>
     keeps_identity (\<lambda>r. r\<lparr>eff_status := st, eff_result := res, eff_error := er, eff_updated := now\<rparr>)"
  by (simp add: keeps_identity_def)

lemma keeps_identity_replay:
  "keeps_identity (\<lambda>r. r\<lparr>eff_replays := eff_replays r + 1, eff_last_replayed := Some now, eff_updated := now\<rparr>)"
  by (simp add: keeps_identity_def)

lemma update_effect_ok:
  "update_effect now i st res er j = Inr (b, j') \<Longrightarrow> journal_ok j \<Longrightarrow> st \<noteq> EFFECT_AWAITING_APPROVAL \<Longrightarrow> journal_ok j'"
  unfolding update_effect_Inr using update_keeps_ok [OF _ keeps_identity_status] by blast

lemma record_replay_Inr:
  "record_replay now i j = Inr (b, j') \<longleftrightarrow> bind_text i = Inr () \<and>
     (\<exists>n rs. update_effects i (\<lambda>r. r\<lparr>eff_replays := eff_replays r + 1, eff_last_replayed := Some now,
        eff_updated := now\<rparr>) [] (effects j) = Inr (n, rs) \<and> b = (n > 0) \<and> j' = j\<lparr>effects := rs\<rparr>)"
  by (auto simp: record_replay_def rbind_eq_Inr_iff)

lemma create_effect_ok:
  assumes "journal_ok j" "create_effect i now org ses tool step args sg st aid ver tier j = Inr (x, j')"
    and "st = EFFECT_EXECUTING \<or> st = EFFECT_AWAITING_APPROVAL \<and> aid \<noteq> None \<or> x = None"
  shows "journal_ok j'"
proof (cases "effect_conflict (effects j) (new_effect_row i now org ses tool step args sg st aid ver tier)")
  case True
  with create_effect_Inr [OF assms(2)] assms(1) show ?thesis by simp
next
  case False
  with create_effect_Inr [OF assms(2)] have j': "j' = \<lparr>effects = effects j @ [new_effect_row i now org ses tool step args sg st aid ver tier],
      approvals = approvals j @ (case aid of None \<Rightarrow> [] | Some a \<Rightarrow> [new_approval_row a now org ses tool args i])\<rparr>"
    and a: "\<forall>a. aid = Some a \<longrightarrow> a \<notin> app_id ` set (approvals j)" and st: "st = EFFECT_EXECUTING \<or> st = EFFECT_AWAITING_APPROVAL \<and> aid \<noteq> None"
    using assms(3) by auto
  let ?r = "new_effect_row i now org ses tool step args sg st aid ver tier"
  have i: "i \<notin> eff_id ` set (effects j)" using False by (auto simp: conflict_iff)
  have "app_effect a \<in> eff_id ` set (effects j)" if "a \<in> set (approvals j)" for a
    using journal_okD(5) [OF assms(1) that] by (metis image_eqI)
  with i have i': "i \<notin> app_effect ` set (approvals j)" by auto
  have "unique_live (effects j @ [?r])"
    using assms(1) False by (simp add: unique_live_snoc journal_ok_def)
  moreover have "unique_ids j'"
    using i i' a assms(1) by (auto simp: unique_ids_def journal_ok_def j' split: option.splits)
  moreover have "has_effect (effects j') a" if "a \<in> set (approvals j')" for a
  proof (cases "a \<in> set (approvals j)")
    case True
    then have "has_effect (effects j) a" using assms(1) by (simp add: journal_ok_def list_all_iff)
    then show ?thesis by (rule has_effect_mono) (auto simp: j')
  next
    case False
    with that show ?thesis by (auto simp: j' has_effect_def split: option.splits)
  qed
  moreover have "has_approval (approvals j') r" if "r \<in> set (effects j')" for r
  proof (cases "r \<in> set (effects j)")
    case True
    then have "has_approval (approvals j) r" using assms(1) by (simp add: journal_ok_def list_all_iff)
    then show ?thesis by (rule has_approval_mono) (auto simp: j')
  next
    case False
    with that st show ?thesis by (auto simp: j' has_approval_def split: option.splits)
  qed
  moreover have "list_all stamped (approvals j')"
    using assms(1) by (auto simp: journal_ok_def list_all_iff stamped_def j' split: option.splits)
  ultimately show ?thesis by (simp add: journal_ok_def list_all_iff) (simp add: j')
qed

lemma resolve_approval_Inr:
  "resolve_approval now a st j = Inr (b, j') \<longleftrightarrow> bind_text st = Inr () \<and> bind_text a = Inr () \<and>
     b = list_ex (\<lambda>x. app_id x = a \<and> app_status x = APPROVAL_PENDING) (approvals j) \<and>
     j' = j\<lparr>approvals := map (\<lambda>x. if app_id x = a \<and> app_status x = APPROVAL_PENDING
        then x\<lparr>app_status := st, app_resolved := Some now\<rparr> else x) (approvals j)\<rparr>"
  by (auto simp: resolve_approval_def rbind_eq_Inr_iff)

lemma resolve_approval_ok:
  assumes "journal_ok j" "resolve_approval now a st j = Inr (b, j')" "st \<noteq> APPROVAL_PENDING"
  shows "journal_ok j'"
proof -
  let ?u = "\<lambda>x. if app_id x = a \<and> app_status x = APPROVAL_PENDING
    then x\<lparr>app_status := st, app_resolved := Some now\<rparr> else x"
  have j': "j' = j\<lparr>approvals := map ?u (approvals j)\<rparr>"
    using assms(2) by (simp add: resolve_approval_Inr)
  have k: "app_id (?u x) = app_id x" "app_effect (?u x) = app_effect x" for x by auto
  have s: "stamped (?u x)" if "stamped x" for x
    using that assms(3) by (simp add: stamped_def)
  from k have "map app_id (map ?u (approvals j)) = map app_id (approvals j)"
    "map app_effect (map ?u (approvals j)) = map app_effect (approvals j)" by auto
  moreover have "list_all (has_effect (effects j)) (map ?u (approvals j))"
    "list_all (has_approval (map ?u (approvals j))) (effects j)" "list_all stamped (map ?u (approvals j))"
    using assms(1) has_effect_same [OF _ k] has_approval_map [OF _ k] s
    unfolding journal_ok_def list_all_iff set_map by blast+
  ultimately show ?thesis
    using assms(1) unfolding journal_ok_def unique_ids_def j' by (simp del: map_map)
qed

lemma journal_step_ok: "journal_step j ev j' \<Longrightarrow> journal_ok j \<Longrightarrow> journal_ok j'"
proof (induction rule: journal_step.induct)
  case (create i now org ses tool step args sg st aid ver tier j i' j')
  then show ?case by (blast intro: create_effect_ok)
next
  case (refuse i now org ses tool step args sg st aid ver tier j j')
  then show ?case by (blast intro: create_effect_ok)
next
  case (replay now i j b j')
  then show ?case unfolding record_replay_Inr using update_keeps_ok [OF _ keeps_identity_replay] by blast
next
  case (resolve now a st j b j')
  then show ?case by (blast intro: resolve_approval_ok)
qed (simp_all add: record_commit_def record_fail_def mark_rejected_def update_effect_ok)

end
