(* ===== verification/EffectLog.thy ===== *)
theory EffectLog
  imports JournalInv
begin

text \<open>
  One effect per call at a time. The locale \<open>effect_log\<close> is what the request handlers rely on: which
  effect holds a call signature, and how the events of a log change that. Its lemmas are about
  all sequences of events; the journal interprets it.
\<close>

section \<open>The interface\<close>

fun frees :: "pystr \<Rightarrow> journal_event \<Rightarrow> bool" where
  "frees i (Fail i' e b) = (i' = i)"
| "frees i (Reject i' b) = (i' = i)"
| "frees i _ = False"

fun settles :: "pystr \<Rightarrow> journal_event \<Rightarrow> bool" where
  "settles i (Commit i' v b) = (i' = i)"
| "settles i ev = frees i ev"

locale effect_log =
  fixes ok :: "'j \<Rightarrow> bool" and live :: "'j \<Rightarrow> pystr \<Rightarrow> effect_row option"
    and step :: "'j \<Rightarrow> journal_event \<Rightarrow> 'j \<Rightarrow> bool"
  assumes step_ok: "ok j \<Longrightarrow> step j ev j' \<Longrightarrow> ok j'"
    and created: "ok j \<Longrightarrow> step j (Created s i) j' \<Longrightarrow>
      live j s = None \<and> (\<exists>r. live j' s = Some r \<and> eff_id r = i)"
    and kept: "ok j \<Longrightarrow> step j ev j' \<Longrightarrow> live j s = Some r \<Longrightarrow> \<not> frees (eff_id r) ev \<Longrightarrow>
      \<exists>r'. live j' s = Some r' \<and> eff_id r' = eff_id r"
    and outcome_kept: "ok j \<Longrightarrow> step j ev j' \<Longrightarrow> live j s = Some r \<Longrightarrow> \<not> settles (eff_id r) ev \<Longrightarrow>
      \<exists>r'. live j' s = Some r' \<and> eff_id r' = eff_id r \<and> eff_status r' = eff_status r \<and>
        eff_result r' = eff_result r"
    and committed: "ok j \<Longrightarrow> step j (Commit i v b) j' \<Longrightarrow> live j s = Some r \<Longrightarrow> eff_id r = i \<Longrightarrow>
      \<exists>r'. live j' s = Some r' \<and> eff_id r' = i \<and> eff_status r' = EFFECT_COMMITTED \<and>
        eff_result r' = Some (json_dumps v)"
begin

lemma run_ok: "run step j evs j' \<Longrightarrow> ok j \<Longrightarrow> ok j'"
  by (induction rule: run.induct) (auto intro: step_ok)

lemma run_keeps:
  "run step j evs j' \<Longrightarrow> ok j \<Longrightarrow> live j s = Some r \<Longrightarrow> \<forall>ev \<in> set evs. \<not> frees (eff_id r) ev \<Longrightarrow>
     \<exists>r'. live j' s = Some r' \<and> eff_id r' = eff_id r"
proof (induction arbitrary: r rule: run.induct)
  case (run_Cons j ev j' evs j'')
  then obtain r' where "live j' s = Some r'" "eff_id r' = eff_id r"
    using kept [of j ev j' s r] by auto
  with run_Cons step_ok show ?case by fastforce
qed simp

lemma run_keeps_outcome:
  "run step j evs j' \<Longrightarrow> ok j \<Longrightarrow> live j s = Some r \<Longrightarrow> \<forall>ev \<in> set evs. \<not> settles (eff_id r) ev \<Longrightarrow>
     \<exists>r'. live j' s = Some r' \<and> eff_id r' = eff_id r \<and> eff_status r' = eff_status r \<and>
       eff_result r' = eff_result r"
proof (induction arbitrary: r rule: run.induct)
  case (run_Cons j ev j' evs j'')
  then obtain r' where "live j' s = Some r'" "eff_id r' = eff_id r" "eff_status r' = eff_status r"
      "eff_result r' = eff_result r"
    using outcome_kept [of j ev j' s r] by auto
  with run_Cons step_ok show ?case by fastforce
qed simp

lemma created_once:
  assumes "ok j" "run step j (xs @ Created s i # ys @ Created s i' # zs) j'"
  shows "\<exists>ev \<in> set ys. frees i ev"
proof (rule ccontr)
  assume no: "\<not> (\<exists>ev \<in> set ys. frees i ev)"
  obtain j1 j2 j3 j4 where p: "run step j xs j1" "step j1 (Created s i) j2" "run step j2 ys j3"
      "step j3 (Created s i') j4"
    using assms(2) by (auto simp: run_append elim!: run_ConsE)
  have o1: "ok j1" using run_ok p(1) assms(1) by blast
  then have o2: "ok j2" using step_ok p(2) by blast
  obtain r where "live j2 s = Some r" "eff_id r = i" using created [OF o1 p(2)] by blast
  then have "live j3 s \<noteq> None" using run_keeps [OF p(3) o2, of s r] no by auto
  moreover have "live j3 s = None" using created [OF run_ok [OF p(3) o2] p(4)] by blast
  ultimately show False by simp
qed

lemma commit_replays:
  assumes "ok j" "live j s = Some r" "run step j (Commit (eff_id r) v b # evs) j'"
    and "\<forall>ev \<in> set evs. \<not> settles (eff_id r) ev"
  shows "\<exists>r'. live j' s = Some r' \<and> eff_id r' = eff_id r \<and> eff_status r' = EFFECT_COMMITTED \<and>
    eff_result r' = Some (json_dumps v)"
proof -
  obtain j1 where p: "step j (Commit (eff_id r) v b) j1" "run step j1 evs j'"
    using assms(3) by (auto elim: run_ConsE)
  obtain r1 where r1: "live j1 s = Some r1" "eff_id r1 = eff_id r" "eff_status r1 = EFFECT_COMMITTED"
      "eff_result r1 = Some (json_dumps v)"
    using committed [OF assms(1) p(1) assms(2)] by auto
  have "ok j1" using step_ok assms(1) p(1) by blast
  then show ?thesis
    using run_keeps_outcome [OF p(2) _ r1(1)] assms(4) r1 by auto
qed

end

section \<open>The journal is an effect log\<close>

lemma live_row_SomeD:
  "live_row j s = Some r \<Longrightarrow> r \<in> set (effects j) \<and> eff_signature r = s \<and> is_live r"
  unfolding live_row_def find_Some_iff by auto

lemma live_row_iff:
  assumes "journal_ok j"
  shows "live_row j s = Some r \<longleftrightarrow> r \<in> set (effects j) \<and> eff_signature r = s \<and> is_live r"
proof
  assume r: "r \<in> set (effects j) \<and> eff_signature r = s \<and> is_live r"
  then obtain r' where r': "live_row j s = Some r'"
    unfolding live_row_def by (cases "List.find (\<lambda>r. eff_signature r = s \<and> is_live r) (effects j)")
      (auto simp: find_None_iff)
  with live_row_SomeD [OF r'] r journal_okD(4) [OF assms, of r' r] show "live_row j s = Some r" by simp
qed (rule live_row_SomeD)

lemma live_row_None:
  "live_row j s = None \<longleftrightarrow> (\<forall>r \<in> set (effects j). \<not> (eff_signature r = s \<and> is_live r))"
  unfolding live_row_def find_None_iff by blast

lemma create_effect_live:
  assumes "journal_ok j" "create_effect i now org ses tool step args s st aid ver tier j = Inr (Some i', j')"
    and "st \<in> set LIVE_EFFECT_STATUSES"
  shows "live_row j s = None" "\<exists>r. live_row j' s = Some r \<and> eff_id r = i'"
proof -
  let ?r = "new_effect_row i now org ses tool step args s st aid ver tier"
  have c: "\<not> effect_conflict (effects j) ?r" "i' = i" "effects j' = effects j @ [?r]"
    using create_effect_Inr [OF assms(2)] by (auto split: if_splits)
  have l: "is_live ?r" using assms(3) by (simp add: is_live_def)
  show n: "live_row j s = None"
    unfolding live_row_None using c(1) l unfolding conflict_iff by auto
  then have "List.find (\<lambda>r. eff_signature r = s \<and> is_live r) (effects j) = None"
    by (simp add: live_row_def)
  then have "live_row j' s = Some ?r"
    unfolding live_row_def c(3) find_None_iff_filter find_Some_iff_filter using l by simp
  with c(2) show "\<exists>r. live_row j' s = Some r \<and> eff_id r = i'" by simp
qed

text \<open>An update leaves the live row of a signature in place as long as it stays live.\<close>

lemma live_row_update:
  assumes "journal_ok j" "keeps_identity f" "update_effects i f [] (effects j) = Inr (n, rs)"
    and "live_row j s = Some r" "is_live (update_row i f r)"
  shows "live_row (j\<lparr>effects := rs\<rparr>) s = Some (update_row i f r)"
proof -
  have "update_row i f r \<in> set rs"
    using update_effects_Inr(1) [OF assms(1-3)] live_row_SomeD [OF assms(4)] by simp
  moreover have "eff_signature (update_row i f r) = s"
    using update_row_keeps(2) [OF assms(2)] live_row_SomeD [OF assms(4)] by simp
  ultimately show ?thesis
    using live_row_iff [OF update_keeps_ok [OF assms(1-3)], of s "update_row i f r"] assms(5) by simp
qed

lemma update_effect_live:
  assumes "journal_ok j" "update_effect now i st res er j = Inr (b, j')" "st \<noteq> EFFECT_AWAITING_APPROVAL"
    and "live_row j s = Some r" "eff_id r \<noteq> i \<or> st \<in> set LIVE_EFFECT_STATUSES"
  shows "\<exists>r'. live_row j' s = Some r' \<and> eff_id r' = eff_id r \<and>
    (if eff_id r = i then eff_status r' = st \<and> eff_result r' = res else r' = r)"
proof -
  let ?f = "\<lambda>r. r\<lparr>eff_status := st, eff_result := res, eff_error := er, eff_updated := now\<rparr>"
  obtain n rs where u: "update_effects i ?f [] (effects j) = Inr (n, rs)" "j' = j\<lparr>effects := rs\<rparr>"
    using assms(2) unfolding update_effect_Inr by blast
  have "is_live (update_row i ?f r)"
    using assms(5) live_row_SomeD [OF assms(4)] by (auto simp: update_row_def is_live_def)
  from live_row_update [OF assms(1) keeps_identity_status [OF assms(3)] u(1) assms(4) this] u(2)
  show ?thesis by (simp add: update_row_def)
qed

lemma record_replay_live:
  assumes "journal_ok j" "record_replay now i j = Inr (b, j')" "live_row j s = Some r"
  shows "\<exists>r'. live_row j' s = Some r' \<and> eff_id r' = eff_id r \<and> eff_status r' = eff_status r \<and>
    eff_result r' = eff_result r \<and> eff_args r' = eff_args r"
proof -
  let ?f = "\<lambda>r. r\<lparr>eff_replays := eff_replays r + 1, eff_last_replayed := Some now, eff_updated := now\<rparr>"
  obtain n rs where u: "update_effects i ?f [] (effects j) = Inr (n, rs)" "j' = j\<lparr>effects := rs\<rparr>"
    using assms(2) unfolding record_replay_Inr by blast
  have "is_live (update_row i ?f r)"
    using live_row_SomeD [OF assms(3)] by (simp add: update_row_def is_live_def)
  from live_row_update [OF assms(1) keeps_identity_replay u(1) assms(3) this] u(2)
  show ?thesis by (simp add: update_row_def)
qed

lemma create_effect_live_kept:
  assumes "create_effect i now org ses tool step args s' st aid ver tier j = Inr (x, j')" "live_row j s = Some r"
  shows "live_row j' s = Some r"
proof -
  obtain rs where "effects j' = effects j @ rs"
    using create_effect_Inr [OF assms(1)] by (simp split: if_splits)
  with assms(2) show ?thesis by (auto simp: live_row_def find_Some_iff_filter)
qed

lemma resolve_approval_live:
  "resolve_approval now a st j = Inr (b, j') \<Longrightarrow> live_row j' s = live_row j s"
  by (auto simp: resolve_approval_Inr live_row_def)

lemma journal_step_outcome:
  assumes "journal_step j ev j'" "journal_ok j" "live_row j s = Some r" "\<not> settles (eff_id r) ev"
  shows "\<exists>r'. live_row j' s = Some r' \<and> eff_id r' = eff_id r \<and> eff_status r' = eff_status r \<and>
    eff_result r' = eff_result r \<and> eff_args r' = eff_args r"
  using assms
proof (cases rule: journal_step.cases)
  case (resolve now a st b)
  then show ?thesis using resolve_approval_live assms(3) by simp
next
  case (replay now i b)
  then show ?thesis using record_replay_live assms(2,3) by blast
next
  case (commit now i v b)
  then show ?thesis
    using update_effect_live [OF assms(2) _ _ assms(3)] assms(4) unfolding record_commit_def by force
next
  case (fail now i e b)
  then show ?thesis
    using update_effect_live [OF assms(2) _ _ assms(3)] assms(4) unfolding record_fail_def by force
next
  case (reject now i b)
  then show ?thesis
    using update_effect_live [OF assms(2) _ _ assms(3)] assms(4) unfolding mark_rejected_def by force
qed (use create_effect_live_kept assms(3) in blast)+

text \<open>What was committed stays as it is.\<close>

definition keeps_settled :: "journal \<Rightarrow> journal \<Rightarrow> bool" where
  "keeps_settled j j' \<longleftrightarrow> (\<forall>sg r. live_row j sg = Some r \<and> eff_status r = EFFECT_COMMITTED \<longrightarrow>
     (\<exists>r'. live_row j' sg = Some r' \<and> eff_status r' = EFFECT_COMMITTED \<and> eff_result r' = eff_result r \<and> eff_args r' = eff_args r))"

lemma keeps_settled_refl [simp]: "keeps_settled j j"
  by (simp add: keeps_settled_def)

lemma keeps_settled_trans: "keeps_settled j j' \<Longrightarrow> keeps_settled j' j'' \<Longrightarrow> keeps_settled j j''"
  by (fastforce simp: keeps_settled_def)

lemma keeps_settled_created:
  "create_effect i now org ses tool step args s' st aid ver tier j = Inr (x, j') \<Longrightarrow> keeps_settled j j'"
  using create_effect_live_kept by (fastforce simp: keeps_settled_def)

lemma keeps_settled_step:
  assumes "journal_ok j" "journal_step j ev j'"
    and "\<And>i. settles i ev \<Longrightarrow> \<exists>sg r. live_row j sg = Some r \<and> eff_id r = i \<and> eff_status r \<noteq> EFFECT_COMMITTED"
  shows "keeps_settled j j'"
  unfolding keeps_settled_def
proof (intro allI impI, elim conjE)
  fix sg r assume r: "live_row j sg = Some r" "eff_status r = EFFECT_COMMITTED"
  have "\<not> settles (eff_id r) ev"
  proof
    assume "settles (eff_id r) ev"
    from assms(3) [OF this] obtain sg' r' where r': "live_row j sg' = Some r'" "eff_id r' = eff_id r" "eff_status r' \<noteq> EFFECT_COMMITTED"
      by blast
    have "inj_on eff_id (set (effects j))" using journal_okD(1) [OF assms(1)] by (simp add: distinct_map)
    then have "r' = r" using live_row_SomeD [OF r(1)] live_row_SomeD [OF r'(1)] r'(2) by (auto dest: inj_onD)
    with r(2) r'(3) show False by simp
  qed
  from journal_step_outcome [OF assms(2,1) r(1) this] r(2) show "\<exists>r'. live_row j' sg = Some r' \<and>
      eff_status r' = EFFECT_COMMITTED \<and> eff_result r' = eff_result r \<and> eff_args r' = eff_args r" by auto
qed

lemma run_outcome:
  assumes "run journal_step j evs j'" "journal_ok j" "live_row j sg = Some r" "\<forall>ev \<in> set evs. \<not> settles (eff_id r) ev"
  shows "journal_ok j' \<and> (\<exists>r'. live_row j' sg = Some r' \<and> eff_id r' = eff_id r \<and> eff_status r' = eff_status r \<and>
    eff_result r' = eff_result r \<and> eff_args r' = eff_args r)"
  using assms
proof (induction arbitrary: r rule: run.induct)
  case (run_Cons j ev j1 evs j')
  obtain r1 where r1: "live_row j1 sg = Some r1" "eff_id r1 = eff_id r" "eff_status r1 = eff_status r"
      "eff_result r1 = eff_result r" "eff_args r1 = eff_args r"
    using journal_step_outcome [OF run_Cons.hyps(1) run_Cons.prems(1,2)] run_Cons.prems(3) by auto
  from run_Cons.IH [OF journal_step_ok [OF run_Cons.hyps(1) run_Cons.prems(1)] r1(1)] run_Cons.prems(3) r1(2-5)
  show ?case by auto
qed auto

interpretation jl: effect_log journal_ok live_row journal_step
proof
  fix j ev j' s r i v b
  assume ok: "journal_ok j"
  show "journal_step j ev j' \<Longrightarrow> journal_ok j'" using journal_step_ok ok by blast
  show "journal_step j (Created s i) j' \<Longrightarrow> live_row j s = None \<and> (\<exists>r. live_row j' s = Some r \<and> eff_id r = i)"
    unfolding journal_step_simps using create_effect_live [OF ok] by (auto simp: LIVE_EFFECT_STATUSES_def)
  assume r: "live_row j s = Some r"
  show o: "journal_step j ev j' \<Longrightarrow> \<not> settles (eff_id r) ev \<Longrightarrow> \<exists>r'. live_row j' s = Some r' \<and>
      eff_id r' = eff_id r \<and> eff_status r' = eff_status r \<and> eff_result r' = eff_result r"
    using journal_step_outcome ok r by blast
  show c: "journal_step j (Commit i v b) j' \<Longrightarrow> eff_id r = i \<Longrightarrow> \<exists>r'. live_row j' s = Some r' \<and>
      eff_id r' = i \<and> eff_status r' = EFFECT_COMMITTED \<and> eff_result r' = Some (json_dumps v)"
    for i v b
    unfolding journal_step_simps record_commit_def
    using update_effect_live [OF ok _ _ r, where i = i] by (fastforce simp: LIVE_EFFECT_STATUSES_def)
  show "journal_step j ev j' \<Longrightarrow> \<not> frees (eff_id r) ev \<Longrightarrow> \<exists>r'. live_row j' s = Some r' \<and> eff_id r' = eff_id r"
    using o c by (cases "settles (eff_id r) ev"; cases ev) fastforce+
qed

section \<open>Properties of all interleavings\<close>

lemma empty_journal_ok: "journal_ok empty_journal"
  by (simp add: empty_journal_def journal_ok_def unique_ids_def unique_live_def)

text \<open>
  C7. A call has one effect at a time. In any sequence of journal calls, made by any number of
  request threads, a signature that was journaled is not journaled a second time unless the first
  effect was reported failed or rejected in between. A caller that finds the effect executing is
  told to run the call again under that effect, which journals nothing.
\<close>

theorem journal_created_once:
  assumes "run journal_step empty_journal (xs @ Created sg i # ys @ Created sg i' # zs) j"
  shows "\<exists>ev \<in> set ys. frees i ev"
  using jl.created_once [OF empty_journal_ok assms] .

theorem journal_created_once_witness:
  "(\<exists>j. run journal_step empty_journal ([] @ Created (lit ''sig'') (lit ''e1'') # [Fail (lit ''e1'') (lit ''boom'') True] @
      Created (lit ''sig'') (lit ''e2'') # []) j) \<and>
   (\<exists>ev \<in> set [Fail (lit ''e1'') (lit ''boom'') True]. frees (lit ''e1'') ev)"
proof -
  let ?c = "\<lambda>i j. create_effect i (lit ''t'') (lit ''org'') (lit ''ses'') (lit ''pay'') 1 (JDict []) (lit ''sig'')
    EFFECT_EXECUTING None (lit ''1.0.0'') None j"
  let ?j1 = "snd (projr (?c (lit ''e1'') empty_journal))"
  let ?j2 = "snd (projr (record_fail (lit ''t'') (lit ''e1'') (lit ''boom'') ?j1))"
  let ?j3 = "snd (projr (?c (lit ''e2'') ?j2))"
  have "?c (lit ''e1'') empty_journal = Inr (Some (lit ''e1''), ?j1)"
    "record_fail (lit ''t'') (lit ''e1'') (lit ''boom'') ?j1 = Inr (True, ?j2)"
    "?c (lit ''e2'') ?j2 = Inr (Some (lit ''e2''), ?j3)"
    by code_simp+
  then have r: "run journal_step empty_journal ([] @ Created (lit ''sig'') (lit ''e1'') # [Fail (lit ''e1'') (lit ''boom'') True] @
      Created (lit ''sig'') (lit ''e2'') # []) ?j3"
    by (auto intro!: run.intros intro: journal_step.intros)
  from journal_created_once [OF r] r show ?thesis by blast
qed

text \<open>
  C8. A committed result is what every later identical call replays: it stays the live row of
  its signature, with exactly that result, through any later calls that do not report a
  commit, a failure or a rejection of the same effect.
\<close>

theorem journal_commit_replays:
  assumes "run journal_step empty_journal evs j" "live_row j sg = Some r"
    and "run journal_step j (Commit (eff_id r) v b # evs') j'" "\<forall>ev \<in> set evs'. \<not> settles (eff_id r) ev"
  shows "\<exists>r'. live_row j' sg = Some r' \<and> eff_id r' = eff_id r \<and> eff_status r' = EFFECT_COMMITTED \<and>
    eff_result r' = Some (json_dumps v)"
  using jl.commit_replays [OF jl.run_ok [OF assms(1) empty_journal_ok] assms(2-4)] .

theorem journal_commit_replays_witness:
  "\<exists>j r j'. run journal_step empty_journal [Created (lit ''sig'') (lit ''e1'')] j \<and> live_row j (lit ''sig'') = Some r \<and>
     run journal_step j [Commit (lit ''e1'') (JInt 7) True, Replay (lit ''e1'') True] j' \<and>
     map_option eff_result (live_row j' (lit ''sig'')) = Some (Some (json_dumps (JInt 7)))"
proof -
  let ?c = "create_effect (lit ''e1'') (lit ''t'') (lit ''org'') (lit ''ses'') (lit ''pay'') 1 (JDict []) (lit ''sig'')
    EFFECT_EXECUTING None (lit ''1.0.0'') None empty_journal"
  let ?j1 = "snd (projr ?c)"
  let ?r = "the (live_row ?j1 (lit ''sig''))"
  let ?j2 = "snd (projr (record_commit (lit ''t'') (lit ''e1'') (JInt 7) ?j1))"
  let ?j3 = "snd (projr (record_replay (lit ''t'') (lit ''e1'') ?j2))"
  have e: "?c = Inr (Some (lit ''e1''), ?j1)" "live_row ?j1 (lit ''sig'') = Some ?r" "eff_id ?r = lit ''e1''"
    "record_commit (lit ''t'') (lit ''e1'') (JInt 7) ?j1 = Inr (True, ?j2)"
    "record_replay (lit ''t'') (lit ''e1'') ?j2 = Inr (True, ?j3)"
    by code_simp+
  then have r: "run journal_step empty_journal [Created (lit ''sig'') (lit ''e1'')] ?j1"
    "run journal_step ?j1 [Commit (eff_id ?r) (JInt 7) True, Replay (lit ''e1'') True] ?j3"
    by (auto intro!: run.intros intro: journal_step.intros)
  have "\<forall>ev \<in> set [Replay (lit ''e1'') True]. \<not> settles (eff_id ?r) ev" by simp
  from journal_commit_replays [OF r(1) e(2) r(2) this] r e show ?thesis by fastforce
qed

text \<open>
  C9. Every reachable journal is well formed: effect and approval identifiers are unique, two
  different effects never hold the same signature, every approval belongs to an effect that
  names it and every held effect has an approval, and exactly the resolved approvals carry a
  resolution time.
\<close>

theorem journal_wellformed:
  assumes "run journal_step empty_journal evs j"
  shows "distinct (map eff_id (effects j)) \<and> distinct (map app_id (approvals j)) \<and>
    distinct (map eff_signature (filter is_live (effects j))) \<and>
    list_all (has_effect (effects j)) (approvals j) \<and>
    list_all (has_approval (approvals j)) (effects j) \<and> list_all stamped (approvals j)"
proof -
  have ok: "journal_ok j" using jl.run_ok [OF assms empty_journal_ok] .
  have "inj_on eff_signature (set (filter is_live (effects j)))"
    using journal_okD(4) [OF ok] by (simp add: inj_on_def)
  moreover have "distinct (filter is_live (effects j))"
    using journal_okD(1) [OF ok] by (simp add: distinct_map)
  ultimately show ?thesis
    using ok journal_okD(1,2) [OF ok] by (simp add: distinct_map journal_ok_def)
qed

theorem journal_wellformed_witness:
  "\<exists>j. run journal_step empty_journal [Created (lit ''sig'') (lit ''e1'')] j \<and> list_all (has_approval (approvals j)) (effects j) \<and>
     approvals j \<noteq> []"
proof -
  let ?c = "create_effect (lit ''e1'') (lit ''t'') (lit ''org'') (lit ''ses'') (lit ''drop_db'') 1 (JDict []) (lit ''sig'')
    EFFECT_AWAITING_APPROVAL (Some (lit ''a1'')) (lit ''1.0.0'') None empty_journal"
  let ?j1 = "snd (projr ?c)"
  have e: "?c = Inr (Some (lit ''e1''), ?j1)" "approvals ?j1 \<noteq> []"
    by code_simp+
  then have r: "run journal_step empty_journal [Created (lit ''sig'') (lit ''e1'')] ?j1"
    by (auto intro!: run.intros intro: journal_step.intros)
  from journal_wellformed [OF r] r e(2) show ?thesis by blast
qed

end
