(* ===== verification/JournalOps.thy ===== *)
theory JournalOps
  imports EffectLog
begin

text \<open>
  What the single methods of the journal return and write, on every branch: the gate of
  \<open>create_effect\<close>, the missing status guards of the updates, decisions on approvals, listings,
  time stamps, and that stored JSON always decodes.
\<close>

section \<open>Time stamps\<close>

fun fixed_digits :: "nat \<Rightarrow> nat \<Rightarrow> pystr" where
  "fixed_digits 0 n = []"
| "fixed_digits (Suc w) n = fixed_digits w (n div 10) @ [48 + n mod 10]"

lemma length_fixed_digits [simp]: "length (fixed_digits w n) = w"
  by (induction w arbitrary: n) simp_all

lemma fixed_digits_0: "fixed_digits w 0 = replicate w 48"
  by (induction w) (simp_all add: replicate_append_same)

lemma pad_nat_fixed: "n < 10 ^ w \<Longrightarrow> 0 < w \<Longrightarrow> pad_nat w n = fixed_digits w n"
proof (induction w arbitrary: n)
  case (Suc w)
  show ?case
  proof (cases "n < 10")
    case True
    then show ?thesis
      by (simp add: pad_nat_def show_nat_def dec_digits.simps [of n] fixed_digits_0)
  next
    case False
    then have w: "0 < w" "n div 10 < 10 ^ w" using Suc.prems by (cases w; simp add: less_mult_imp_div_less mult.commute)+
    have "show_nat n = show_nat (n div 10) @ [48 + n mod 10]"
      using False by (simp add: show_nat_def dec_digits.simps [of n])
    with Suc.IH [OF w(2,1)] show ?thesis by (simp add: pad_nat_def)
  qed
qed simp

lemma list_less_append:
  fixes xs ys :: pystr
  assumes "length xs = length ys"
  shows "xs @ us < ys @ vs \<longleftrightarrow> xs < ys \<or> xs = ys \<and> us < vs"
  using assms by (induction xs ys rule: list_induct2) auto

lemma fixed_digits_compare:
  "m < 10 ^ w \<Longrightarrow> n < 10 ^ w \<Longrightarrow>
     (fixed_digits w m < fixed_digits w n \<longleftrightarrow> m < n) \<and> (fixed_digits w m = fixed_digits w n \<longleftrightarrow> m = n)"
proof (induction w arbitrary: m n)
  case (Suc w)
  have d: "m div 10 < 10 ^ w" "n div 10 < 10 ^ w"
    using Suc.prems by (simp_all add: less_mult_imp_div_less mult.commute)
  have "m = m div 10 * 10 + m mod 10" "n = n div 10 * 10 + n mod 10" "m mod 10 < 10" "n mod 10 < 10"
    by simp_all
  then have "m < n \<longleftrightarrow> m div 10 < n div 10 \<or> m div 10 = n div 10 \<and> m mod 10 < n mod 10"
    by linarith
  moreover have "m = n \<longleftrightarrow> m div 10 = n div 10 \<and> m mod 10 = n mod 10"
    by (metis div_mult_mod_eq)
  ultimately show ?case using Suc.IH [OF d] by (simp add: list_less_append)
qed simp

lemmas fixed_digits_less = fixed_digits_compare [THEN conjunct1]

lemmas fixed_digits_inject = fixed_digits_compare [THEN conjunct2]

definition datetime_ok :: "datetime \<Rightarrow> bool" where
  "datetime_ok t \<longleftrightarrow> year t < 10000 \<and> month t < 100 \<and> day t < 100 \<and> hour t < 100 \<and> minute t < 100 \<and>
     second t < 100 \<and> microsecond t < 1000000"

definition chrono :: "datetime \<Rightarrow> nat list" where
  "chrono t = [year t, month t, day t, hour t, minute t, second t, microsecond t]"

lemma utc_now_fixed:
  "datetime_ok t \<Longrightarrow> utc_now t =
     fixed_digits 4 (year t) @ 45 # fixed_digits 2 (month t) @ 45 # fixed_digits 2 (day t) @ 84 #
     fixed_digits 2 (hour t) @ 58 # fixed_digits 2 (minute t) @ 58 # fixed_digits 2 (second t) @
     46 # fixed_digits 6 (microsecond t) @ [90]"
  unfolding utc_now_def datetime_ok_def by (simp add: pad_nat_fixed lit_def)

text \<open>
  Time stamps sort chronologically: of two points in time the earlier one has the smaller
  text, so ordering approvals by the stored text is ordering them by time.
\<close>

theorem utc_now_chronological:
  assumes "datetime_ok s" "datetime_ok t"
  shows "utc_now s < utc_now t \<longleftrightarrow> chrono s < chrono t"
  using assms unfolding utc_now_fixed [OF assms(1)] utc_now_fixed [OF assms(2)] chrono_def datetime_ok_def
  by (simp add: list_less_append fixed_digits_less fixed_digits_inject)

theorem utc_now_chronological_witness:
  "utc_now \<lparr>year = 2026, month = 10, day = 9, hour = 8, minute = 41, second = 12, microsecond = 512004\<rparr> <
   utc_now \<lparr>year = 2026, month = 10, day = 9, hour = 8, minute = 41, second = 13, microsecond = 7\<rparr>"
  by (subst utc_now_chronological) (simp_all add: datetime_ok_def chrono_def)

section \<open>Binding parameters\<close>

definition encodable :: "pystr \<Rightarrow> bool" where
  "encodable s \<longleftrightarrow> \<not> list_ex is_surrogate s"

lemma bind_text_iff [simp]: "bind_text s = Inr () \<longleftrightarrow> encodable s"
  by (simp add: bind_text_def encodable_def)

lemma bind_encodable: "encodable s \<Longrightarrow> bind_text s = Inr ()"
  by simp

lemma ascii_encodable: "\<forall>c \<in> set s. c < 128 \<Longrightarrow> encodable s"
  by (auto simp: encodable_def list_ex_iff is_surrogate_def)

lemma dumps_encodable: "wf_json v \<Longrightarrow> encodable (json_dumps v)"
  using dumps_ascii by (blast intro: ascii_encodable)

lemma lit_encodable [simp]: "encodable (lit s)"
proof -
  have "\<not> is_surrogate (of_char c)" for c
    using of_char_less_256 [of c] by (auto simp: is_surrogate_def simp del: of_char_less_256)
  then show ?thesis by (auto simp: encodable_def lit_def list_ex_iff)
qed

lemma status_encodable [simp]:
  "encodable EFFECT_EXECUTING" "encodable EFFECT_AWAITING_APPROVAL" "encodable EFFECT_COMMITTED"
  "encodable EFFECT_FAILED" "encodable EFFECT_REJECTED"
  by (simp_all add: status_defs)

lemma tier_encodable: "(\<And>t. tier = Some t \<Longrightarrow> encodable t) \<Longrightarrow> encodable (resolved_tier tier st)"
  by (auto simp: resolved_tier_def split: option.splits list.splits)

section \<open>create\_effect\<close>

lemma live_conflict:
  assumes "st \<in> set LIVE_EFFECT_STATUSES" "i \<notin> eff_id ` set (effects j)"
  shows "effect_conflict (effects j) (new_effect_row i now org ses tool step args sg st aid ver tier) \<longleftrightarrow>
    live_row j sg \<noteq> None"
proof -
  have "is_live (new_effect_row i now org ses tool step args sg st aid ver tier)"
    using assms(1) by (simp add: is_live_def)
  moreover have "eff_id r \<noteq> i" if "r \<in> set (effects j)" for r using assms(2) that by blast
  ultimately show ?thesis
    unfolding conflict_iff live_row_None not_not by auto
qed

lemma create_effect_result:
  assumes "wf_json args" "list_all encodable [i, org, ses, tool, ver, sg]" "\<And>t. tier = Some t \<Longrightarrow> encodable t"
    and "- (2 ^ 63) \<le> step" "step < 2 ^ 63" "st = EFFECT_EXECUTING \<or> st = EFFECT_AWAITING_APPROVAL"
    and "i \<notin> eff_id ` set (effects j)" "\<And>a. aid = Some a \<Longrightarrow> encodable a \<and> a \<notin> app_id ` set (approvals j)"
  shows "create_effect i now org ses tool step args sg st aid ver tier j =
    Inr (if live_row j sg = None
         then (Some i, \<lparr>effects = effects j @ [new_effect_row i now org ses tool step args sg st aid ver tier],
                 approvals = approvals j @
                   (case aid of None \<Rightarrow> [] | Some a \<Rightarrow> [new_approval_row a now org ses tool args i])\<rparr>)
         else (None, j))"
proof -
  have live: "st \<in> set LIVE_EFFECT_STATUSES" using assms(6) by (auto simp: LIVE_EFFECT_STATUSES_def)
  have b: "map_result bind_text [i, org, ses, tool, ver, resolved_tier tier st] = Inr [(), (), (), (), (), ()]"
    "bind_int step = Inr ()" "map_result bind_text [sg, st, json_dumps args] = Inr [(), (), ()]"
    "bind_opt aid = Inr ()"
    using assms(2,4,5,6,8) tier_encodable [OF assms(3), where st = st] dumps_encodable [OF assms(1)]
    by (auto simp: bind_encodable bind_int_def bind_opt_def split: option.splits)
  have a: "insert_approval (new_approval_row a now org ses tool args i) j' =
      Inr (j'\<lparr>approvals := approvals j' @ [new_approval_row a now org ses tool args i]\<rparr>)"
    if "aid = Some a" "approvals j' = approvals j" for a j'
    using assms(8) [OF that(1)] that(2) by (auto simp: insert_approval_def list_ex_iff)
  show ?thesis
    unfolding create_effect_def b rbind_simps insert_effect_def live_conflict [OF live assms(7)]
    by (cases aid) (auto simp: a)
qed

text \<open>
  C15. The gate decides by the live effect alone. With encodable texts, a fresh identifier and
  a step that fits, \<^verbatim>\<open>create_effect\<close> journals the call, together with its pending
  approval in the same transaction, exactly when no live effect holds the signature; otherwise
  it returns \<^verbatim>\<open>None\<close> and writes nothing.
\<close>

theorem create_effect_gate:
  assumes "wf_json args" "list_all encodable [i, org, ses, tool, ver, sg]" "\<And>t. tier = Some t \<Longrightarrow> encodable t"
    and "- (2 ^ 63) \<le> step" "step < 2 ^ 63" "st = EFFECT_EXECUTING \<or> st = EFFECT_AWAITING_APPROVAL"
    and "i \<notin> eff_id ` set (effects j)" "\<And>a. aid = Some a \<Longrightarrow> encodable a \<and> a \<notin> app_id ` set (approvals j)"
  shows "create_effect i now org ses tool step args sg st aid ver tier j =
    Inr (if live_row j sg = None
         then (Some i, \<lparr>effects = effects j @ [new_effect_row i now org ses tool step args sg st aid ver tier],
                 approvals = approvals j @
                   (case aid of None \<Rightarrow> [] | Some a \<Rightarrow> [new_approval_row a now org ses tool args i])\<rparr>)
         else (None, j))"
  by (rule create_effect_result [OF assms])

theorem create_effect_gate_witness:
  "create_effect (lit ''e1'') (lit ''t'') (lit ''org'') (lit ''ses'') (lit ''pay'') 1 (JDict [(lit ''k'', JInt 2)]) (lit ''sig'')
     EFFECT_AWAITING_APPROVAL (Some (lit ''a1'')) (lit ''1.0.0'') None empty_journal =
   Inr (Some (lit ''e1''), \<lparr>effects = [new_effect_row (lit ''e1'') (lit ''t'') (lit ''org'') (lit ''ses'') (lit ''pay'') 1
       (JDict [(lit ''k'', JInt 2)]) (lit ''sig'') EFFECT_AWAITING_APPROVAL (Some (lit ''a1'')) (lit ''1.0.0'') None],
     approvals = [new_approval_row (lit ''a1'') (lit ''t'') (lit ''org'') (lit ''ses'') (lit ''pay'') (JDict [(lit ''k'', JInt 2)]) (lit ''e1'')]\<rparr>)"
  by (subst create_effect_gate) (simp_all add: empty_journal_def live_row_def dict_keys_ok_def)

section \<open>Updates\<close>

lemma update_effect_result:
  assumes "journal_ok j" "encodable i" "encodable st" "\<And>t. res = Some t \<Longrightarrow> encodable t" "\<And>t. er = Some t \<Longrightarrow> encodable t"
  shows "update_effect now i st res er j =
    (case row_of j i of
       None \<Rightarrow> Inr (False, j)
     | Some r \<Rightarrow>
         if st \<in> set LIVE_EFFECT_STATUSES \<and> (\<exists>r'. live_row j (eff_signature r) = Some r' \<and> eff_id r' \<noteq> i)
         then Inl IntegrityError
         else Inr (True, j\<lparr>effects := map (update_row i
           (\<lambda>r. r\<lparr>eff_status := st, eff_result := res, eff_error := er, eff_updated := now\<rparr>)) (effects j)\<rparr>))"
proof -
  let ?f = "\<lambda>r. r\<lparr>eff_status := st, eff_result := res, eff_error := er, eff_updated := now\<rparr>"
  have b: "bind_text st = Inr ()" "bind_opt res = Inr ()" "bind_opt er = Inr ()" "bind_text i = Inr ()"
    using assms(2-5) by (auto simp: bind_encodable bind_opt_def split: option.splits)
  have d: "distinct (map eff_id ([] @ effects j))" using journal_okD(1) [OF assms(1)] by simp
  note u = update_effects_result [OF d, of ?f i, simplified]
  show ?thesis
  proof (cases "row_of j i")
    case None
    then show ?thesis
      unfolding update_effect_def b rbind_simps u row_of_def by simp
  next
    case (Some r)
    then have r: "r \<in> set (effects j)" "eff_id r = i" unfolding row_of_def find_Some_iff by auto
    have "effect_conflict (filter (\<lambda>x. eff_id x \<noteq> i) (effects j)) (?f r) \<longleftrightarrow>
        st \<in> set LIVE_EFFECT_STATUSES \<and> (\<exists>r'. live_row j (eff_signature r) = Some r' \<and> eff_id r' \<noteq> i)"
      unfolding conflict_iff live_row_iff [OF assms(1)] using r(2) by (auto simp: is_live_def)
    with Some show ?thesis
      unfolding update_effect_def b rbind_simps u row_of_def
      by (auto simp: update_row_def [abs_def])
  qed
qed

lemma record_commit_eq:
  assumes "journal_ok j" "encodable i" "wf_json v"
  shows "record_commit now i v j =
    (case row_of j i of
       None \<Rightarrow> Inr (False, j)
     | Some r \<Rightarrow>
         if \<exists>r'. live_row j (eff_signature r) = Some r' \<and> eff_id r' \<noteq> i then Inl IntegrityError
         else Inr (True, j\<lparr>effects := map (update_row i (\<lambda>r. r\<lparr>eff_status := EFFECT_COMMITTED,
           eff_result := Some (json_dumps v), eff_error := None, eff_updated := now\<rparr>)) (effects j)\<rparr>))"
proof -
  have live: "EFFECT_COMMITTED \<in> set LIVE_EFFECT_STATUSES" by (simp add: LIVE_EFFECT_STATUSES_def)
  show ?thesis
    unfolding record_commit_def
    by (subst update_effect_result [OF assms(1,2)]) (simp_all add: dumps_encodable assms(3) live split: option.split)
qed

text \<open>
  C16. A commit report depends on who holds the signature, not on the effect's own status. An
  unknown effect changes nothing; an effect whose signature was meanwhile taken by another live
  effect makes the unique index raise \<^verbatim>\<open>sqlite3.IntegrityError\<close>; any other effect becomes
  committed with the reported result, also one that still waits for its approval.
\<close>

theorem record_commit_result:
  assumes "journal_ok j" "encodable i" "wf_json v"
  shows "record_commit now i v j =
    (case row_of j i of
       None \<Rightarrow> Inr (False, j)
     | Some r \<Rightarrow>
         if \<exists>r'. live_row j (eff_signature r) = Some r' \<and> eff_id r' \<noteq> i then Inl IntegrityError
         else Inr (True, j\<lparr>effects := map (update_row i (\<lambda>r. r\<lparr>eff_status := EFFECT_COMMITTED,
           eff_result := Some (json_dumps v), eff_error := None, eff_updated := now\<rparr>)) (effects j)\<rparr>))"
  by (rule record_commit_eq [OF assms])

theorem record_commit_result_witness:
  "\<exists>j. journal_ok j \<and> row_of j (lit ''e1'') \<noteq> None \<and> record_commit (lit ''t'') (lit ''e1'') (JInt 7) j = Inl IntegrityError"
proof -
  let ?c = "\<lambda>i j. create_effect i (lit ''t'') (lit ''org'') (lit ''ses'') (lit ''pay'') 1 (JDict []) (lit ''sig'')
    EFFECT_EXECUTING None (lit ''1.0.0'') None j"
  let ?j1 = "snd (projr (?c (lit ''e1'') empty_journal))"
  let ?j2 = "snd (projr (record_fail (lit ''t'') (lit ''e1'') (lit ''boom'') ?j1))"
  let ?j3 = "snd (projr (?c (lit ''e2'') ?j2))"
  have "?c (lit ''e1'') empty_journal = Inr (Some (lit ''e1''), ?j1)"
    "record_fail (lit ''t'') (lit ''e1'') (lit ''boom'') ?j1 = Inr (True, ?j2)"
    "?c (lit ''e2'') ?j2 = Inr (Some (lit ''e2''), ?j3)"
    by code_simp+
  then have "run journal_step empty_journal [Created (lit ''sig'') (lit ''e1''), Fail (lit ''e1'') (lit ''boom'') True,
      Created (lit ''sig'') (lit ''e2'')] ?j3"
    by (auto intro!: run.intros intro: journal_step.intros)
  then have ok: "journal_ok ?j3" by (rule jl.run_ok) (rule empty_journal_ok)
  have e: "row_of ?j3 (lit ''e1'') \<noteq> None" "map_option eff_signature (row_of ?j3 (lit ''e1'')) = Some (lit ''sig'')"
    "map_option eff_id (live_row ?j3 (lit ''sig'')) = Some (lit ''e2'')" "lit ''e2'' \<noteq> lit ''e1''"
    by code_simp+
  then have "record_commit (lit ''t'') (lit ''e1'') (JInt 7) ?j3 = Inl IntegrityError"
    by (subst record_commit_result [OF ok]) auto
  with ok e show ?thesis by blast
qed

lemma record_replay_eq:
  assumes "journal_ok j" "encodable i"
  shows "record_replay now i j = Inr (row_of j i \<noteq> None, j\<lparr>effects := map (update_row i
    (\<lambda>r. r\<lparr>eff_replays := eff_replays r + 1, eff_last_replayed := Some now, eff_updated := now\<rparr>)) (effects j)\<rparr>)"
proof -
  let ?f = "\<lambda>r. r\<lparr>eff_replays := eff_replays r + 1, eff_last_replayed := Some now, eff_updated := now\<rparr>"
  have b: "bind_text i = Inr ()" using assms(2) by simp
  have d: "distinct (map eff_id ([] @ effects j))" using journal_okD(1) [OF assms(1)] by simp
  note u = update_effects_result [OF d, of ?f i, simplified]
  show ?thesis
  proof (cases "row_of j i")
    case None
    then have "map (update_row i ?f) (effects j) = effects j"
      by (auto simp: row_of_def find_None_iff update_row_def intro!: map_idI)
    with None show ?thesis unfolding record_replay_def b rbind_simps u row_of_def by simp
  next
    case (Some r)
    then have r: "r \<in> set (effects j)" "eff_id r = i" unfolding row_of_def find_Some_iff by auto
    have "\<not> effect_conflict (filter (\<lambda>x. eff_id x \<noteq> i) (effects j)) (?f r)"
    proof
      assume "effect_conflict (filter (\<lambda>x. eff_id x \<noteq> i) (effects j)) (?f r)"
      then obtain x where "x \<in> set (effects j)" "eff_id x \<noteq> i" "is_live r" "is_live x" "eff_signature x = eff_signature r"
        unfolding conflict_iff using r(2) by (auto simp: is_live_def)
      with journal_okD(4) [OF assms(1), of x r] r show False by simp
    qed
    with Some show ?thesis
      unfolding record_replay_def b rbind_simps u row_of_def by (auto simp: update_row_def [abs_def])
  qed
qed

lemma record_fail_eq:
  assumes "journal_ok j" "encodable i" "encodable e"
  shows "record_fail now i e j =
    (case row_of j i of
       None \<Rightarrow> Inr (False, j)
     | Some r \<Rightarrow> Inr (True, j\<lparr>effects := map (update_row i (\<lambda>r. r\<lparr>eff_status := EFFECT_FAILED,
         eff_result := None, eff_error := Some e, eff_updated := now\<rparr>)) (effects j)\<rparr>))"
proof -
  have dead: "EFFECT_FAILED \<notin> set LIVE_EFFECT_STATUSES" by (simp add: LIVE_EFFECT_STATUSES_def)
  show ?thesis
    unfolding record_fail_def
    by (subst update_effect_result [OF assms(1,2)]) (simp_all add: assms(3) dead split: option.split)
qed

lemma record_fail_frees:
  assumes "journal_ok j" "encodable i" "encodable e" "record_fail now i e j = Inr (True, j')"
    and "row_of j i = Some r" "live_row j (eff_signature r) = Some r"
  shows "live_row j' (eff_signature r) = None"
proof -
  let ?f = "\<lambda>r. r\<lparr>eff_status := EFFECT_FAILED, eff_result := None, eff_error := Some e, eff_updated := now\<rparr>"
  have i: "eff_id r = i" using assms(5) unfolding row_of_def find_Some_iff by auto
  have "x = r" if "x \<in> set (effects j)" "eff_signature x = eff_signature r" "is_live x" for x
    using live_row_iff [OF assms(1), of "eff_signature r" x] that assms(6) by simp
  then have freed: "\<not> is_live (update_row i ?f x)" if "x \<in> set (effects j)" "eff_signature x = eff_signature r" for x
    using that i by (auto simp: update_row_def is_live_def LIVE_EFFECT_STATUSES_def)
  have "eff_signature (update_row i ?f x) = eff_signature x" for x
    by (simp add: update_row_def)
  moreover have "j' = j\<lparr>effects := map (update_row i ?f) (effects j)\<rparr>"
    using assms(4,5) record_fail_eq [OF assms(1-3), of now] by simp
  ultimately show ?thesis using freed unfolding live_row_None by auto
qed

text \<open>
  A failure report always succeeds on a known effect: it becomes failed, its result is
  dropped, and its signature is free again if it held it. So a report that arrives late, after
  the commit, erases a committed result.
\<close>

theorem record_fail_result:
  assumes "journal_ok j" "encodable i" "encodable e"
  shows "record_fail now i e j =
    (case row_of j i of
       None \<Rightarrow> Inr (False, j)
     | Some r \<Rightarrow> Inr (True, j\<lparr>effects := map (update_row i (\<lambda>r. r\<lparr>eff_status := EFFECT_FAILED,
         eff_result := None, eff_error := Some e, eff_updated := now\<rparr>)) (effects j)\<rparr>)) \<and>
    (record_fail now i e j = Inr (True, j') \<longrightarrow> row_of j i = Some r \<longrightarrow> live_row j (eff_signature r) = Some r \<longrightarrow>
       live_row j' (eff_signature r) = None)"
  using record_fail_eq [OF assms] record_fail_frees [OF assms] by blast

theorem record_fail_result_witness:
  "\<exists>j j'. run journal_step empty_journal [Created (lit ''sig'') (lit ''e1''), Commit (lit ''e1'') (JInt 7) True] j \<and>
     record_fail (lit ''t'') (lit ''e1'') (lit ''late'') j = Inr (True, j') \<and> live_row j' (lit ''sig'') = None"
proof -
  let ?c = "create_effect (lit ''e1'') (lit ''t'') (lit ''org'') (lit ''ses'') (lit ''pay'') 1 (JDict []) (lit ''sig'')
    EFFECT_EXECUTING None (lit ''1.0.0'') None empty_journal"
  let ?j1 = "snd (projr ?c)"
  let ?j2 = "snd (projr (record_commit (lit ''t'') (lit ''e1'') (JInt 7) ?j1))"
  let ?j3 = "snd (projr (record_fail (lit ''t'') (lit ''e1'') (lit ''late'') ?j2))"
  let ?r = "the (row_of ?j2 (lit ''e1''))"
  have e: "?c = Inr (Some (lit ''e1''), ?j1)"
    "record_commit (lit ''t'') (lit ''e1'') (JInt 7) ?j1 = Inr (True, ?j2)"
    "record_fail (lit ''t'') (lit ''e1'') (lit ''late'') ?j2 = Inr (True, ?j3)"
    "row_of ?j2 (lit ''e1'') = Some ?r" "live_row ?j2 (eff_signature ?r) = Some ?r" "eff_signature ?r = lit ''sig''"
    by code_simp+
  then have r: "run journal_step empty_journal [Created (lit ''sig'') (lit ''e1''), Commit (lit ''e1'') (JInt 7) True] ?j2"
    by (auto intro!: run.intros intro: journal_step.intros)
  have "journal_ok ?j2" using jl.run_ok [OF r empty_journal_ok] .
  note fail = record_fail_result [OF this, where i = "lit ''e1''" and e = "lit ''late''" and now = "lit ''t''" and j' = ?j3 and r = ?r,
      OF lit_encodable lit_encodable]
  have "live_row ?j3 (eff_signature ?r) = None"
    by (rule fail [THEN conjunct2, THEN mp, THEN mp, THEN mp, OF e(3) e(4) e(5)])
  then have "live_row ?j3 (lit ''sig'') = None" unfolding e(6) .
  with r e(3) show ?thesis by blast
qed

section \<open>Approvals\<close>

text \<open>
  C17. The first decision on an approval wins. Resolving a pending approval sets its state and
  resolution time and touches no other row; a second decision of either kind, whether it comes
  later or lost the race, returns \<^verbatim>\<open>False\<close> and leaves the journal as it is.
\<close>

theorem resolve_approval_once:
  assumes "resolve_approval now a st j = Inr (True, j')" "st \<noteq> APPROVAL_PENDING" "encodable st'"
  shows "effects j' = effects j \<and>
    approvals j' = map (\<lambda>x. if app_id x = a \<and> app_status x = APPROVAL_PENDING
      then x\<lparr>app_status := st, app_resolved := Some now\<rparr> else x) (approvals j) \<and>
    resolve_approval now' a st' j' = Inr (False, j')"
proof -
  define u :: "approval_row \<Rightarrow> approval_row" where "u = (\<lambda>x. if app_id x = a \<and> app_status x = APPROVAL_PENDING
      then x\<lparr>app_status := st, app_resolved := Some now\<rparr> else x)"
  have j': "j' = j\<lparr>approvals := map u (approvals j)\<rparr>" and a: "encodable a"
    using assms(1) by (simp_all add: resolve_approval_Inr u_def)
  have no: "\<not> (app_id x = a \<and> app_status x = APPROVAL_PENDING)" if "x \<in> set (approvals j')" for x
  proof -
    from that obtain y where y: "x = u y" unfolding j' by auto
    show ?thesis unfolding y u_def using assms(2) by simp
  qed
  have same: "map (\<lambda>x. if app_id x = a \<and> app_status x = APPROVAL_PENDING
      then x\<lparr>app_status := st', app_resolved := Some now'\<rparr> else x) (approvals j') = approvals j'"
    by (rule map_idI, rule if_not_P, rule no)
  have none: "list_ex (\<lambda>x. app_id x = a \<and> app_status x = APPROVAL_PENDING) (approvals j') = False"
    unfolding list_ex_iff using no by blast
  have "resolve_approval now' a st' j' = Inr (False, j')"
    unfolding resolve_approval_Inr same none using a assms(3) by simp
  moreover have "effects j' = effects j" "approvals j' = map u (approvals j)" by (simp_all add: j')
  ultimately show ?thesis unfolding u_def by blast
qed

theorem resolve_approval_once_witness:
  "\<exists>j j'. resolve_approval (lit ''t1'') (lit ''a1'') APPROVAL_APPROVED j = Inr (True, j') \<and>
     resolve_approval (lit ''t2'') (lit ''a1'') APPROVAL_REJECTED j' = Inr (False, j')"
proof -
  let ?c = "create_effect (lit ''e1'') (lit ''t'') (lit ''org'') (lit ''ses'') (lit ''drop_db'') 1 (JDict []) (lit ''sig'')
    EFFECT_AWAITING_APPROVAL (Some (lit ''a1'')) (lit ''1.0.0'') None empty_journal"
  let ?j1 = "snd (projr ?c)"
  let ?j2 = "snd (projr (resolve_approval (lit ''t1'') (lit ''a1'') APPROVAL_APPROVED ?j1))"
  have e: "resolve_approval (lit ''t1'') (lit ''a1'') APPROVAL_APPROVED ?j1 = Inr (True, ?j2)"
    "APPROVAL_APPROVED \<noteq> APPROVAL_PENDING" "encodable APPROVAL_REJECTED"
    by code_simp+
  from resolve_approval_once [OF this] e show ?thesis by blast
qed

end
