(* ===== verification/Broadcaster.thy ===== *)
theory Broadcaster
  imports FloatRead
begin

text \<open>
  The event stream of the dev server (\<^verbatim>\<open>_EventBroadcaster\<close> and
  \<^verbatim>\<open>_format_sse_frame\<close> of \<^verbatim>\<open>dev.py\<close>). A subscription is the index of its queue.
  Publishing takes a snapshot of the subscribers under the lock and then offers the event to
  each queue, and closing does the same with the end marker, so both are sequences of atomic
  steps that other threads may interleave with.
\<close>

section \<open>Queues and subscribers\<close>

definition SSE_QUEUE_SIZE :: nat where
  "SSE_QUEUE_SIZE = 128"

text \<open>An event: \<^verbatim>\<open>_emit\<close> puts the type first and the other keys behind it.\<close>

record envelope =
  env_type :: pystr
  env_rest :: "json dict"

definition envelope_dict :: "envelope \<Rightarrow> json dict" where
  "envelope_dict e = (lit ''type'', JStr (env_type e)) # env_rest e"

text \<open>
  \<open>queues\<close> holds every queue ever handed out; \<open>None\<close> in one is the end marker.
  \<open>subscribers\<close> is the set of registered ones, in some order.
\<close>

record broadcaster =
  queues :: "envelope option list list"
  subscribers :: "nat list"
  bc_closed :: bool

definition broadcaster_init :: broadcaster where
  "broadcaster_init = \<lparr>queues = [], subscribers = [], bc_closed = False\<rparr>"

definition subscribe :: "broadcaster \<Rightarrow> nat \<times> broadcaster" where
  "subscribe b =
     (let subscription = length (queues b) in
      (subscription,
       if bc_closed b then b\<lparr>queues := queues b @ [[None]]\<rparr>
       else b\<lparr>queues := queues b @ [[]], subscribers := subscribers b @ [subscription]\<rparr>))"

definition unsubscribe :: "nat \<Rightarrow> broadcaster \<Rightarrow> broadcaster" where
  "unsubscribe q b = b\<lparr>subscribers := removeAll q (subscribers b)\<rparr>"

text \<open>\<^verbatim>\<open>put_nowait\<close>, with \<^verbatim>\<open>queue.Full\<close> caught: the event is dropped.\<close>

definition offer :: "nat \<Rightarrow> envelope \<Rightarrow> broadcaster \<Rightarrow> broadcaster" where
  "offer q e b =
     (if q < length (queues b) \<and> length (queues b ! q) < SSE_QUEUE_SIZE
      then b\<lparr>queues := (queues b)[q := queues b ! q @ [Some e]]\<rparr> else b)"

text \<open>The whole of \<^verbatim>\<open>emit\<close>, when no other thread comes between.\<close>

definition emit :: "envelope \<Rightarrow> broadcaster \<Rightarrow> broadcaster" where
  "emit e b = foldl (\<lambda>b q. offer q e b) b (subscribers b)"

text \<open>The locked part of \<^verbatim>\<open>close\<close>, and its blocking \<^verbatim>\<open>put(None)\<close>: \<open>None\<close> while the queue is full.\<close>

definition close_begin :: "broadcaster \<Rightarrow> nat list \<times> broadcaster" where
  "close_begin b = (subscribers b, b\<lparr>bc_closed := True, subscribers := []\<rparr>)"

definition put_end :: "nat \<Rightarrow> broadcaster \<Rightarrow> broadcaster option" where
  "put_end q b =
     (if q < length (queues b) \<and> length (queues b ! q) < SSE_QUEUE_SIZE
      then Some (b\<lparr>queues := (queues b)[q := queues b ! q @ [None]]\<rparr>) else None)"

fun put_ends :: "nat list \<Rightarrow> broadcaster \<Rightarrow> broadcaster option" where
  "put_ends [] b = Some b"
| "put_ends (q # qs) b = (case put_end q b of None \<Rightarrow> None | Some b' \<Rightarrow> put_ends qs b')"

text \<open>The whole of \<^verbatim>\<open>close\<close> when no reader takes an event meanwhile: \<open>None\<close> if it blocks.\<close>

definition close :: "broadcaster \<Rightarrow> broadcaster option" where
  "close b = (let (qs, b') = close_begin b in put_ends qs b')"

text \<open>\<^verbatim>\<open>get(timeout=...)\<close>: \<open>None\<close> is \<^verbatim>\<open>queue.Empty\<close>.\<close>

definition get_event :: "nat \<Rightarrow> broadcaster \<Rightarrow> (envelope option \<times> broadcaster) option" where
  "get_event q b =
     (if q < length (queues b) then
        (case queues b ! q of
           [] \<Rightarrow> None
         | x # xs \<Rightarrow> Some (x, b\<lparr>queues := (queues b)[q := xs]\<rparr>))
      else None)"

section \<open>Frames\<close>

definition STANDARD_EVENT_ALIASES :: "(pystr \<times> pystr) list" where
  "STANDARD_EVENT_ALIASES =
     [(lit ''effect_intercepted'', lit ''effect_created''),
      (lit ''approval_required'', lit ''approval_requested''),
      (lit ''approval_approved'', lit ''approval_resolved''),
      (lit ''approval_rejected'', lit ''approval_resolved'')]"

definition aliased :: "bool \<Rightarrow> envelope \<Rightarrow> envelope" where
  "aliased alias e =
     (case map_of STANDARD_EVENT_ALIASES (env_type e) of
        None \<Rightarrow> e
      | Some t \<Rightarrow> if alias then e\<lparr>env_type := t\<rparr> else e)"

definition format_sse_frame :: "nat \<Rightarrow> envelope \<Rightarrow> bool \<Rightarrow> pystr" where
  "format_sse_frame time_ns envelope alias =
     (let e = aliased alias envelope in
      lit ''event: '' @ env_type e @ [10] @ lit ''id: '' @ show_nat time_ns @ [10] @
      lit ''data: '' @ json_dumps (JDict (envelope_dict e)) @ [10, 10])"

section \<open>Steps\<close>

text \<open>
  What threads do to the broadcaster, one atomic step at a time. An \<open>Offer\<close> or an \<open>End\<close> goes to
  a queue of an earlier snapshot, which may have been unsubscribed since.
\<close>

datatype bc_event =
    Subscribe nat
  | Unsubscribe nat
  | Offer nat envelope
  | CloseBegin
  | End nat
  | Got nat "envelope option"

inductive bc_step :: "broadcaster \<Rightarrow> bc_event \<Rightarrow> broadcaster \<Rightarrow> bool" where
  bc_subscribe: "subscribe b = (q, b') \<Longrightarrow> bc_step b (Subscribe q) b'"
| bc_unsubscribe: "bc_step b (Unsubscribe q) (unsubscribe q b)"
| bc_offer: "bc_step b (Offer q e) (offer q e b)"
| bc_close: "close_begin b = (qs, b') \<Longrightarrow> bc_step b CloseBegin b'"
| bc_end: "put_end q b = Some b' \<Longrightarrow> bc_step b (End q) b'"
| bc_get: "get_event q b = Some (x, b') \<Longrightarrow> bc_step b (Got q x) b'"

inductive_cases bc_stepE: "bc_step b ev b'"

text \<open>What an event offers to one queue, and what it takes from it.\<close>

fun offers_to :: "nat \<Rightarrow> bc_event \<Rightarrow> envelope option option" where
  "offers_to q (Offer q' e) = (if q' = q then Some (Some e) else None)"
| "offers_to q (End q') = (if q' = q then Some None else None)"
| "offers_to q _ = None"

fun takes_from :: "nat \<Rightarrow> bc_event \<Rightarrow> envelope option option" where
  "takes_from q (Got q' x) = (if q' = q then Some x else None)"
| "takes_from q _ = None"

definition bounded :: "broadcaster \<Rightarrow> bool" where
  "bounded b \<longleftrightarrow> list_all (\<lambda>xs. length xs \<le> SSE_QUEUE_SIZE) (queues b) \<and>
     distinct (subscribers b) \<and> list_all (\<lambda>q. q < length (queues b)) (subscribers b) \<and>
     (bc_closed b \<longrightarrow> subscribers b = [])"

section \<open>Bounded channels\<close>

text \<open>
  What a bounded queue accepts of a sequence of events, when \<open>n\<close> elements wait in it at first: an
  offer is accepted unless \<open>cap\<close> elements wait, and each taken element makes room for one.
\<close>

fun accepted :: "('e \<Rightarrow> 'a option) \<Rightarrow> ('e \<Rightarrow> 'a option) \<Rightarrow> nat \<Rightarrow> nat \<Rightarrow> 'e list \<Rightarrow> 'a list" where
  "accepted offers takes cap n [] = []"
| "accepted offers takes cap n (e # evs) =
     (case offers e of
        Some x \<Rightarrow> if n < cap then x # accepted offers takes cap (Suc n) evs else accepted offers takes cap n evs
      | None \<Rightarrow> accepted offers takes cap (if takes e = None then n else n - 1) evs)"

text \<open>
  What a reader and a writer of one queue rely on: an offer is accepted unless the queue is
  full, taking an element takes the oldest, and nothing else touches the queue.
\<close>

locale channel =
  fixes ok :: "'s \<Rightarrow> bool" and contents :: "'s \<Rightarrow> 'a list"
    and step :: "'s \<Rightarrow> 'e \<Rightarrow> 's \<Rightarrow> bool"
    and offers :: "'e \<Rightarrow> 'a option" and takes :: "'e \<Rightarrow> 'a option" and cap :: nat
  assumes step_ok: "step s e s' \<Longrightarrow> ok s \<Longrightarrow> ok s'"
    and offer_step: "ok s \<Longrightarrow> step s e s' \<Longrightarrow> offers e = Some x \<Longrightarrow>
      contents s' = (if length (contents s) < cap then contents s @ [x] else contents s) \<and> takes e = None"
    and take_step: "ok s \<Longrightarrow> step s e s' \<Longrightarrow> takes e = Some x \<Longrightarrow> contents s = x # contents s'"
    and other_step: "ok s \<Longrightarrow> step s e s' \<Longrightarrow> offers e = None \<Longrightarrow> takes e = None \<Longrightarrow>
      contents s' = contents s"
    and within_cap: "ok s \<Longrightarrow> length (contents s) \<le> cap"
begin

abbreviation offered :: "'e list \<Rightarrow> 'a list" where
  "offered \<equiv> List.map_filter offers"

abbreviation taken :: "'e list \<Rightarrow> 'a list" where
  "taken \<equiv> List.map_filter takes"

lemma run_ok: "run step s evs s' \<Longrightarrow> ok s \<Longrightarrow> ok s'"
  by (induction rule: run.induct) (auto intro: step_ok)

lemma map_filter_snoc:
  "List.map_filter f (xs @ [x]) = List.map_filter f xs @ (case f x of None \<Rightarrow> [] | Some y \<Rightarrow> [y])"
  by (simp add: map_filter_def split: option.split)

text \<open>What is taken, and then what is left, is what waited at first and then what was accepted.\<close>

lemma exact:
  "run step s evs s' \<Longrightarrow> ok s \<Longrightarrow>
     taken evs @ contents s' = contents s @ accepted offers takes cap (length (contents s)) evs"
proof (induction rule: run.induct)
  case (run_Nil s)
  then show ?case by (simp add: map_filter_def)
next
  case (run_Cons s e t evs s')
  have IH: "taken evs @ contents s' = contents t @ accepted offers takes cap (length (contents t)) evs"
    using run_Cons step_ok by blast
  note st = offer_step [OF run_Cons.prems run_Cons.hyps(1)] take_step [OF run_Cons.prems run_Cons.hyps(1)]
    other_step [OF run_Cons.prems run_Cons.hyps(1)]
  show ?case
  proof (cases "offers e")
    case None
    then show ?thesis using IH st(2,3) by (cases "takes e") (auto simp: map_filter_simps)
  next
    case (Some x)
    then show ?thesis using IH st(1) [OF Some] by (simp add: map_filter_simps)
  qed
qed

text \<open>A reader that is never more than the capacity behind misses nothing.\<close>

lemma lossless:
  "run step s evs s' \<Longrightarrow> ok s \<Longrightarrow>
     \<forall>ys. prefix ys evs \<longrightarrow> length (contents s) + length (offered ys) \<le> length (taken ys) + cap \<Longrightarrow>
     taken evs @ contents s' = contents s @ offered evs"
proof (induction evs arbitrary: s' rule: rev_induct)
  case Nil
  then show ?case by (auto elim: run_NilE simp: map_filter_def)
next
  case (snoc e evs)
  then obtain t where t: "run step s evs t" "step t e s'" by (auto simp: run_snoc)
  have ok: "ok t" using run_ok [OF t(1) snoc.prems(2)] .
  note st = offer_step [OF ok t(2)] take_step [OF ok t(2)] other_step [OF ok t(2)]
  have IH: "taken evs @ contents t = contents s @ offered evs"
    using snoc.IH [OF t(1) snoc.prems(2)] snoc.prems(3) by auto
  from arg_cong [OF this, where f = length]
  have len: "length (taken evs) + length (contents t) = length (contents s) + length (offered evs)" by simp
  show ?case
  proof (cases "offers e")
    case None
    then show ?thesis
      using st(2,3) IH by (cases "takes e") (auto simp: map_filter_snoc)
  next
    case (Some x)
    have "length (contents s) + length (offered (evs @ [e])) \<le> length (taken (evs @ [e])) + cap"
      using snoc.prems(3) by blast
    then have "length (contents t) < cap"
      using Some st(1) [OF Some] len by (simp add: map_filter_snoc)
    with Some st(1) [OF Some] IH show ?thesis by (simp add: map_filter_snoc)
  qed
qed

end

section \<open>The queue of a subscriber is such a channel\<close>

lemma list_all_update: "list_all P xs \<Longrightarrow> P x \<Longrightarrow> list_all P (xs[i := x])"
  using set_update_subset_insert [of xs i x] by (auto simp: list_all_iff)

lemma bounded_length: "bounded b \<Longrightarrow> q < length (queues b) \<Longrightarrow> length (queues b ! q) \<le> SSE_QUEUE_SIZE"
  by (simp add: bounded_def list_all_length)

lemma bounded_offer:
  assumes "bounded b" "length (queues b ! q) < SSE_QUEUE_SIZE"
  shows "bounded (b\<lparr>queues := (queues b)[q := queues b ! q @ [x]]\<rparr>)"
  using assms by (auto simp: bounded_def intro: list_all_update)

lemma bc_step_bounded: "bc_step b ev b' \<Longrightarrow> bounded b \<Longrightarrow> bounded b'"
proof (induction rule: bc_step.induct)
  case (bc_subscribe b q b')
  then show ?case
    by (cases "bc_closed b") (auto simp: subscribe_def bounded_def Let_def SSE_QUEUE_SIZE_def list_all_iff less_Suc_eq)
next
  case (bc_unsubscribe b q)
  then show ?case by (auto simp: unsubscribe_def bounded_def distinct_removeAll list_all_iff)
next
  case (bc_offer b q e)
  then show ?case by (simp add: offer_def bounded_offer)
next
  case (bc_close b qs b')
  then show ?case by (auto simp: close_begin_def bounded_def)
next
  case (bc_end q b b')
  then show ?case by (auto simp: put_end_def bounded_offer split: if_splits)
next
  case (bc_get q b x b')
  then obtain xs where "q < length (queues b)" "queues b ! q = x # xs" "b' = b\<lparr>queues := (queues b)[q := xs]\<rparr>"
    by (auto simp: get_event_def split: if_splits list.splits)
  with bounded_length [OF bc_get(2), of q] bc_get(2) show ?case
    by (auto simp: bounded_def intro: list_all_update)
qed

lemma bc_step_queues: "bc_step b ev b' \<Longrightarrow> length (queues b) \<le> length (queues b')"
  by (induction rule: bc_step.induct)
    (auto simp: subscribe_def unsubscribe_def offer_def close_begin_def put_end_def get_event_def Let_def
      split: if_splits list.splits)

interpretation sub: channel "\<lambda>b. bounded b \<and> q < length (queues b)" "\<lambda>b. queues b ! q" bc_step
  "offers_to q" "takes_from q" SSE_QUEUE_SIZE for q
proof
  fix b ev b' x
  show "bc_step b ev b' \<Longrightarrow> bounded b \<and> q < length (queues b) \<Longrightarrow> bounded b' \<and> q < length (queues b')"
    using bc_step_bounded bc_step_queues by fastforce
  show "bounded b \<and> q < length (queues b) \<Longrightarrow> length (queues b ! q) \<le> SSE_QUEUE_SIZE"
    using bounded_length by blast
  assume q: "bounded b \<and> q < length (queues b)" and st: "bc_step b ev b'"
  show "offers_to q ev = Some x \<Longrightarrow> queues b' ! q =
      (if length (queues b ! q) < SSE_QUEUE_SIZE then queues b ! q @ [x] else queues b ! q) \<and> takes_from q ev = None"
    using st q by (cases rule: bc_stepE) (auto simp: offer_def put_end_def split: if_splits)
  show "takes_from q ev = Some x \<Longrightarrow> queues b ! q = x # queues b' ! q"
    using st q by (cases rule: bc_stepE) (auto simp: get_event_def split: if_splits list.splits)
  show "offers_to q ev = None \<Longrightarrow> takes_from q ev = None \<Longrightarrow> queues b' ! q = queues b ! q"
    using st q by (cases rule: bc_stepE)
      (auto simp: subscribe_def unsubscribe_def offer_def close_begin_def put_end_def get_event_def Let_def
        nth_append split: if_splits list.splits)
qed

text \<open>Publishing offers the event once to each subscriber.\<close>

lemma offers_queue:
  "distinct qs \<Longrightarrow> q < length (queues b) \<Longrightarrow> queues (foldl (\<lambda>b q. offer q e b) b qs) ! q =
     queues b ! q @ (if q \<in> set qs \<and> length (queues b ! q) < SSE_QUEUE_SIZE then [Some e] else [])"
proof (induction qs arbitrary: b)
  case (Cons p qs)
  have "length (queues (offer p e b)) = length (queues b)"
    "queues (offer p e b) ! q = queues b ! q @ (if q = p \<and> length (queues b ! q) < SSE_QUEUE_SIZE then [Some e] else [])"
    using Cons.prems(2) by (auto simp: offer_def)
  with Cons show ?case by auto
qed simp

lemma emit_queue:
  "bounded b \<Longrightarrow> q < length (queues b) \<Longrightarrow> queues (emit e b) ! q =
     queues b ! q @ (if q \<in> set (subscribers b) \<and> length (queues b ! q) < SSE_QUEUE_SIZE then [Some e] else [])"
  by (simp add: emit_def offers_queue bounded_def)

text \<open>
  C26. However threads interleave, a subscriber reads exactly the events that its queue accepted,
  in their order: what was read and then what waits is what waited at first and then the
  accepted offers. An offer is accepted unless 128 events wait, and then it is that offer which
  is dropped. A reader that is never more than 128 events behind receives every event. Publishing
  an event offers it once to each subscriber and to no other queue.
\<close>

theorem event_stream_fifo:
  assumes "bounded b" "q < length (queues b)" "run bc_step b evs b'"
  shows "List.map_filter (takes_from q) evs @ queues b' ! q =
      queues b ! q @ accepted (offers_to q) (takes_from q) 128 (length (queues b ! q)) evs \<and>
    length (queues b' ! q) \<le> 128 \<and>
    ((\<forall>ys. prefix ys evs \<longrightarrow> length (queues b ! q) + length (List.map_filter (offers_to q) ys)
        \<le> length (List.map_filter (takes_from q) ys) + 128) \<longrightarrow>
      List.map_filter (takes_from q) evs @ queues b' ! q = queues b ! q @ List.map_filter (offers_to q) evs) \<and>
    queues (emit e b') ! q = queues b' ! q @
      (if q \<in> set (subscribers b') \<and> length (queues b' ! q) < 128 then [Some e] else [])"
proof -
  have "bounded b' \<and> q < length (queues b')" using sub.run_ok [OF assms(3)] assms(1,2) by blast
  then show ?thesis
    using sub.exact [OF assms(3), of q] sub.lossless [OF assms(3), of q] sub.within_cap [of b' q] emit_queue [of b' q e] assms(1,2)
    by (simp add: SSE_QUEUE_SIZE_def)
qed

theorem event_stream_fifo_witness:
  "\<exists>b'. run bc_step broadcaster_init [Subscribe 0, Offer 0 \<lparr>env_type = lit ''e'', env_rest = []\<rparr>,
       Got 0 (Some \<lparr>env_type = lit ''e'', env_rest = []\<rparr>)] b' \<and> queues b' ! 0 = []"
proof -
  let ?e = "\<lparr>env_type = lit ''e'', env_rest = []\<rparr>"
  let ?b = "snd (subscribe broadcaster_init)"
  let ?c = "offer 0 ?e ?b"
  have b: "bounded ?b" "0 < length (queues ?b)" "queues ?b ! 0 = []" "subscribe broadcaster_init = (0, ?b)"
    "get_event 0 ?c = Some (Some ?e, ?b)"
    by code_simp+
  then have r: "run bc_step ?b [Offer 0 ?e, Got 0 (Some ?e)] ?b"
    by (auto intro!: run.intros intro: bc_step.intros)
  have "length (queues ?b ! 0) \<le> 128"
    using event_stream_fifo [OF b(1,2) r, of ?e] by blast
  moreover have "run bc_step broadcaster_init [Subscribe 0, Offer 0 ?e, Got 0 (Some ?e)] ?b"
    using run_Cons [where step = bc_step, OF bc_subscribe [OF b(4)] r] .
  ultimately show ?thesis using b(3) by blast
qed

section \<open>Shutdown\<close>

lemma put_ends_result:
  "distinct qs \<Longrightarrow> list_all (\<lambda>q. q < length (queues b)) qs \<Longrightarrow>
   (if list_ex (\<lambda>q. SSE_QUEUE_SIZE \<le> length (queues b ! q)) qs then put_ends qs b = None
    else \<exists>b'. put_ends qs b = Some b' \<and> length (queues b') = length (queues b) \<and>
      bc_closed b' = bc_closed b \<and> subscribers b' = subscribers b \<and>
      (\<forall>q < length (queues b). queues b' ! q = queues b ! q @ (if q \<in> set qs then [None] else [])))"
proof (induction qs arbitrary: b)
  case Nil
  then show ?case by simp
next
  case (Cons q qs)
  show ?case
  proof (cases "length (queues b ! q) < SSE_QUEUE_SIZE")
    case True
    let ?b = "b\<lparr>queues := (queues b)[q := queues b ! q @ [None]]\<rparr>"
    have "queues ?b ! p = queues b ! p" if "p \<in> set qs" for p
      using that Cons.prems(1) by (cases "p = q") simp_all
    then have "list_ex (\<lambda>q. SSE_QUEUE_SIZE \<le> length (queues ?b ! q)) qs \<longleftrightarrow>
        list_ex (\<lambda>q. SSE_QUEUE_SIZE \<le> length (queues b ! q)) qs"
      unfolding list_ex_iff by (intro bex_cong) simp_all
    moreover have "put_ends (q # qs) b = put_ends qs ?b"
      using True Cons.prems(2) by (simp add: put_end_def)
    ultimately show ?thesis
      using Cons.IH [of ?b] Cons.prems True by (auto simp: nth_list_update)
  next
    case False
    then show ?thesis by (simp add: put_end_def)
  qed
qed

lemma close_result:
  assumes "bounded b"
  shows "(case close b of
      None \<Rightarrow> \<exists>q \<in> set (subscribers b). length (queues b ! q) = 128
    | Some b' \<Rightarrow> (\<forall>q \<in> set (subscribers b). length (queues b ! q) < 128) \<and> bc_closed b' \<and> subscribers b' = [] \<and>
        (\<forall>q < length (queues b). queues b' ! q = queues b ! q @ (if q \<in> set (subscribers b) then [None] else [])) \<and>
        (\<exists>b''. subscribe b' = (length (queues b), b'') \<and> queues b'' ! length (queues b) = [None]))"
proof -
  let ?b = "b\<lparr>bc_closed := True, subscribers := []\<rparr>"
  have c: "close b = put_ends (subscribers b) ?b" by (simp add: close_def close_begin_def)
  have d: "distinct (subscribers b)" "list_all (\<lambda>q. q < length (queues ?b)) (subscribers b)"
    using assms by (auto simp: bounded_def)
  have full: "list_ex (\<lambda>q. SSE_QUEUE_SIZE \<le> length (queues ?b ! q)) (subscribers b) \<longleftrightarrow>
      (\<exists>q \<in> set (subscribers b). length (queues b ! q) = 128)"
    unfolding list_ex_iff
  proof (rule bex_cong)
    fix q assume "q \<in> set (subscribers b)"
    then have "length (queues b ! q) \<le> 128"
      using bounded_length [OF assms] d(2) by (simp add: list_all_iff SSE_QUEUE_SIZE_def)
    then show "SSE_QUEUE_SIZE \<le> length (queues ?b ! q) \<longleftrightarrow> length (queues b ! q) = 128"
      by (auto simp: SSE_QUEUE_SIZE_def)
  qed simp
  note r = put_ends_result [OF d, unfolded full]
  show ?thesis
  proof (cases "\<exists>q \<in> set (subscribers b). length (queues b ! q) = 128")
    case True
    with r c show ?thesis by simp
  next
    case False
    with r obtain b' where b': "close b = Some b'" "length (queues b') = length (queues b)" "bc_closed b'"
        "subscribers b' = []" "\<forall>q < length (queues b).
          queues b' ! q = queues b ! q @ (if q \<in> set (subscribers b) then [None] else [])"
      unfolding c by auto
    have "length (queues b ! q) < 128" if "q \<in> set (subscribers b)" for q
      using that False bounded_length [OF assms, of q] d(2) by (force simp: list_all_iff SSE_QUEUE_SIZE_def)
    then show ?thesis
      using b' by (simp add: subscribe_def Let_def nth_append)
  qed
qed

text \<open>
   Closing releases every subscriber: each one finds the end marker behind the events it has
  still to read, a later subscriber finds it at once, and no subscriber is left. It completes
  without waiting for a reader exactly when no subscriber's queue is full.
\<close>

theorem close_releases:
  assumes "bounded b"
  shows "(case close b of
      None \<Rightarrow> \<exists>q \<in> set (subscribers b). length (queues b ! q) = 128
    | Some b' \<Rightarrow> (\<forall>q \<in> set (subscribers b). length (queues b ! q) < 128) \<and> bc_closed b' \<and> subscribers b' = [] \<and>
        (\<forall>q < length (queues b). queues b' ! q = queues b ! q @ (if q \<in> set (subscribers b) then [None] else [])) \<and>
        (\<exists>b''. subscribe b' = (length (queues b), b'') \<and> queues b'' ! length (queues b) = [None]))"
  by (rule close_result [OF assms])

theorem close_releases_witness:
  "\<exists>b'. close (snd (subscribe broadcaster_init)) = Some b' \<and> bc_closed b' \<and> queues b' ! 0 = [None]"
proof -
  let ?b = "snd (subscribe broadcaster_init)"
  have e: "bounded ?b" "close ?b \<noteq> None" "0 < length (queues ?b)" "queues ?b ! 0 = []" "0 \<in> set (subscribers ?b)"
    by code_simp+
  from e(2) obtain b' where b': "close ?b = Some b'" by blast
  have "bc_closed b'" "queues b' ! 0 = [None]"
    using close_releases [OF e(1), unfolded b' option.case] e(3-5) by simp_all
  with b' show ?thesis by blast
qed

section \<open>Frames read back\<close>

text \<open>
  How an event-stream client reads a frame: the lines up to the empty one, each a field name
  and a value behind a colon and a space.
\<close>

definition sse_fields :: "pystr \<Rightarrow> (pystr \<times> pystr) list" where
  "sse_fields s =
     map (\<lambda>l. let (name, _, v) = py_partition 58 l in (name, drop 1 v))
       (takeWhile (\<lambda>l. l \<noteq> []) (py_split 10 s))"

lemma field_line: "58 \<notin> set n \<Longrightarrow> py_partition 58 (n @ 58 # v) = (n, [58], v)"
  by (induction n) (auto simp: py_partition_def)

lemma sse_fields_line:
  assumes "58 \<notin> set n" "10 \<notin> set n" "10 \<notin> set v"
  shows "sse_fields (n @ 58 # 32 # v @ 10 # r) = (n, v) # sse_fields r"
  using assms py_split_part [of 10 "n @ 58 # 32 # v" r] by (simp add: sse_fields_def field_line)

lemma sse_fields_end: "sse_fields (10 # r) = []"
  by (simp add: sse_fields_def)

lemma aliased_type:
  "env_rest (aliased alias e) = env_rest e \<and> (env_type (aliased alias e) = env_type e \<or>
     env_type (aliased alias e) \<in> {lit ''effect_created'', lit ''approval_requested'', lit ''approval_resolved''})"
  by (cases "map_of STANDARD_EVENT_ALIASES (env_type e)")
    (auto simp: aliased_def STANDARD_EVENT_ALIASES_def split: if_splits)

lemma frame_names:
  "10 \<notin> set (lit ''effect_created'')" "10 \<notin> set (lit ''approval_requested'')" "10 \<notin> set (lit ''approval_resolved'')"
  "10 \<notin> set (lit ''event'')" "10 \<notin> set (lit ''id'')" "10 \<notin> set (lit ''data'')"
  "58 \<notin> set (lit ''event'')" "58 \<notin> set (lit ''id'')" "58 \<notin> set (lit ''data'')"
  by (simp_all add: lit_def)

lemma dumps_one_line: "wf_json v \<Longrightarrow> 10 \<notin> set (json_dumps v)"
  using dumps_ascii by fastforce

text \<open>
  C27. An event survives the stream: a client that splits the frame into fields finds the event
  name, the publish time and a data line that decodes to the very envelope, with the type
  renamed to its alias when the client asked for aliases and the type has one.
\<close>

theorem sse_frame_roundtrip:
  assumes "doubles rt (JDict (env_rest e))" "wf_json (JDict (envelope_dict e))" "10 \<notin> set (env_type e)"
  shows "\<exists>d. sse_fields (format_sse_frame t e alias) =
      [(lit ''event'', env_type (aliased alias e)), (lit ''id'', show_nat t), (lit ''data'', d)] \<and>
    json_loads rt d = Inr (JDict (envelope_dict (aliased alias e))) \<and>
    env_rest (aliased alias e) = env_rest e"
proof -
  let ?e = "aliased alias e"
  have t: "10 \<notin> set (env_type ?e)" "wf_str (env_type ?e)" "env_rest ?e = env_rest e"
    using assms(2,3) aliased_type [of "alias" e] by (auto simp: envelope_dict_def frame_names)
  then have w: "wf_json (JDict (envelope_dict ?e))"
    using assms(2) by (simp add: envelope_dict_def dict_keys_ok_def)
  have f: "format_sse_frame t e alias = lit ''event'' @ 58 # 32 # env_type ?e @ 10 #
      lit ''id'' @ 58 # 32 # show_nat t @ 10 # lit ''data'' @ 58 # 32 # json_dumps (JDict (envelope_dict ?e)) @ 10 # [10]"
    by (simp add: format_sse_frame_def Let_def lit_def)
  have "10 \<notin> set (show_nat t)" by (auto dest: show_nat_digits)
  then have f': "sse_fields (format_sse_frame t e alias) =
      [(lit ''event'', env_type ?e), (lit ''id'', show_nat t), (lit ''data'', json_dumps (JDict (envelope_dict ?e)))]"
    unfolding f using t(1) dumps_one_line [OF w]
    by (simp add: sse_fields_line sse_fields_end frame_names del: json_dumps.simps)
  have "doubles rt (JDict (envelope_dict ?e))" using assms(1) t(3) by (simp add: envelope_dict_def)
  from json_loads_dumps [OF this w] f' t(3) show ?thesis by blast
qed

theorem sse_frame_roundtrip_witness:
  "\<exists>d. sse_fields (format_sse_frame 7 \<lparr>env_type = lit ''approval_required'', env_rest = [(lit ''org_id'', JStr (lit ''o''))]\<rparr> True) =
      [(lit ''event'', lit ''approval_requested''), (lit ''id'', show_nat 7), (lit ''data'', d)]"
proof -
  let ?e = "\<lparr>env_type = lit ''approval_required'', env_rest = [(lit ''org_id'', JStr (lit ''o''))]\<rparr>"
  have e: "wf_json (JDict (envelope_dict ?e))" "10 \<notin> set (env_type ?e)" "env_type (aliased True ?e) = lit ''approval_requested''"
    by code_simp+
  show ?thesis
    using sse_frame_roundtrip [OF _ e(1,2), of decimal_runtime 7 True] unfolding e(3) by auto
qed

end
