(* ===== verification/Program.thy ===== *)
theory Program
  imports JournalOps Broadcaster
begin

text \<open>
  Request handlers as programs. Every request of the dev server runs on its own thread, and
  the threads meet in the journal and the broadcaster, whose methods are atomic. A handler is
  therefore a tree of such calls, each with the continuation of its result. \<open>exec\<close> runs one
  alone, and \<open>pool_step\<close> lets any number of them take turns at every call.
\<close>

section \<open>Programs\<close>

record new_effect =
  ne_org :: pystr
  ne_session :: pystr
  ne_tool :: pystr
  ne_step :: int
  ne_args :: json
  ne_signature :: pystr
  ne_status :: pystr
  ne_approval :: "pystr option"
  ne_version :: pystr
  ne_tier :: "pystr option"

datatype 'a prog =
    Done 'a
  | FindLiveEffect pystr "py_exc + effect option \<Rightarrow> 'a prog"
  | CreateEffect new_effect "py_exc + pystr option \<Rightarrow> 'a prog"
  | RecordCommit pystr json "py_exc + bool \<Rightarrow> 'a prog"
  | RecordReplay pystr "py_exc + bool \<Rightarrow> 'a prog"
  | RecordFail pystr pystr "py_exc + bool \<Rightarrow> 'a prog"
  | MarkRejected pystr "py_exc + bool \<Rightarrow> 'a prog"
  | FindPendingApproval pystr "py_exc + approval option \<Rightarrow> 'a prog"
  | GetApproval pystr "py_exc + approval option \<Rightarrow> 'a prog"
  | ResolveApproval pystr pystr "py_exc + bool \<Rightarrow> 'a prog"
  | ListApprovals pystr int "py_exc + approval list \<Rightarrow> 'a prog"
  | Subscribers "nat list \<Rightarrow> 'a prog"
  | OfferEvent nat envelope "unit \<Rightarrow> 'a prog"
  | NewSubscription "nat \<Rightarrow> 'a prog"
  | Uuid4 "pystr \<Rightarrow> 'a prog"
  | UtcNow "pystr \<Rightarrow> 'a prog"

primrec pbind :: "'a prog \<Rightarrow> ('a \<Rightarrow> 'b prog) \<Rightarrow> 'b prog" where
  "pbind (Done x) f = f x"
| "pbind (FindLiveEffect s k) f = FindLiveEffect s (\<lambda>r. pbind (k r) f)"
| "pbind (CreateEffect n k) f = CreateEffect n (\<lambda>r. pbind (k r) f)"
| "pbind (RecordCommit i v k) f = RecordCommit i v (\<lambda>r. pbind (k r) f)"
| "pbind (RecordReplay i k) f = RecordReplay i (\<lambda>r. pbind (k r) f)"
| "pbind (RecordFail i e k) f = RecordFail i e (\<lambda>r. pbind (k r) f)"
| "pbind (MarkRejected i k) f = MarkRejected i (\<lambda>r. pbind (k r) f)"
| "pbind (FindPendingApproval i k) f = FindPendingApproval i (\<lambda>r. pbind (k r) f)"
| "pbind (GetApproval i k) f = GetApproval i (\<lambda>r. pbind (k r) f)"
| "pbind (ResolveApproval i st k) f = ResolveApproval i st (\<lambda>r. pbind (k r) f)"
| "pbind (ListApprovals st n k) f = ListApprovals st n (\<lambda>r. pbind (k r) f)"
| "pbind (Subscribers k) f = Subscribers (\<lambda>r. pbind (k r) f)"
| "pbind (OfferEvent q e k) f = OfferEvent q e (\<lambda>r. pbind (k r) f)"
| "pbind (NewSubscription k) f = NewSubscription (\<lambda>r. pbind (k r) f)"
| "pbind (Uuid4 k) f = Uuid4 (\<lambda>r. pbind (k r) f)"
| "pbind (UtcNow k) f = UtcNow (\<lambda>r. pbind (k r) f)"

section \<open>One call\<close>

text \<open>
  The identifiers \<^verbatim>\<open>uuid4()\<close> returns and the clock readings, in the order they are asked for,
  come from outside; the state counts how many were used.
\<close>

record world =
  w_rt :: runtime
  w_uuid :: "nat \<Rightarrow> pystr"
  w_now :: "nat \<Rightarrow> pystr"

record server =
  srv_journal :: journal
  srv_events :: broadcaster
  srv_uuids :: nat
  srv_clock :: nat

definition empty_server :: server where
  "empty_server = \<lparr>srv_journal = empty_journal, srv_events = broadcaster_init, srv_uuids = 0, srv_clock = 0\<rparr>"

text \<open>A read of the journal, and a write that takes the time. An exception undoes the write.\<close>

definition j_write :: "world \<Rightarrow> (pystr \<Rightarrow> journal \<Rightarrow> py_exc + ('r \<times> journal)) \<Rightarrow> server \<Rightarrow> (py_exc + 'r) \<times> server" where
  "j_write w f s =
     (case f (w_now w (srv_clock s)) (srv_journal s) of
        Inl e \<Rightarrow> (Inl e, s\<lparr>srv_clock := Suc (srv_clock s)\<rparr>)
      | Inr (r, j) \<Rightarrow> (Inr r, s\<lparr>srv_clock := Suc (srv_clock s), srv_journal := j\<rparr>))"

definition j_create :: "world \<Rightarrow> new_effect \<Rightarrow> server \<Rightarrow> (py_exc + pystr option) \<times> server" where
  "j_create w n s =
     j_write w (\<lambda>now. create_effect (w_uuid w (srv_uuids s)) now (ne_org n) (ne_session n) (ne_tool n) (ne_step n)
       (ne_args n) (ne_signature n) (ne_status n) (ne_approval n) (ne_version n) (ne_tier n))
       (s\<lparr>srv_uuids := Suc (srv_uuids s)\<rparr>)"

fun pstep :: "world \<Rightarrow> 'a prog \<Rightarrow> server \<Rightarrow> 'a prog \<times> server" where
  "pstep w (Done x) s = (Done x, s)"
| "pstep w (FindLiveEffect sg k) s = (k (find_live_effect (w_rt w) sg (srv_journal s)), s)"
| "pstep w (CreateEffect n k) s = map_prod k id (j_create w n s)"
| "pstep w (RecordCommit i v k) s = map_prod k id (j_write w (\<lambda>now. record_commit now i v) s)"
| "pstep w (RecordReplay i k) s = map_prod k id (j_write w (\<lambda>now. record_replay now i) s)"
| "pstep w (RecordFail i e k) s = map_prod k id (j_write w (\<lambda>now. record_fail now i e) s)"
| "pstep w (MarkRejected i k) s = map_prod k id (j_write w (\<lambda>now. mark_rejected now i) s)"
| "pstep w (FindPendingApproval i k) s = (k (find_pending_approval (w_rt w) i (srv_journal s)), s)"
| "pstep w (GetApproval i k) s = (k (get_approval (w_rt w) i (srv_journal s)), s)"
| "pstep w (ResolveApproval i st k) s = map_prod k id (j_write w (\<lambda>now. resolve_approval now i st) s)"
| "pstep w (ListApprovals st n k) s = (k (list_approvals (w_rt w) st n (srv_journal s)), s)"
| "pstep w (Subscribers k) s = (k (subscribers (srv_events s)), s)"
| "pstep w (OfferEvent q e k) s = (k (), s\<lparr>srv_events := offer q e (srv_events s)\<rparr>)"
| "pstep w (NewSubscription k) s =
     (let (q, b) = subscribe (srv_events s) in (k q, s\<lparr>srv_events := b\<rparr>))"
| "pstep w (Uuid4 k) s = (k (w_uuid w (srv_uuids s)), s\<lparr>srv_uuids := Suc (srv_uuids s)\<rparr>)"
| "pstep w (UtcNow k) s = (k (w_now w (srv_clock s)), s\<lparr>srv_clock := Suc (srv_clock s)\<rparr>)"

text \<open>The whole program, alone.\<close>

primrec exec :: "world \<Rightarrow> 'a prog \<Rightarrow> server \<Rightarrow> 'a \<times> server" where
  "exec w (Done x) s = (x, s)"
| "exec w (FindLiveEffect sg k) s = exec w (k (find_live_effect (w_rt w) sg (srv_journal s))) s"
| "exec w (CreateEffect n k) s = (let (r, s') = j_create w n s in exec w (k r) s')"
| "exec w (RecordCommit i v k) s = (let (r, s') = j_write w (\<lambda>now. record_commit now i v) s in exec w (k r) s')"
| "exec w (RecordReplay i k) s = (let (r, s') = j_write w (\<lambda>now. record_replay now i) s in exec w (k r) s')"
| "exec w (RecordFail i e k) s = (let (r, s') = j_write w (\<lambda>now. record_fail now i e) s in exec w (k r) s')"
| "exec w (MarkRejected i k) s = (let (r, s') = j_write w (\<lambda>now. mark_rejected now i) s in exec w (k r) s')"
| "exec w (FindPendingApproval i k) s = exec w (k (find_pending_approval (w_rt w) i (srv_journal s))) s"
| "exec w (GetApproval i k) s = exec w (k (get_approval (w_rt w) i (srv_journal s))) s"
| "exec w (ResolveApproval i st k) s = (let (r, s') = j_write w (\<lambda>now. resolve_approval now i st) s in exec w (k r) s')"
| "exec w (ListApprovals st n k) s = exec w (k (list_approvals (w_rt w) st n (srv_journal s))) s"
| "exec w (Subscribers k) s = exec w (k (subscribers (srv_events s))) s"
| "exec w (OfferEvent q e k) s = exec w (k ()) (s\<lparr>srv_events := offer q e (srv_events s)\<rparr>)"
| "exec w (NewSubscription k) s =
     (let (q, b) = subscribe (srv_events s) in exec w (k q) (s\<lparr>srv_events := b\<rparr>))"
| "exec w (Uuid4 k) s = exec w (k (w_uuid w (srv_uuids s))) (s\<lparr>srv_uuids := Suc (srv_uuids s)\<rparr>)"
| "exec w (UtcNow k) s = exec w (k (w_now w (srv_clock s))) (s\<lparr>srv_clock := Suc (srv_clock s)\<rparr>)"

lemma exec_pbind: "exec w (pbind p f) s = (let (x, s') = exec w p s in exec w (f x) s')"
  by (induction p arbitrary: s) (simp_all add: Let_def split: prod.split)

lemma exec_pstep: "exec w p s = (let (p', s') = pstep w p s in exec w p' s')"
  by (cases p) (simp_all add: Let_def map_prod_def split: prod.split)

lemma pbind_assoc: "pbind (pbind p f) g = pbind p (\<lambda>x. pbind (f x) g)"
  by (induction p) simp_all

lemma pbind_Done [simp]: "pbind p Done = p"
  by (induction p) simp_all

section \<open>Threads taking turns\<close>

text \<open>What a call of a program does to the journal.\<close>

definition wrote :: "world \<Rightarrow> (pystr \<Rightarrow> journal \<Rightarrow> py_exc + ('r \<times> journal)) \<Rightarrow> ('r \<Rightarrow> journal_event) \<Rightarrow> server \<Rightarrow> journal_event list" where
  "wrote w f ev s =
     (case f (w_now w (srv_clock s)) (srv_journal s) of Inl _ \<Rightarrow> [] | Inr (r, _) \<Rightarrow> [ev r])"

fun pevent :: "world \<Rightarrow> 'a prog \<Rightarrow> server \<Rightarrow> journal_event list" where
  "pevent w (CreateEffect n k) s =
     (case fst (j_create w n s) of
        Inl _ \<Rightarrow> []
      | Inr None \<Rightarrow> [Refused (ne_signature n)]
      | Inr (Some i) \<Rightarrow> [Created (ne_signature n) i])"
| "pevent w (RecordCommit i v k) s = wrote w (\<lambda>now. record_commit now i v) (Commit i v) s"
| "pevent w (RecordReplay i k) s = wrote w (\<lambda>now. record_replay now i) (Replay i) s"
| "pevent w (RecordFail i e k) s = wrote w (\<lambda>now. record_fail now i e) (Fail i e) s"
| "pevent w (MarkRejected i k) s = wrote w (\<lambda>now. mark_rejected now i) (Reject i) s"
| "pevent w (ResolveApproval i st k) s = wrote w (\<lambda>now. resolve_approval now i st) (Resolve i st) s"
| "pevent w _ s = []"

text \<open>
  A program that journals an effect only as executing, or as awaiting an approval it names, and
  resolves an approval only to a final state.
\<close>

primrec calls_ok :: "'a prog \<Rightarrow> bool" where
  "calls_ok (Done x) = True"
| "calls_ok (FindLiveEffect s k) = (\<forall>r. calls_ok (k r))"
| "calls_ok (CreateEffect n k) =
     ((ne_status n = EFFECT_EXECUTING \<or> ne_status n = EFFECT_AWAITING_APPROVAL \<and> ne_approval n \<noteq> None) \<and>
      (\<forall>r. calls_ok (k r)))"
| "calls_ok (RecordCommit i v k) = (\<forall>r. calls_ok (k r))"
| "calls_ok (RecordReplay i k) = (\<forall>r. calls_ok (k r))"
| "calls_ok (RecordFail i e k) = (\<forall>r. calls_ok (k r))"
| "calls_ok (MarkRejected i k) = (\<forall>r. calls_ok (k r))"
| "calls_ok (FindPendingApproval i k) = (\<forall>r. calls_ok (k r))"
| "calls_ok (GetApproval i k) = (\<forall>r. calls_ok (k r))"
| "calls_ok (ResolveApproval i st k) = (st \<noteq> APPROVAL_PENDING \<and> (\<forall>r. calls_ok (k r)))"
| "calls_ok (ListApprovals st n k) = (\<forall>r. calls_ok (k r))"
| "calls_ok (Subscribers k) = (\<forall>r. calls_ok (k r))"
| "calls_ok (OfferEvent q e k) = (\<forall>r. calls_ok (k r))"
| "calls_ok (NewSubscription k) = (\<forall>r. calls_ok (k r))"
| "calls_ok (Uuid4 k) = (\<forall>r. calls_ok (k r))"
| "calls_ok (UtcNow k) = (\<forall>r. calls_ok (k r))"

lemma calls_ok_pbind: "calls_ok p \<Longrightarrow> (\<And>x. x \<in> set_prog p \<Longrightarrow> calls_ok (f x)) \<Longrightarrow> calls_ok (pbind p f)"
  by (induction p) auto

lemma set_pbind: "set_prog (pbind p f) = (\<Union>x \<in> set_prog p. set_prog (f x))"
  by (induction p) auto

text \<open>The threads of a server: one makes its next call, or a new one starts.\<close>

inductive pool_step :: "world \<Rightarrow> 'a prog set \<Rightarrow> server \<times> 'a prog list \<Rightarrow> journal_event list \<Rightarrow>
    server \<times> 'a prog list \<Rightarrow> bool" for w H where
  advance: "i < length ts \<Longrightarrow> pstep w (ts ! i) s = (p, s') \<Longrightarrow>
    pool_step w H (s, ts) (pevent w (ts ! i) s) (s', ts[i := p])"
| spawn: "p \<in> H \<Longrightarrow> pool_step w H (s, ts) [] (s, ts @ [p])"

inductive_cases pool_stepE: "pool_step w H (s, ts) evs (s', ts')"

lemma j_write_journal:
  "j_write w f s = (r, s') \<Longrightarrow> (\<And>now x j'. f now (srv_journal s) = Inr (x, j') \<Longrightarrow> journal_step (srv_journal s) (ev x) j') \<Longrightarrow>
   run journal_step (srv_journal s) (wrote w f ev s) (srv_journal s')"
  by (auto simp: j_write_def wrote_def intro!: run.intros split: sum.splits)

lemma pstep_journal:
  assumes "calls_ok p" "pstep w p s = (p', s')"
  shows "run journal_step (srv_journal s) (pevent w p s) (srv_journal s')"
proof (cases p)
  case (CreateEffect n k)
  let ?c = "create_effect (w_uuid w (srv_uuids s)) (w_now w (srv_clock s)) (ne_org n) (ne_session n) (ne_tool n) (ne_step n)
       (ne_args n) (ne_signature n) (ne_status n) (ne_approval n) (ne_version n) (ne_tier n) (srv_journal s)"
  show ?thesis
  proof (cases ?c)
    case (Inl e)
    with assms(2) CreateEffect show ?thesis by (auto simp: j_create_def j_write_def intro: run.intros)
  next
    case (Inr x)
    obtain r j where x: "x = (r, j)" by (cases x)
    have "journal_step (srv_journal s) (case r of None \<Rightarrow> Refused (ne_signature n) | Some i \<Rightarrow> Created (ne_signature n) i) j"
      using assms(1) CreateEffect Inr x by (cases r) (auto intro: journal_step.intros)
    with assms(2) CreateEffect Inr x show ?thesis
      by (cases r) (auto simp: j_create_def j_write_def intro!: run.intros)
  qed
qed (use assms in \<open>auto simp: map_prod_def split: prod.splits intro!: run.intros j_write_journal intro: journal_step.intros\<close>)

lemma pstep_calls_ok: "calls_ok p \<Longrightarrow> calls_ok (fst (pstep w p s))"
  by (cases p) (auto simp: map_prod_def split: prod.splits)

text \<open>Whatever the threads do in turns is one sequence of journal calls.\<close>

lemma pool_step_journal:
  assumes "pool_step w H (s, ts) evs (s', ts')" "\<forall>p \<in> H. calls_ok p" "\<forall>p \<in> set ts. calls_ok p"
  shows "run journal_step (srv_journal s) evs (srv_journal s') \<and> (\<forall>p \<in> set ts'. calls_ok p)"
  using assms(1)
proof (rule pool_stepE)
  fix i p
  assume p: "evs = pevent w (ts ! i) s" "ts' = ts[i := p]" "i < length ts" "pstep w (ts ! i) s = (p, s')"
  have c: "calls_ok (ts ! i)" using assms(3) p(3) by simp
  have "calls_ok p" using pstep_calls_ok [OF c, of w s] p(4) by simp
  then have "\<forall>p \<in> set ts'. calls_ok p"
    using assms(3) p(2) set_update_subset_insert [of ts i p] by auto
  with pstep_journal [OF c p(4)] p(1) show ?thesis by simp
next
  fix p
  assume "evs = []" "s' = s" "ts' = ts @ [p]" "p \<in> H"
  with assms(2,3) show ?thesis by (auto intro: run.intros)
qed

lemma pool_run_journal:
  assumes "run (pool_step w H) (s, ts) evss (s', ts')" "\<forall>p \<in> H. calls_ok p" "\<forall>p \<in> set ts. calls_ok p"
  shows "run journal_step (srv_journal s) (concat evss) (srv_journal s')"
  using assms(1,3)
proof (induction "(s, ts)" evss "(s', ts')" arbitrary: s ts rule: run.induct)
  case run_Nil
  then show ?case by (simp add: run.run_Nil)
next
  case (run_Cons evs c evss)
  obtain s1 ts1 where c: "c = (s1, ts1)" by (cases c)
  from pool_step_journal [OF run_Cons(1) [unfolded c] assms(2) run_Cons(4)] run_Cons(3) [OF c]
  show ?case by (auto simp: run_append)
qed

section \<open>One request after the other\<close>

text \<open>The first calls of a program, with what they do to the journal.\<close>

fun psteps :: "nat \<Rightarrow> world \<Rightarrow> 'a prog \<Rightarrow> server \<Rightarrow> journal_event list \<times> 'a prog \<times> server" where
  "psteps 0 w p s = ([], p, s)"
| "psteps (Suc n) w p s =
     (let (p', s') = pstep w p s; (evs, r) = psteps n w p' s' in (pevent w p s @ evs, r))"

fun serve :: "nat \<Rightarrow> world \<Rightarrow> 'a prog list \<Rightarrow> server \<Rightarrow> journal_event list \<times> 'a prog list \<times> server" where
  "serve n w [] s = ([], [], s)"
| "serve n w (p # ps) s =
     (let (evs, p', s') = psteps n w p s; (evs', ps', s'') = serve n w ps s' in (evs @ evs', p' # ps', s''))"

lemma psteps_run:
  "i < length ts \<Longrightarrow> psteps n w (ts ! i) s = (evs, p, s') \<Longrightarrow>
     \<exists>evss. concat evss = evs \<and> run (pool_step w H) (s, ts) evss (s', ts[i := p])"
proof (induction n arbitrary: ts s evs)
  case 0
  then show ?case by (intro exI [of _ "[]"]) (auto intro: run.intros)
next
  case (Suc n)
  obtain p1 s1 where st: "pstep w (ts ! i) s = (p1, s1)" by (cases "pstep w (ts ! i) s")
  obtain evs1 where evs: "psteps n w p1 s1 = (evs1, p, s')" "evs = pevent w (ts ! i) s @ evs1"
    using Suc.prems(2) st by (auto simp: Let_def split: prod.splits)
  obtain evss where "concat evss = evs1" "run (pool_step w H) (s1, ts[i := p1]) evss (s', ts[i := p])"
    using Suc.IH [of "ts[i := p1]" s1 evs1] Suc.prems(1) evs(1) by auto
  with pool_step.advance [OF Suc.prems(1) st, of H] evs(2) show ?case
    by (intro exI [of _ "pevent w (ts ! i) s # evss"]) (auto intro: run.intros)
qed

lemma serve_run:
  "set ps \<subseteq> H \<Longrightarrow> serve n w ps s = (evs, ps', s') \<Longrightarrow>
     \<exists>evss. concat evss = evs \<and> run (pool_step w H) (s, ts) evss (s', ts @ ps')"
proof (induction ps arbitrary: s ts evs ps')
  case Nil
  then show ?case by (intro exI [of _ "[]"]) (auto intro: run.intros)
next
  case (Cons p ps)
  obtain e1 p1 s1 where p1: "psteps n w p s = (e1, p1, s1)" by (cases "psteps n w p s") auto
  obtain e2 ps2 where ps2: "serve n w ps s1 = (e2, ps2, s')" "evs = e1 @ e2" "ps' = p1 # ps2"
    using Cons.prems(2) p1 by (auto simp: Let_def split: prod.splits)
  obtain x1 where x1: "concat x1 = e1" "run (pool_step w H) (s, ts @ [p]) x1 (s1, ts @ [p1])"
    using psteps_run [of "length ts" "ts @ [p]" n w s e1 p1 s1 H] p1 by auto
  obtain x2 where x2: "concat x2 = e2" "run (pool_step w H) (s1, ts @ [p1]) x2 (s', (ts @ [p1]) @ ps2)"
    using Cons.IH [OF _ ps2(1), of "ts @ [p1]"] Cons.prems(1) by auto
  have "pool_step w H (s, ts) [] (s, ts @ [p])" using Cons.prems(1) by (auto intro: pool_step.spawn)
  moreover have "run (pool_step w H) (s, ts @ [p]) (x1 @ x2) (s', ts @ ps')"
    using x1(2) x2(2) ps2(3) unfolding run_append by auto
  ultimately show ?case
    using x1(1) x2(1) ps2(2) by (intro exI [of _ "[] # x1 @ x2"]) (auto intro: run.intros)
qed

lemma serve_reachable:
  "set ps \<subseteq> H \<Longrightarrow> \<exists>evss. concat evss = fst (serve n w ps s) \<and>
     run (pool_step w H) (s, []) evss (snd (snd (serve n w ps s)), fst (snd (serve n w ps s)))"
  using serve_run [of ps H n w s "fst (serve n w ps s)" "fst (snd (serve n w ps s))" "snd (snd (serve n w ps s))" "[]"]
  by simp

end
