(* ===== verification/WebText.thy ===== *)
theory WebText
  imports FloatRead
begin

text \<open>
  What the dev server uses of the standard library to read a request: decoding bytes as text,
  \<^verbatim>\<open>json.loads\<close> of bytes, \<^verbatim>\<open>urlparse\<close>, \<^verbatim>\<open>parse_qs\<close>, \<^verbatim>\<open>fnmatchcase\<close>, and reading from
  a buffered stream.
\<close>

section \<open>Decoding bytes\<close>

text \<open>
  One step of the UTF-8 decoder: the code point at the front and its length, or \<open>None\<close> and the
  length of the longest part that could have begun one.
\<close>

definition cont :: "nat \<Rightarrow> bool" where
  "cont b \<longleftrightarrow> 0x80 \<le> b \<and> b < 0xC0"

definition utf8_second_ok :: "nat \<Rightarrow> nat \<Rightarrow> bool" where
  "utf8_second_ok b0 b1 \<longleftrightarrow>
     cont b1 \<and> (b0 = 0xE0 \<longrightarrow> 0xA0 \<le> b1) \<and> (b0 = 0xED \<longrightarrow> b1 < 0xA0) \<and>
     (b0 = 0xF0 \<longrightarrow> 0x90 \<le> b1) \<and> (b0 = 0xF4 \<longrightarrow> b1 < 0x90)"

fun utf8_step :: "bytes \<Rightarrow> nat option \<times> nat" where
  "utf8_step [] = (None, 1)"
| "utf8_step (b0 # r) =
     (if b0 < 0x80 then (Some b0, 1)
      else if b0 < 0xC2 \<or> 0xF4 < b0 then (None, 1)
      else case r of
        [] \<Rightarrow> (None, 1)
      | b1 # r1 \<Rightarrow>
          if \<not> utf8_second_ok b0 b1 then (None, 1)
          else if b0 < 0xE0 then (Some ((b0 - 0xC0) * 64 + (b1 - 0x80)), 2)
          else case r1 of
            [] \<Rightarrow> (None, 2)
          | b2 # r2 \<Rightarrow>
              if \<not> cont b2 then (None, 2)
              else if b0 < 0xF0 then (Some ((b0 - 0xE0) * 4096 + (b1 - 0x80) * 64 + (b2 - 0x80)), 3)
              else case r2 of
                [] \<Rightarrow> (None, 3)
              | b3 # _ \<Rightarrow>
                  if \<not> cont b3 then (None, 3)
                  else (Some ((b0 - 0xF0) * 262144 + (b1 - 0x80) * 4096 + (b2 - 0x80) * 64 + (b3 - 0x80)), 4))"

text \<open>Decoding with an error handler: it sees the rest of the bytes and the length of the bad part.\<close>

function utf8_decode :: "(bytes \<Rightarrow> nat \<Rightarrow> (nat \<times> nat) option) \<Rightarrow> bytes \<Rightarrow> pystr option" where
  "utf8_decode h [] = Some []"
| "utf8_decode h (b # bs) =
     (case utf8_step (b # bs) of
        (Some c, n) \<Rightarrow> map_option (Cons c) (utf8_decode h (drop (n - 1) bs))
      | (None, n) \<Rightarrow>
          (case h (b # bs) n of
             None \<Rightarrow> None
           | Some (c, m) \<Rightarrow> map_option (Cons c) (utf8_decode h (drop (m - 1) bs))))"
  by pat_completeness auto
termination by (relation "measure (length \<circ> snd)") auto

definition errors_replace :: "bytes \<Rightarrow> nat \<Rightarrow> (nat \<times> nat) option" where
  "errors_replace bs n = Some (0xFFFD, n)"

fun errors_surrogatepass :: "bytes \<Rightarrow> nat \<Rightarrow> (nat \<times> nat) option" where
  "errors_surrogatepass (b0 # b1 # b2 # _) n =
     (if b0 = 0xED \<and> 0xA0 \<le> b1 \<and> cont b1 \<and> cont b2
      then Some (0xD000 + (b1 - 0x80) * 64 + (b2 - 0x80), 3) else None)"
| "errors_surrogatepass _ n = None"

text \<open>UTF-16 and UTF-32, with lone surrogates let through.\<close>

fun utf16_units :: "bool \<Rightarrow> bytes \<Rightarrow> nat list option" where
  "utf16_units big [] = Some []"
| "utf16_units big (a # b # r) =
     map_option (Cons (if big then a * 256 + b else b * 256 + a)) (utf16_units big r)"
| "utf16_units big _ = None"

fun join_surrogates :: "nat list \<Rightarrow> pystr" where
  "join_surrogates (u # v # r) =
     (if is_high u \<and> is_low v
      then (0x10000 + (u - 0xD800) * 1024 + (v - 0xDC00)) # join_surrogates r
      else u # join_surrogates (v # r))"
| "join_surrogates us = us"

fun utf32_decode :: "bool \<Rightarrow> bytes \<Rightarrow> pystr option" where
  "utf32_decode big [] = Some []"
| "utf32_decode big (a # b # c # d # r) =
     (let u = (if big then ((a * 256 + b) * 256 + c) * 256 + d else ((d * 256 + c) * 256 + b) * 256 + a)
      in if u < 0x110000 then map_option (Cons u) (utf32_decode big r) else None)"
| "utf32_decode big _ = None"

text \<open>\<^verbatim>\<open>json.loads\<close> guesses the encoding of bytes from a byte order mark or the zero bytes.\<close>

definition json_text_of_bytes :: "bytes \<Rightarrow> pystr option" where
  "json_text_of_bytes bs =
     (let u16 = (\<lambda>big bs. map_option join_surrogates (utf16_units big bs));
          z = (\<lambda>i. bs ! i = 0)
      in if prefix [0x00, 0x00, 0xFE, 0xFF] bs then utf32_decode True (drop 4 bs)
         else if prefix [0xFF, 0xFE, 0x00, 0x00] bs then utf32_decode False (drop 4 bs)
         else if prefix [0xFE, 0xFF] bs then u16 True (drop 2 bs)
         else if prefix [0xFF, 0xFE] bs then u16 False (drop 2 bs)
         else if prefix [0xEF, 0xBB, 0xBF] bs then utf8_decode errors_surrogatepass (drop 3 bs)
         else if 4 \<le> length bs \<and> z 0 then (if z 1 then utf32_decode True bs else u16 True bs)
         else if 4 \<le> length bs \<and> z 1 then (if z 2 \<and> z 3 then utf32_decode False bs else u16 False bs)
         else if length bs = 2 \<and> z 0 then u16 True bs
         else if length bs = 2 \<and> z 1 then u16 False bs
         else utf8_decode errors_surrogatepass bs)"

definition json_loads_bytes :: "runtime \<Rightarrow> bytes \<Rightarrow> py_exc + json" where
  "json_loads_bytes rt bs =
     (case json_text_of_bytes bs of
        None \<Rightarrow> Inl UnicodeDecodeError
      | Some s \<Rightarrow> (case json_decode rt s of None \<Rightarrow> Inl JSONDecodeError | Some v \<Rightarrow> Inr v))"

section \<open>URLs and queries\<close>

definition find_from :: "nat \<Rightarrow> nat \<Rightarrow> pystr \<Rightarrow> nat option" where
  "find_from c i s =
     (let n = length (takeWhile (\<lambda>x. x \<noteq> c) (drop i s)) in
      if i + n < length s then Some (i + n) else None)"

definition scheme_char :: "nat \<Rightarrow> bool" where
  "scheme_char c \<longleftrightarrow> 48 \<le> c \<and> c \<le> 57 \<or> 65 \<le> c \<and> c \<le> 90 \<or> 97 \<le> c \<and> c \<le> 122 \<or> c \<in> {43, 45, 46}"

definition ascii_alpha :: "nat \<Rightarrow> bool" where
  "ascii_alpha c \<longleftrightarrow> 65 \<le> c \<and> c \<le> 90 \<or> 97 \<le> c \<and> c \<le> 122"

definition split_scheme :: "pystr \<Rightarrow> pystr \<times> pystr" where
  "split_scheme url =
     (case find_from 58 0 url of
        Some i \<Rightarrow>
          if 0 < i \<and> ascii_alpha (hd url) \<and> list_all scheme_char (take i url)
          then (py_lower (take i url), drop (Suc i) url) else ([], url)
      | None \<Rightarrow> ([], url))"

definition uses_params :: "pystr list" where
  "uses_params = map lit ['''', ''ftp'', ''hdl'', ''prospero'', ''http'', ''https'', ''shttp'', ''rtsp'',
     ''rtsps'', ''rtspu'', ''sip'', ''sips'', ''mms'', ''sftp'', ''tel'']"

text \<open>The parameters of the last path segment are cut off at its first semicolon.\<close>

definition split_params :: "pystr \<Rightarrow> pystr" where
  "split_params url =
     (let last_part = rev (takeWhile (\<lambda>c. c \<noteq> 47) (rev url))
      in take (length url - length last_part) url @ takeWhile (\<lambda>c. c \<noteq> 59) last_part)"

text \<open>
  \<^verbatim>\<open>urlparse\<close>, its path and query. The check of an authority component (bracketed addresses,
  Unicode normalisation) is the library's own and a parameter.
\<close>

definition urlparse :: "runtime \<Rightarrow> pystr \<Rightarrow> py_exc + (pystr \<times> pystr)" where
  "urlparse rt target =
     (let url = filter (\<lambda>c. c \<notin> {9, 10, 13}) (dropWhile (\<lambda>c. c \<le> 32) target);
          (scheme, url) = split_scheme url;
          authority = prefix [47, 47] url;
          netloc = (if authority then takeWhile (\<lambda>c. c \<notin> {47, 63, 35}) (drop 2 url) else []);
          url = (if authority then dropWhile (\<lambda>c. c \<notin> {47, 63, 35}) (drop 2 url) else url);
          (url, _, _) = py_partition 35 url;
          (url, _, query) = py_partition 63 url
      in if netloc \<noteq> [] \<and> \<not> netloc_ok rt netloc then Inl (ValueError (lit ''invalid authority''))
         else Inr (if scheme \<in> set uses_params then split_params url else url, query))"

text \<open>Percent decoding: an escape that is not two hexadecimal digits stays as it is.\<close>

fun unquote_to_bytes :: "pystr \<Rightarrow> bytes" where
  "unquote_to_bytes (p # a # b # r) =
     (if p = 37 then
        (case (hex_val a, hex_val b) of
           (Some x, Some y) \<Rightarrow> (x * 16 + y) # unquote_to_bytes r
         | _ \<Rightarrow> p # unquote_to_bytes (a # b # r))
      else p # unquote_to_bytes (a # b # r))"
| "unquote_to_bytes s = s"

definition decode_replace :: "bytes \<Rightarrow> pystr" where
  "decode_replace bs = (case utf8_decode errors_replace bs of None \<Rightarrow> [] | Some s \<Rightarrow> s)"

text \<open>Every run of ASCII characters is decoded on its own, and other characters are kept.\<close>

fun unquote_runs :: "pystr \<Rightarrow> pystr \<Rightarrow> pystr" where
  "unquote_runs acc [] = decode_replace (unquote_to_bytes acc)"
| "unquote_runs acc (c # cs) =
     (if c < 128 then unquote_runs (acc @ [c]) cs
      else decode_replace (unquote_to_bytes acc) @ c # unquote_runs [] cs)"

definition unquote :: "pystr \<Rightarrow> pystr" where
  "unquote s = (if 37 \<in> set s then unquote_runs [] s else s)"

definition unquote_plus :: "pystr \<Rightarrow> pystr" where
  "unquote_plus s = unquote (map (\<lambda>c. if c = 43 then 32 else c) s)"

definition parse_qsl :: "pystr \<Rightarrow> (pystr \<times> pystr) list" where
  "parse_qsl qs =
     List.map_filter
       (\<lambda>nv. let (n, sep, v) = py_partition 61 nv in
             if sep \<noteq> [] \<and> v \<noteq> [] then Some (unquote_plus n, unquote_plus v) else None)
       (py_split 38 qs)"

text \<open>\<^verbatim>\<open>parse_qs(query).get(key, [default])[0]\<close>: the first value of the key.\<close>

definition query_param :: "pystr \<Rightarrow> pystr \<Rightarrow> pystr \<Rightarrow> pystr" where
  "query_param qs k dflt = (case map_of (parse_qsl qs) k of None \<Rightarrow> dflt | Some v \<Rightarrow> v)"

section \<open>fnmatch\<close>

datatype fn_token = FStar | FAny | FChar nat | FClass bool "(nat \<times> nat) list"

fun fn_ranges :: "pystr \<Rightarrow> (nat \<times> nat) list" where
  "fn_ranges (a # d # b # r) = (if d = 45 then (a, b) # fn_ranges r else (a, a) # fn_ranges (d # b # r))"
| "fn_ranges (a # r) = (a, a) # fn_ranges r"
| "fn_ranges [] = []"

text \<open>The text of a bracket expression and what follows it, from behind its opening bracket.\<close>

definition fn_bracket :: "pystr \<Rightarrow> (pystr \<times> pystr) option" where
  "fn_bracket s =
     (let i = (if prefix [33] s then 1 else 0);
          i = (if prefix [93] (drop i s) then Suc i else i)
      in map_option (\<lambda>j. (take j s, drop (Suc j) s)) (find_from 93 i s))"

definition fn_class :: "pystr \<Rightarrow> fn_token" where
  "fn_class t = (if prefix [33] t then FClass True (fn_ranges (drop 1 t)) else FClass False (fn_ranges t))"

lemma fn_bracket_length: "fn_bracket s = Some (t, r) \<Longrightarrow> length r < Suc (length s)"
  by (auto simp: fn_bracket_def Let_def)

function fn_tokens :: "pystr \<Rightarrow> fn_token list" where
  "fn_tokens [] = []"
| "fn_tokens (c # cs) =
     (if c = 42 then FStar # fn_tokens cs
      else if c = 63 then FAny # fn_tokens cs
      else if c = 91 then
        (case fn_bracket cs of
           None \<Rightarrow> FChar c # fn_tokens cs
         | Some (t, r) \<Rightarrow> fn_class t # fn_tokens r)
      else FChar c # fn_tokens cs)"
  by pat_completeness auto
termination by (relation "measure length") (auto dest: fn_bracket_length)

fun fn_one :: "fn_token \<Rightarrow> nat \<Rightarrow> bool" where
  "fn_one FStar c = False"
| "fn_one FAny c = True"
| "fn_one (FChar d) c = (d = c)"
| "fn_one (FClass neg rs) c = (neg \<noteq> list_ex (\<lambda>(a, b). a \<le> c \<and> c \<le> b) rs)"

fun fn_match :: "fn_token list \<Rightarrow> pystr \<Rightarrow> bool" where
  "fn_match [] s = (s = [])"
| "fn_match (FStar # ts) [] = fn_match ts []"
| "fn_match (FStar # ts) (c # s) = (fn_match ts (c # s) \<or> fn_match (FStar # ts) s)"
| "fn_match (t # ts) [] = False"
| "fn_match (t # ts) (c # s) = (fn_one t c \<and> fn_match ts s)"

definition fnmatchcase :: "pystr \<Rightarrow> pystr \<Rightarrow> bool" where
  "fnmatchcase name pat = fn_match (fn_tokens pat) name"

section \<open>Buffered reads\<close>

text \<open>
  \<^verbatim>\<open>rfile.read(n)\<close> and \<^verbatim>\<open>rfile.readline(limit)\<close> of a stream that holds all the bytes its
  sender will send. Reading \<open>-1\<close> bytes reads to the end, and a smaller number is refused.
\<close>

definition stream_read :: "int \<Rightarrow> bytes \<Rightarrow> py_exc + (bytes \<times> bytes)" where
  "stream_read n s =
     (if n < - 1 then Inl (ValueError (lit ''read length must be non-negative or -1''))
      else if n = - 1 then Inr (s, [])
      else Inr (take (nat n) s, drop (nat n) s))"

definition stream_readline :: "nat \<Rightarrow> bytes \<Rightarrow> bytes \<times> bytes" where
  "stream_readline limit s =
     (let n = length (takeWhile (\<lambda>b. b \<noteq> 10) s); m = min limit (if n < length s then Suc n else n)
      in (take m s, drop m s))"

text \<open>\<^verbatim>\<open>headers.get(name)\<close>: the first field of that name, whatever the case of its letters.\<close>

definition header_get :: "(pystr \<times> pystr) list \<Rightarrow> string \<Rightarrow> pystr option" where
  "header_get hs name = map_option snd (List.find (\<lambda>(k, v). py_lower k = py_lower (lit name)) hs)"

end
