(* ===== verification/Http.thy ===== *)
theory Http
  imports Program WebText
begin

text \<open>
  One HTTP connection of the dev server: the request being handled, the bytes still to be read,
  the responses sent, and the two attributes of \<^verbatim>\<open>_DevHandler\<close> that outlive a request. Request
  bodies are read as the handler reads them, by length or in chunks, and responses are written
  as it writes them.
\<close>

section \<open>Connections and handlers\<close>

record response =
  rs_status :: nat
  rs_headers :: "(pystr \<times> pystr) list"
  rs_body :: bytes

record conn =
  c_command :: pystr
  c_path :: pystr
  c_headers :: "(pystr \<times> pystr) list"
  c_rfile :: bytes
  c_sent :: "response list"
  c_close :: bool
  c_body_read :: bool
  c_request_id :: "pystr option"

text \<open>What a handler raises: a refusal with its response, or an exception of the language.\<close>

datatype handler_exc = RequestError nat pystr pystr | PyExc py_exc

type_synonym 'a handler = "conn \<Rightarrow> (conn \<times> (handler_exc + 'a)) prog"

definition hret :: "'a \<Rightarrow> 'a handler" where
  "hret x = (\<lambda>c. Done (c, Inr x))"

definition hraise :: "handler_exc \<Rightarrow> 'a handler" where
  "hraise e = (\<lambda>c. Done (c, Inl e))"

definition hbind :: "'a handler \<Rightarrow> ('a \<Rightarrow> 'b handler) \<Rightarrow> 'b handler" where
  "hbind m f = (\<lambda>c. pbind (m c) (\<lambda>(c', r). case r of Inl e \<Rightarrow> Done (c', Inl e) | Inr x \<Rightarrow> f x c'))"

definition hseq :: "unit handler \<Rightarrow> 'b handler \<Rightarrow> 'b handler" where
  "hseq m n = hbind m (\<lambda>_. n)"

definition hcatch :: "'a handler \<Rightarrow> (handler_exc \<Rightarrow> 'a handler) \<Rightarrow> 'a handler" where
  "hcatch m h = (\<lambda>c. pbind (m c) (\<lambda>(c', r). case r of Inl e \<Rightarrow> h e c' | Inr x \<Rightarrow> Done (c', Inr x)))"

definition hget :: "(conn \<Rightarrow> 'a) \<Rightarrow> 'a handler" where
  "hget f = (\<lambda>c. Done (c, Inr (f c)))"

definition hmodify :: "(conn \<Rightarrow> conn) \<Rightarrow> unit handler" where
  "hmodify f = (\<lambda>c. Done (f c, Inr ()))"

text \<open>A call of the server's journal, clock or broadcaster.\<close>

definition hcall :: "((py_exc + 'a \<Rightarrow> (conn \<times> (handler_exc + 'a)) prog) \<Rightarrow> (conn \<times> (handler_exc + 'a)) prog) \<Rightarrow> 'a handler" where
  "hcall call = (\<lambda>c. call (\<lambda>r. Done (c, case r of Inl e \<Rightarrow> Inl (PyExc e) | Inr x \<Rightarrow> Inr x)))"

definition hask :: "(('a \<Rightarrow> (conn \<times> (handler_exc + 'a)) prog) \<Rightarrow> (conn \<times> (handler_exc + 'a)) prog) \<Rightarrow> 'a handler" where
  "hask call = (\<lambda>c. call (\<lambda>x. Done (c, Inr x)))"

definition hlift :: "py_exc + 'a \<Rightarrow> 'a handler" where
  "hlift r = (case r of Inl e \<Rightarrow> hraise (PyExc e) | Inr x \<Rightarrow> hret x)"

definition bad_request :: "string \<Rightarrow> handler_exc" where
  "bad_request m = RequestError 400 (lit ''invalid_request'') (lit m)"

section \<open>Request bodies\<close>

definition MAX_BODY_BYTES :: nat where
  "MAX_BODY_BYTES = 1024 * 1024"

definition MAX_CHUNK_LINE_BYTES :: nat where
  "MAX_CHUNK_LINE_BYTES = 8 * 1024"

definition READ_SIZE :: nat where
  "READ_SIZE = 64 * 1024"

text \<open>The loop that discards bytes: what is still to be discarded at the end, and the stream.\<close>

function consume_loop :: "nat \<Rightarrow> bytes \<Rightarrow> nat \<times> bytes" where
  "consume_loop remaining s =
     (if remaining = 0 then (0, s)
      else let chunk = take (min remaining READ_SIZE) s in
        if chunk = [] then (remaining, s)
        else consume_loop (remaining - length chunk) (drop (length chunk) s))"
  by pat_completeness auto
termination by (relation "measure (length \<circ> snd)") (auto simp: READ_SIZE_def)

declare consume_loop.simps [simp del]

lemma consume_loop_eq: "consume_loop n s = (n - length s, drop n s)"
proof (induction n s rule: consume_loop.induct)
  case (1 n s)
  show ?case
  proof (cases "n = 0 \<or> s = []")
    case True
    then show ?thesis by (subst consume_loop.simps) auto
  next
    case False
    let ?c = "take (min n READ_SIZE) s"
    have "?c \<noteq> []" using False by (simp add: READ_SIZE_def)
    then have "consume_loop n s = consume_loop (n - length ?c) (drop (length ?c) s)"
      using False unfolding consume_loop.simps [of n s] Let_def by (simp only: if_False de_Morgan_disj)
    also have "\<dots> = (n - length ?c - length (drop (length ?c) s), drop (n - length ?c) (drop (length ?c) s))"
      by (rule 1 [OF _ refl \<open>?c \<noteq> []\<close>]) (use False in simp)
    also have "\<dots> = (n - length s, drop n s)"
    proof -
      have "length ?c \<le> n" "length ?c \<le> length s" by simp_all
      then show ?thesis unfolding drop_drop length_drop by (intro prod_eqI) simp_all
    qed
    finally show ?thesis .
  qed
qed

definition consume :: "int \<Rightarrow> bytes \<Rightarrow> bytes \<times> (handler_exc + unit)" where
  "consume sz s =
     (let (remaining, s') = consume_loop (nat sz) s in
      (s', if remaining = 0 then Inr () else Inl (bad_request ''truncated request body'')))"

lemma consume_eq:
  "consume sz s = (drop (nat sz) s,
     if nat sz \<le> length s then Inr () else Inl (bad_request ''truncated request body''))"
  by (auto simp: consume_def consume_loop_eq)

lemma readline_split: "stream_readline n s = (l, r) \<Longrightarrow> s = l @ r \<and> length l \<le> n"
  by (auto simp: stream_readline_def Let_def)

lemma stream_read_length: "stream_read n s = Inr (d, r) \<Longrightarrow> length r \<le> length s"
  by (auto simp: stream_read_def split: if_splits)

text \<open>Trailer fields, up to an empty line or the end of the stream.\<close>

function skip_trailers :: "bytes \<Rightarrow> bytes" where
  "skip_trailers s =
     (let (trailer, s') = stream_readline MAX_CHUNK_LINE_BYTES s in
      if trailer = [] \<or> trailer = [13, 10] \<or> trailer = [10] then s' else skip_trailers s')"
  by pat_completeness auto
termination
  by (relation "measure length") (auto dest!: readline_split [OF sym])

declare skip_trailers.simps [simp del]

text \<open>
  The chunked body: the bytes kept so far, their number, whether the ceiling was passed, and
  the stream. What is raised comes with the stream as it was left.
\<close>

function read_chunks :: "bytes \<Rightarrow> int \<Rightarrow> bool \<Rightarrow> bytes \<Rightarrow> bytes \<times> (handler_exc + bytes \<times> bool)" where
  "read_chunks parts tot overflow s =
     (let (size_line, s1) = stream_readline MAX_CHUNK_LINE_BYTES s in
      if size_line = [] then (s1, Inl (bad_request ''truncated request body''))
      else case int_ascii 16 (takeWhile (\<lambda>b. b \<noteq> 59) size_line) of
        None \<Rightarrow> (s1, Inl (bad_request ''invalid chunk size''))
      | Some sz \<Rightarrow>
          if sz = 0 then (skip_trailers s1, Inr (parts, overflow))
          else if overflow \<or> tot + sz > int MAX_BODY_BYTES then
            (case consume sz s1 of
               (s2, Inl e) \<Rightarrow> (s2, Inl e)
             | (s2, Inr _) \<Rightarrow>
                 (case consume 2 s2 of
                    (s3, Inl e) \<Rightarrow> (s3, Inl e)
                  | (s3, Inr _) \<Rightarrow> read_chunks parts tot True s3))
          else
            (case stream_read sz s1 of
               Inl e \<Rightarrow> (s1, Inl (PyExc e))
             | Inr (data, s2) \<Rightarrow>
                 if int (length data) < sz then (s2, Inl (bad_request ''truncated request body''))
                 else
                   (case consume 2 s2 of
                      (s3, Inl e) \<Rightarrow> (s3, Inl e)
                    | (s3, Inr _) \<Rightarrow> read_chunks (parts @ data) (tot + sz) overflow s3)))"
  by pat_completeness auto
termination
  by (relation "measure (\<lambda>(_, _, _, s). length s)")
    (auto simp: consume_eq dest!: readline_split [OF sym] stream_read_length split: if_splits)

declare read_chunks.simps [simp del]

definition chunked :: "conn \<Rightarrow> bool" where
  "chunked c \<longleftrightarrow> header_get (c_headers c) ''Transfer-Encoding'' \<noteq> None"

text \<open>The \<^verbatim>\<open>Content-Length\<close> of the request, zero without the header, \<open>None\<close> if it is no number.\<close>

definition content_length :: "conn \<Rightarrow> int option" where
  "content_length c =
     py_int 10 (case header_get (c_headers c) ''Content-Length'' of None \<Rightarrow> lit ''0'' | Some v \<Rightarrow> v)"

text \<open>The bytes of the body and whether they passed the ceiling.\<close>

definition read_raw :: "conn \<Rightarrow> conn \<times> (handler_exc + bytes \<times> bool)" where
  "read_raw c =
     (if chunked c then
        (case read_chunks [] 0 False (c_rfile c) of
           (s, Inl e) \<Rightarrow> (c\<lparr>c_rfile := s\<rparr>, Inl e)
         | (s, Inr r) \<Rightarrow> (c\<lparr>c_rfile := s, c_body_read := True\<rparr>, Inr r))
      else
        (case content_length c of
           None \<Rightarrow> (c, Inl (bad_request ''invalid Content-Length header''))
         | Some n \<Rightarrow>
             if n = 0 then (c\<lparr>c_body_read := True\<rparr>, Inr ([], False))
             else if n \<le> int MAX_BODY_BYTES then
               (case stream_read n (c_rfile c) of
                  Inl e \<Rightarrow> (c, Inl (PyExc e))
                | Inr (raw, s) \<Rightarrow> (c\<lparr>c_rfile := s, c_body_read := True\<rparr>, Inr (raw, False)))
             else (c, Inr ([], True))))"

definition decode_body :: "runtime \<Rightarrow> bytes \<Rightarrow> bool \<Rightarrow> handler_exc + json dict" where
  "decode_body rt raw overflow =
     (if overflow then
        Inl (RequestError 413 (lit ''body_too_large'') (lit ''request body exceeds the configured limit''))
      else if raw = [] then Inr []
      else case json_loads_bytes rt raw of
        Inl e \<Rightarrow> Inl (if e = JSONDecodeError then bad_request ''invalid JSON body'' else PyExc e)
      | Inr (JDict d) \<Rightarrow> Inr d
      | Inr _ \<Rightarrow> Inl (bad_request ''request body must be a JSON object''))"

definition parse_body :: "runtime \<Rightarrow> conn \<Rightarrow> conn \<times> (handler_exc + json dict)" where
  "parse_body rt c =
     (case read_raw c of
        (c', Inl e) \<Rightarrow> (c', Inl e)
      | (c', Inr (raw, overflow)) \<Rightarrow> (c', decode_body rt raw overflow))"

definition read_body :: "runtime \<Rightarrow> json dict handler" where
  "read_body rt = (\<lambda>c. Done (parse_body rt c))"

definition discard_unread_body :: "conn \<Rightarrow> conn" where
  "discard_unread_body c =
     (if c_body_read c \<or> chunked c then c
      else case content_length c of
        None \<Rightarrow> c
      | Some n \<Rightarrow>
          if n = 0 then c\<lparr>c_body_read := True\<rparr>
          else c\<lparr>c_rfile := snd (consume_loop (nat n) (c_rfile c)), c_body_read := True\<rparr>)"

definition body_is_unread :: "conn \<Rightarrow> bool" where
  "body_is_unread c \<longleftrightarrow>
     \<not> c_body_read c \<and>
     (chunked c \<or> (case content_length c of None \<Rightarrow> True | Some n \<Rightarrow> n > 0))"

section \<open>Responses\<close>

definition request_id :: "pystr handler" where
  "request_id =
     hbind (hget c_request_id) (\<lambda>r. case r of
       Some i \<Rightarrow> hret i
     | None \<Rightarrow> hbind (hask Uuid4) (\<lambda>i. hseq (hmodify (\<lambda>c. c\<lparr>c_request_id := Some i\<rparr>)) (hret i)))"

definition json_response :: "nat \<Rightarrow> json \<Rightarrow> pystr \<Rightarrow> bool \<Rightarrow> response" where
  "json_response status payload rid unread =
     (let body = json_dumps payload in
      \<lparr>rs_status = status,
       rs_headers = [(lit ''Content-Type'', lit ''application/json''),
         (lit ''Content-Length'', show_nat (length body)), (lit ''X-Request-Id'', rid)] @
         (if unread then [(lit ''Connection'', lit ''close'')] else []),
       rs_body = body\<rparr>)"

definition send_json :: "nat \<Rightarrow> json \<Rightarrow> unit handler" where
  "send_json status payload =
     hseq (hmodify discard_unread_body)
       (hbind request_id (\<lambda>rid.
         hmodify (\<lambda>c. let unread = body_is_unread c in
           c\<lparr>c_close := c_close c \<or> unread, c_sent := c_sent c @ [json_response status payload rid unread]\<rparr>)))"

definition send_error :: "nat \<Rightarrow> pystr \<Rightarrow> pystr \<Rightarrow> unit handler" where
  "send_error status code msg =
     hbind request_id (\<lambda>rid. hbind (hask UtcNow) (\<lambda>now.
       send_json status (JDict [(lit ''request_id'', JStr rid), (lit ''code'', JStr code),
         (lit ''message'', JStr msg), (lit ''timestamp'', JStr now)])))"

section \<open>Running a handler alone\<close>

definition hrun :: "world \<Rightarrow> 'a handler \<Rightarrow> conn \<Rightarrow> server \<Rightarrow> (conn \<times> (handler_exc + 'a)) \<times> server" where
  "hrun w m c s = exec w (m c) s"

lemma hrun_basic [simp]:
  "hrun w (hret x) c s = ((c, Inr x), s)"
  "hrun w (hraise e) c s = ((c, Inl e), s)"
  "hrun w (hget f) c s = ((c, Inr (f c)), s)"
  "hrun w (hmodify g) c s = ((g c, Inr ()), s)"
  by (simp_all add: hrun_def hret_def hraise_def hget_def hmodify_def)

lemma hrun_hbind [simp]:
  "hrun w (hbind m f) c s =
     (case hrun w m c s of ((c', Inl e), s') \<Rightarrow> ((c', Inl e), s') | ((c', Inr x), s') \<Rightarrow> hrun w (f x) c' s')"
  by (simp add: hrun_def hbind_def exec_pbind Let_def split: prod.split sum.split)

lemma hrun_hseq [simp]:
  "hrun w (hseq m n) c s =
     (case hrun w m c s of ((c', Inl e), s') \<Rightarrow> ((c', Inl e), s') | ((c', Inr x), s') \<Rightarrow> hrun w n c' s')"
  by (simp add: hseq_def)

lemma hrun_hcatch [simp]:
  "hrun w (hcatch m h) c s =
     (case hrun w m c s of ((c', Inl e), s') \<Rightarrow> hrun w (h e) c' s' | ((c', Inr x), s') \<Rightarrow> ((c', Inr x), s'))"
  by (simp add: hrun_def hcatch_def exec_pbind Let_def split: prod.split sum.split)

lemma hrun_ask [simp]:
  "hrun w (hask Uuid4) c s = ((c, Inr (w_uuid w (srv_uuids s))), s\<lparr>srv_uuids := Suc (srv_uuids s)\<rparr>)"
  "hrun w (hask UtcNow) c s = ((c, Inr (w_now w (srv_clock s))), s\<lparr>srv_clock := Suc (srv_clock s)\<rparr>)"
  "hrun w (hask Subscribers) c s = ((c, Inr (subscribers (srv_events s))), s)"
  "hrun w (hask (OfferEvent q e)) c s = ((c, Inr ()), s\<lparr>srv_events := offer q e (srv_events s)\<rparr>)"
  by (simp_all add: hrun_def hask_def)

end
