(* ===== verification/Handler.thy ===== *)
theory Handler
  imports Http CallSignature
begin

text \<open>
  The request handlers of the dev server (\<^verbatim>\<open>_DevHandler\<close> of \<^verbatim>\<open>dev.py\<close>): the routing, the
  interception of a tool call, the reports of its outcome, the decisions on approvals, and the
  event stream. Every handler is a program whose journal calls other threads may interleave
  with; \<open>dispatch\<close> is a whole request.
\<close>

section \<open>Configuration and events\<close>

record config =
  cfg_patterns :: "pystr list"
  cfg_auto_approve :: bool

definition DEFAULT_ORG_ID :: pystr where
  "DEFAULT_ORG_ID = lit ''local''"

definition EVENT_EFFECT_INTERCEPTED :: pystr where
  "EVENT_EFFECT_INTERCEPTED = lit ''effect_intercepted''"

definition EVENT_EFFECT_COMMITTED :: pystr where
  "EVENT_EFFECT_COMMITTED = lit ''effect_committed''"

definition EVENT_EFFECT_REPLAYED :: pystr where
  "EVENT_EFFECT_REPLAYED = lit ''effect_replayed''"

definition EVENT_EFFECT_FAILED :: pystr where
  "EVENT_EFFECT_FAILED = lit ''effect_failed''"

definition EVENT_APPROVAL_REQUIRED :: pystr where
  "EVENT_APPROVAL_REQUIRED = lit ''approval_required''"

definition EVENT_APPROVAL_APPROVED :: pystr where
  "EVENT_APPROVAL_APPROVED = lit ''approval_approved''"

definition EVENT_APPROVAL_REJECTED :: pystr where
  "EVENT_APPROVAL_REJECTED = lit ''approval_rejected''"

text \<open>\<^verbatim>\<open>str(exc)\<close>\<close>

definition exc_str :: "runtime \<Rightarrow> py_exc \<Rightarrow> pystr" where
  "exc_str rt e = (case e of ValueError m \<Rightarrow> m | _ \<Rightarrow> exc_text rt e)"

definition opt_field :: "string \<Rightarrow> json \<Rightarrow> json dict" where
  "opt_field k v = (if v = JNull then [] else [(lit k, v)])"

definition emit_envelope ::
  "pystr \<Rightarrow> pystr \<Rightarrow> pystr \<Rightarrow> json \<Rightarrow> pystr option \<Rightarrow> pystr option \<Rightarrow> json \<Rightarrow> envelope" where
  "emit_envelope event_type now org_id session_id effect_id approval_id payload =
     \<lparr>env_type = event_type,
      env_rest = [(lit ''timestamp'', JStr now), (lit ''org_id'', JStr org_id)] @
        opt_field ''session_id'' session_id @ opt_field ''effect_id'' (opt_json effect_id) @
        opt_field ''approval_id'' (opt_json approval_id) @ opt_field ''payload'' payload\<rparr>"

fun offer_all :: "nat list \<Rightarrow> envelope \<Rightarrow> unit handler" where
  "offer_all [] e = hret ()"
| "offer_all (q # qs) e = hseq (hask (OfferEvent q e)) (offer_all qs e)"

definition h_emit ::
  "pystr \<Rightarrow> pystr \<Rightarrow> json \<Rightarrow> pystr option \<Rightarrow> pystr option \<Rightarrow> json \<Rightarrow> unit handler" where
  "h_emit event_type org_id session_id effect_id approval_id payload =
     hbind (hask UtcNow) (\<lambda>now. hbind (hask Subscribers) (\<lambda>qs.
       offer_all qs (emit_envelope event_type now org_id session_id effect_id approval_id payload)))"

definition stage :: "string \<Rightarrow> json" where
  "stage s = JDict [(lit ''stage'', JStr (lit s))]"

section \<open>Small parts\<close>

definition require_method :: "string \<Rightarrow> unit handler" where
  "require_method allowed =
     hbind (hget c_command) (\<lambda>command.
       if command \<noteq> lit allowed
       then hraise (RequestError 405 (lit ''method_not_allowed'') (lit allowed @ lit '' required''))
       else hret ())"

definition org_id_of :: "conn \<Rightarrow> pystr" where
  "org_id_of c =
     (case header_get (c_headers c) ''X-UndoLog-Org-Id'' of
        Some (x # xs) \<Rightarrow> x # xs
      | _ \<Rightarrow>
          (case header_get (c_headers c) ''X-Org-Id'' of
             Some (x # xs) \<Rightarrow> x # xs
           | _ \<Rightarrow> DEFAULT_ORG_ID))"

definition tool_requires_approval :: "config \<Rightarrow> pystr \<Rightarrow> bool" where
  "tool_requires_approval cfg tool_name = list_ex (fnmatchcase tool_name) (cfg_patterns cfg)"

text \<open>An approval as the JSON object that is sent.\<close>

definition approval_json :: "approval \<Rightarrow> json" where
  "approval_json a = JDict
     [(lit ''id'', JStr (app_id a)), (lit ''org_id'', JStr (app_org a)), (lit ''session_id'', JStr (app_session a)),
      (lit ''effect_id'', JStr (app_effect a)), (lit ''tool_name'', JStr (app_tool a)),
      (lit ''args'', dec_app_args a), (lit ''status'', JStr (app_status a)),
      (lit ''created_at'', JStr (app_created a)), (lit ''resolved_at'', opt_json (app_resolved a))]"

definition approval_payload :: "pystr \<Rightarrow> json handler" where
  "approval_payload approval_id =
     hbind (hcall (GetApproval approval_id)) (\<lambda>a. hret (case a of None \<Rightarrow> JDict [] | Some x \<Rightarrow> approval_json x))"

definition executed_json :: "pystr option \<Rightarrow> json" where
  "executed_json effect_id = JDict
     [(lit ''status'', JStr (lit ''executed'')), (lit ''effect_id'', opt_json effect_id), (lit ''result'', JNull)]"

definition pending_json :: "pystr \<Rightarrow> json" where
  "pending_json approval_id = JDict
     [(lit ''status'', JStr (lit ''pending_approval'')), (lit ''approval_id'', JStr approval_id),
      (lit ''retry_after'', JInt 5)]"

definition replayed_json :: "pystr \<Rightarrow> json option \<Rightarrow> json" where
  "replayed_json effect_id result = JDict
     [(lit ''status'', JStr (lit ''replayed'')), (lit ''effect_id'', JStr effect_id),
      (lit ''result'', case result of None \<Rightarrow> JNull | Some v \<Rightarrow> v)]"

definition handle_health :: "unit handler" where
  "handle_health = send_json 200 (JDict [(lit ''status'', JStr (lit ''ok'')), (lit ''service'', JStr (lit ''undolog-dev''))])"

section \<open>Tool calls\<close>

record tool_call =
  tc_session :: pystr
  tc_tool :: pystr
  tc_args :: json
  tc_step :: int
  tc_version :: pystr

definition tool_call_of_body :: "runtime \<Rightarrow> json dict \<Rightarrow> handler_exc + tool_call" where
  "tool_call_of_body rt body =
     (let required = Inl (bad_request ''session_id and tool_name are required'');
          bad_step = Inl (bad_request ''step_index must be a non-negative integer'');
          version = (case map_of body (lit ''tool_version'') of
             None \<Rightarrow> lit ''1.0.0'' | Some (JStr v) \<Rightarrow> v | Some v \<Rightarrow> py_repr rt v)
      in case map_of body (lit ''session_id'') of
           Some (JStr session_id) \<Rightarrow>
             if session_id = [] then required
             else (case map_of body (lit ''tool_name'') of
               Some (JStr tool_name) \<Rightarrow>
                 if tool_name = [] then required
                 else (case (case map_of body (lit ''args'') of None \<Rightarrow> JDict [] | Some v \<Rightarrow> v) of
                   JDict args \<Rightarrow>
                     (case (case map_of body (lit ''step_index'') of None \<Rightarrow> JInt 0 | Some v \<Rightarrow> v) of
                        JInt step_index \<Rightarrow>
                          if step_index < 0 then bad_step
                          else Inr \<lparr>tc_session = session_id, tc_tool = tool_name, tc_args = JDict args,
                                    tc_step = step_index, tc_version = version\<rparr>
                      | _ \<Rightarrow> bad_step)
                 | _ \<Rightarrow> Inl (bad_request ''args must be a JSON object''))
             | _ \<Rightarrow> required)
         | _ \<Rightarrow> required)"

definition tool_call_signature :: "runtime \<Rightarrow> tool_call \<Rightarrow> pystr handler" where
  "tool_call_signature rt t =
     (case call_signature rt (tc_session t) (tc_step t) (tc_tool t) (tc_args t) of
        Inr sg \<Rightarrow> hret sg
      | Inl e \<Rightarrow>
          if is_value_error e
          then hraise (RequestError 400 (lit ''invalid_request'')
                 (lit ''unable to canonicalize tool args: '' @ exc_str rt e))
          else hraise (PyExc e))"

text \<open>The call as an effect to journal.\<close>

definition effect_of_call :: "config \<Rightarrow> tool_call \<Rightarrow> pystr \<Rightarrow> pystr \<Rightarrow> pystr \<Rightarrow> pystr option \<Rightarrow> new_effect" where
  "effect_of_call cfg t org_id sg status approval_id =
     \<lparr>ne_org = org_id, ne_session = tc_session t, ne_tool = tc_tool t, ne_step = tc_step t, ne_args = tc_args t,
      ne_signature = sg, ne_status = status, ne_approval = approval_id, ne_version = tc_version t,
      ne_tier = Some (if tool_requires_approval cfg (tc_tool t) then lit ''irreversible'' else lit ''compensable'')\<rparr>"

text \<open>The automatic approval: the effect it journaled, and the approval left to be waited for.\<close>

definition auto_approve :: "config \<Rightarrow> tool_call \<Rightarrow> pystr \<Rightarrow> pystr \<Rightarrow> (pystr option \<times> pystr option) handler" where
  "auto_approve cfg t org_id sg =
     hbind (hask Uuid4) (\<lambda>aid.
     hbind (hcall (CreateEffect (effect_of_call cfg t org_id sg EFFECT_EXECUTING (Some aid)))) (\<lambda>eid.
     case eid of
       None \<Rightarrow> hret (None, Some aid)
     | Some e \<Rightarrow>
         hbind (hcall (ResolveApproval aid APPROVAL_APPROVED)) (\<lambda>_.
         hseq (h_emit EVENT_APPROVAL_REQUIRED org_id (JStr (tc_session t)) (Some e) (Some aid) (stage ''approval_required''))
         (hbind (approval_payload aid) (\<lambda>p.
         hseq (h_emit EVENT_APPROVAL_APPROVED org_id (JStr (tc_session t)) (Some e) (Some aid) p)
         (hret (Some e, None)))))))"

text \<open>
  A signature without a live effect: the effect journaled for it, the approval it waits for, and
  the effect of a concurrent call that was first.
\<close>

definition claim_signature ::
  "config \<Rightarrow> tool_call \<Rightarrow> pystr \<Rightarrow> pystr \<Rightarrow> (pystr option \<times> pystr option \<times> effect option) handler" where
  "claim_signature cfg t org_id sg =
     hbind
       (if tool_requires_approval cfg (tc_tool t) then
          if cfg_auto_approve cfg
          then hbind (auto_approve cfg t org_id sg) (\<lambda>(eid, aid). hret (EFFECT_EXECUTING, eid, aid))
          else hbind (hask Uuid4) (\<lambda>aid. hret (EFFECT_AWAITING_APPROVAL, None, Some aid))
        else hret (EFFECT_EXECUTING, None, None))
       (\<lambda>(status, eid, aid).
     hbind
       (case eid of
          Some e \<Rightarrow> hret (Some e)
        | None \<Rightarrow> hcall (CreateEffect (effect_of_call cfg t org_id sg status aid))) (\<lambda>eid.
     case eid of
       Some e \<Rightarrow> hret (Some e, aid, None)
     | None \<Rightarrow> hbind (hcall (FindLiveEffect sg)) (\<lambda>existing. hret (None, aid, existing))))"

definition respond_for_live_effect :: "config \<Rightarrow> effect \<Rightarrow> pystr \<Rightarrow> unit handler" where
  "respond_for_live_effect cfg e org_id =
     (let executed = send_json 200 (executed_json (Some (eff_id e))) in
      if eff_status e = EFFECT_COMMITTED then
        hbind (hcall (RecordReplay (eff_id e))) (\<lambda>_.
        hseq (h_emit EVENT_EFFECT_REPLAYED org_id (JStr (eff_session e)) (Some (eff_id e)) None (stage ''replayed''))
        (send_json 200 (replayed_json (eff_id e) (dec_result e))))
      else if eff_status e = EFFECT_AWAITING_APPROVAL then
        hbind (hcall (FindPendingApproval (eff_id e))) (\<lambda>approval.
        if cfg_auto_approve cfg then
          hseq
            (case approval of
               None \<Rightarrow> hret ()
             | Some a \<Rightarrow>
                 hbind (hcall (ResolveApproval (app_id a) APPROVAL_APPROVED)) (\<lambda>_.
                 hbind (approval_payload (app_id a)) (\<lambda>p.
                 h_emit EVENT_APPROVAL_APPROVED org_id (JStr (eff_session e)) (Some (eff_id e)) (Some (app_id a)) p)))
            executed
        else
          (case approval of
             None \<Rightarrow> executed
           | Some a \<Rightarrow> send_json 202 (pending_json (app_id a))))
      else executed)"

text \<open>The decision on a call with a signature, from the first look into the journal to the response.\<close>

definition decide_call :: "config \<Rightarrow> tool_call \<Rightarrow> pystr \<Rightarrow> pystr \<Rightarrow> unit handler" where
  "decide_call cfg t org_id sg =
     hbind (hcall (FindLiveEffect sg)) (\<lambda>existing.
     hbind (case existing of
              None \<Rightarrow> claim_signature cfg t org_id sg
            | Some e \<Rightarrow> hret (None, None, Some e)) (\<lambda>(effect_id, approval_id, existing).
     case existing of
       Some e \<Rightarrow> respond_for_live_effect cfg e org_id
     | None \<Rightarrow>
         (case approval_id of
            Some aid \<Rightarrow>
              hseq (h_emit EVENT_APPROVAL_REQUIRED org_id (JStr (tc_session t)) effect_id (Some aid)
                     (stage ''approval_required''))
                (send_json 202 (pending_json aid))
          | None \<Rightarrow> send_json 200 (executed_json effect_id))))"

definition handle_tool_call :: "runtime \<Rightarrow> config \<Rightarrow> unit handler" where
  "handle_tool_call rt cfg =
     hbind (read_body rt) (\<lambda>body.
     case tool_call_of_body rt body of
       Inl e \<Rightarrow> hraise e
     | Inr t \<Rightarrow>
     hbind (hget org_id_of) (\<lambda>org_id.
     hbind (tool_call_signature rt t) (\<lambda>sg.
     hseq (h_emit EVENT_EFFECT_INTERCEPTED org_id (JStr (tc_session t)) None None (stage ''intercepted''))
       (decide_call cfg t org_id sg))))"

section \<open>Reports and decisions\<close>

definition body_session :: "json dict \<Rightarrow> json" where
  "body_session body = (case map_of body (lit ''session_id'') of None \<Rightarrow> JNull | Some v \<Rightarrow> v)"

definition outcome_json :: "string \<Rightarrow> pystr \<Rightarrow> json" where
  "outcome_json status effect_id = JDict [(lit ''status'', JStr (lit status)), (lit ''effect_id'', JStr effect_id)]"

definition handle_effect_action :: "runtime \<Rightarrow> pystr \<Rightarrow> pystr \<Rightarrow> unit handler" where
  "handle_effect_action rt effect_id action =
     hbind (hget org_id_of) (\<lambda>org_id.
     hbind (read_body rt) (\<lambda>body.
     let missing = send_error 404 (lit ''not_found'') (lit ''effect not found'') in
     if action = lit ''commit'' then
       (case (case map_of body (lit ''result'') of None \<Rightarrow> JDict [] | Some v \<Rightarrow> v) of
          JDict result \<Rightarrow>
            hbind (hcall (RecordCommit effect_id (JDict result))) (\<lambda>found.
            if \<not> found then missing
            else hseq (h_emit EVENT_EFFECT_COMMITTED org_id (body_session body) (Some effect_id) None (stage ''committed''))
              (send_json 200 (outcome_json ''committed'' effect_id)))
        | _ \<Rightarrow> hraise (bad_request ''result must be a JSON object''))
     else
       (case (case map_of body (lit ''error'') of None \<Rightarrow> JStr [] | Some v \<Rightarrow> v) of
          JStr error \<Rightarrow>
            hbind (hcall (RecordFail effect_id error)) (\<lambda>found.
            if \<not> found then missing
            else hseq (h_emit EVENT_EFFECT_FAILED org_id (body_session body) (Some effect_id) None
                (JDict [(lit ''stage'', JStr (lit ''execute'')), (lit ''error'', JStr (lit ''failed''))]))
              (send_json 200 (outcome_json ''failed'' effect_id)))
        | _ \<Rightarrow> hraise (bad_request ''error must be a string''))))"

definition approved_json :: "pystr \<Rightarrow> pystr \<Rightarrow> json \<Rightarrow> json" where
  "approved_json approval_id effect_id result = JDict
     [(lit ''status'', JStr (lit ''approved'')), (lit ''approval_id'', JStr approval_id),
      (lit ''effect_id'', JStr effect_id), (lit ''execution'', JStr (lit ''committed'')), (lit ''result'', result)]"

definition already_resolved :: "unit handler" where
  "already_resolved = send_error 409 (lit ''conflict'') (lit ''approval already resolved'')"

definition reject_held :: "pystr \<Rightarrow> pystr \<Rightarrow> approval \<Rightarrow> unit handler" where
  "reject_held approval_id org_id a =
     hbind (hcall (ResolveApproval approval_id APPROVAL_REJECTED)) (\<lambda>done.
     if \<not> done then already_resolved
     else
       hbind (hcall (MarkRejected (app_effect a))) (\<lambda>_.
       hbind (approval_payload approval_id) (\<lambda>p.
       hseq (h_emit EVENT_APPROVAL_REJECTED org_id (JStr (app_session a)) None (Some approval_id) p)
       (send_json 200 (JDict [(lit ''status'', JStr (lit ''rejected'')), (lit ''approval_id'', JStr approval_id)])))))"

definition approve_held :: "pystr \<Rightarrow> pystr \<Rightarrow> approval \<Rightarrow> unit handler" where
  "approve_held approval_id org_id a =
     hbind (hcall (ResolveApproval approval_id APPROVAL_APPROVED)) (\<lambda>done.
     if \<not> done then already_resolved
     else
       let result = mock_tool_result (app_tool a) (dec_app_args a) in
       hbind (hcall (RecordCommit (app_effect a) result)) (\<lambda>_.
       hbind (approval_payload approval_id) (\<lambda>p.
       hseq (h_emit EVENT_APPROVAL_APPROVED org_id (JStr (app_session a)) (Some (app_effect a)) (Some approval_id) p)
       (send_json 200 (approved_json approval_id (app_effect a) result)))))"

definition handle_approval_decision :: "runtime \<Rightarrow> pystr \<Rightarrow> pystr \<Rightarrow> unit handler" where
  "handle_approval_decision rt approval_id action =
     hbind (hget org_id_of) (\<lambda>org_id.
     hbind (hcall (GetApproval approval_id)) (\<lambda>approval.
     case approval of
       None \<Rightarrow> send_error 404 (lit ''not_found'') (lit ''approval not found'')
     | Some a \<Rightarrow>
         if app_status a \<noteq> APPROVAL_PENDING then already_resolved
         else
           hbind (read_body rt) (\<lambda>_.
           if action = lit ''reject'' then reject_held approval_id org_id a
           else approve_held approval_id org_id a)))"

definition handle_list_approvals :: "pystr \<Rightarrow> unit handler" where
  "handle_list_approvals query =
     (let state = query_param query (lit ''state'') APPROVAL_PENDING in
      if state \<notin> set [APPROVAL_PENDING, APPROVAL_APPROVED, APPROVAL_REJECTED, lit ''all'']
      then hraise (bad_request ''invalid state'')
      else case py_int 10 (query_param query (lit ''limit'') (show_int DEFAULT_APPROVAL_LIMIT)) of
        None \<Rightarrow> hraise (bad_request ''invalid limit'')
      | Some limit \<Rightarrow>
          hbind (hcall (ListApprovals state limit)) (\<lambda>as. send_json 200 (JList (map approval_json as))))"

section \<open>The event stream\<close>

definition use_aliases :: "conn \<Rightarrow> pystr \<Rightarrow> bool" where
  "use_aliases c query \<longleftrightarrow>
     py_lower (query_param query (lit ''aliases'') (lit ''false'')) \<in> {lit ''true'', lit ''1''} \<or>
     py_lower (query_param query (lit ''naming'') (lit ''proxy'')) \<in> {lit ''standard'', lit ''aliases''} \<or>
     py_lower (case header_get (c_headers c) ''X-Event-Naming'' of None \<Rightarrow> [] | Some v \<Rightarrow> v)
       \<in> {lit ''standard'', lit ''aliases''}"

text \<open>
  The stream up to its loop: the subscription and whether to rename events. The loop itself is
  \<open>stream_step\<close> of theory \<open>DevServer\<close>.
\<close>

definition handle_events :: "pystr \<Rightarrow> (nat \<times> bool) handler" where
  "handle_events query =
     hbind (hget (\<lambda>c. use_aliases c query)) (\<lambda>aliases.
     hbind (hask NewSubscription) (\<lambda>q.
     hbind request_id (\<lambda>rid.
     hseq (hmodify (\<lambda>c. c\<lparr>c_close := True, c_sent := c_sent c @
         [\<lparr>rs_status = 200, rs_headers = [(lit ''Content-Type'', lit ''text/event-stream''),
            (lit ''Cache-Control'', lit ''no-cache''), (lit ''X-Request-Id'', rid)], rs_body = []\<rparr>]\<rparr>))
     (hret (q, aliases)))))"

section \<open>Routing\<close>

text \<open>\<^verbatim>\<open>^/approvals/([^/]+)/(approve|reject)$\<close> and its like for effects.\<close>

definition match_action :: "string \<Rightarrow> string list \<Rightarrow> pystr \<Rightarrow> (pystr \<times> pystr) option" where
  "match_action pre actions path =
     (if prefix (lit pre) path then
        (let (i, sep, action) = py_partition 47 (drop (length pre) path) in
         if i \<noteq> [] \<and> sep \<noteq> [] \<and> action \<in> set (map lit actions) then Some (i, action) else None)
      else None)"

definition route :: "runtime \<Rightarrow> config \<Rightarrow> pystr \<Rightarrow> pystr \<Rightarrow> (nat \<times> bool) option handler" where
  "route rt cfg path query =
     (let answer = (\<lambda>m. hseq m (hret None)) in
      if path = lit ''/health'' then answer (hseq (require_method ''GET'') handle_health)
      else if path = lit ''/events'' then
        hseq (require_method ''GET'') (hbind (handle_events query) (\<lambda>st. hret (Some st)))
      else if path = lit ''/approvals'' then
        answer (hseq (require_method ''GET'') (handle_list_approvals query))
      else if path = lit ''/mcp/tool_call'' then
        answer (hseq (require_method ''POST'') (handle_tool_call rt cfg))
      else case match_action ''/approvals/'' [''approve'', ''reject''] path of
        Some (i, action) \<Rightarrow> answer (hseq (require_method ''POST'') (handle_approval_decision rt i action))
      | None \<Rightarrow>
          (case match_action ''/effects/'' [''commit'', ''fail''] path of
             Some (i, action) \<Rightarrow> answer (hseq (require_method ''PUT'') (handle_effect_action rt i action))
           | None \<Rightarrow> answer (send_error 404 (lit ''not_found'') (lit ''unknown path''))))"

definition dispatch :: "runtime \<Rightarrow> config \<Rightarrow> (nat \<times> bool) option handler" where
  "dispatch rt cfg =
     hbind (hget c_path) (\<lambda>target.
     hbind (hlift (urlparse rt target)) (\<lambda>(path, query).
     hcatch (route rt cfg path query) (\<lambda>e. case e of
       RequestError status code msg \<Rightarrow> hseq (send_error status code msg) (hret None)
     | PyExc x \<Rightarrow>
         if is_value_error x
         then hseq (send_error 400 (lit ''invalid_request'') (exc_str rt x)) (hret None)
         else hraise (PyExc x))))"

end
