(* ===== verification/HandlerLogic.thy ===== *)
theory HandlerLogic
  imports Handler
begin

text \<open>
  Facts about handlers that hold whatever other threads do between their calls: they quantify
  over every result a call may have, so they are facts about the set of outcomes of the program.
  The locale \<open>conn_frame\<close> carries a relation between the connection before and after through all
  combinators; it is interpreted on what handlers may change of a connection.
\<close>

section \<open>Outcomes\<close>

lemma set_hret [simp]: "set_prog (hret x c) = {(c, Inr x)}"
  by (simp add: hret_def)

lemma set_hraise [simp]: "set_prog (hraise e c) = {(c, Inl e)}"
  by (simp add: hraise_def)

lemma set_hget [simp]: "set_prog (hget f c) = {(c, Inr (f c))}"
  by (simp add: hget_def)

lemma set_hmodify [simp]: "set_prog (hmodify f c) = {(f c, Inr ())}"
  by (simp add: hmodify_def)

lemma set_hbind:
  "set_prog (hbind m f c) =
     {(c', Inl e) | c' e. (c', Inl e) \<in> set_prog (m c)} \<union>
     (\<Union>(c', r) \<in> set_prog (m c). case r of Inl e \<Rightarrow> {} | Inr x \<Rightarrow> set_prog (f x c'))"
  by (auto simp: hbind_def set_pbind split: sum.splits prod.splits)

lemma set_hbindE:
  assumes "y \<in> set_prog (hbind m f c)"
  obtains c' e where "y = (c', Inl e)" "(c', Inl e) \<in> set_prog (m c)"
  | c' x where "(c', Inr x) \<in> set_prog (m c)" "y \<in> set_prog (f x c')"
  using assms by (auto simp: set_hbind split: sum.splits)

lemma set_hcatchE:
  assumes "y \<in> set_prog (hcatch m h c)"
  obtains c' x where "y = (c', Inr x)" "(c', Inr x) \<in> set_prog (m c)"
  | c' e where "(c', Inl e) \<in> set_prog (m c)" "y \<in> set_prog (h e c')"
proof -
  from assms obtain c' r where r: "(c', r) \<in> set_prog (m c)"
      "y \<in> set_prog (case r of Inl e \<Rightarrow> h e c' | Inr x \<Rightarrow> Done (c', Inr x))"
    by (auto simp: hcatch_def set_pbind)
  with that show ?thesis by (cases r) auto
qed

definition simple_call :: "(('a \<Rightarrow> 'b prog) \<Rightarrow> 'b prog) \<Rightarrow> bool" where
  "simple_call call \<longleftrightarrow> (\<forall>k. set_prog (call k) \<subseteq> (\<Union>r. set_prog (k r)))"

lemma simple_calls [simp]:
  "simple_call (FindLiveEffect sg)" "simple_call (CreateEffect n)" "simple_call (RecordCommit i v)"
  "simple_call (RecordReplay i)" "simple_call (RecordFail i er)" "simple_call (MarkRejected i)"
  "simple_call (FindPendingApproval i)" "simple_call (GetApproval i)" "simple_call (ResolveApproval i st)"
  "simple_call (ListApprovals st l)" "simple_call Subscribers" "simple_call (OfferEvent q e)"
  "simple_call NewSubscription" "simple_call Uuid4" "simple_call UtcNow"
  by (auto simp: simple_call_def)

section \<open>Frames\<close>

locale conn_frame =
  fixes rel :: "conn \<Rightarrow> conn \<Rightarrow> bool"
  assumes refl: "rel c c" and trans: "rel c c' \<Longrightarrow> rel c' c'' \<Longrightarrow> rel c c''"
begin

definition keeps :: "'a handler \<Rightarrow> bool" where
  "keeps m \<longleftrightarrow> (\<forall>c c' r. (c', r) \<in> set_prog (m c) \<longrightarrow> rel c c')"

lemma keepsD: "keeps m \<Longrightarrow> (c', r) \<in> set_prog (m c) \<Longrightarrow> rel c c'"
  by (auto simp: keeps_def)

lemma keepsI: "(\<And>c c' r. (c', r) \<in> set_prog (m c) \<Longrightarrow> rel c c') \<Longrightarrow> keeps m"
  by (auto simp: keeps_def)

lemma keeps_basic: "keeps (hret x)" "keeps (hraise e)" "keeps (hget f)"
  by (simp_all add: keeps_def refl)

lemma keeps_hmodify: "(\<And>c. rel c (f c)) \<Longrightarrow> keeps (hmodify f)"
  by (simp add: keeps_def)

lemma keeps_hbind:
  assumes "keeps m" "\<And>x. keeps (f x)"
  shows "keeps (hbind m f)"
proof (rule keepsI)
  fix c c' r
  assume "(c', r) \<in> set_prog (hbind m f c)"
  then show "rel c c'"
    by (rule set_hbindE) (use keepsD [OF assms(1)] keepsD [OF assms(2)] trans in blast)+
qed

lemma keeps_hseq: "keeps m \<Longrightarrow> keeps n \<Longrightarrow> keeps (hseq m n)"
  unfolding hseq_def by (rule keeps_hbind)

lemma keeps_hcatch:
  assumes "keeps m" "\<And>e. keeps (h e)"
  shows "keeps (hcatch m h)"
proof (rule keepsI)
  fix c c' r
  assume "(c', r) \<in> set_prog (hcatch m h c)"
  then show "rel c c'"
    by (rule set_hcatchE) (use keepsD [OF assms(1)] keepsD [OF assms(2)] trans in blast)+
qed

lemma keeps_call: "simple_call call \<Longrightarrow> keeps (hcall call)"
  by (fastforce simp: keeps_def hcall_def simple_call_def refl)

lemma keeps_ask: "simple_call call \<Longrightarrow> keeps (hask call)"
  by (fastforce simp: keeps_def hask_def simple_call_def refl)

lemma keeps_lift: "keeps (hlift r)"
  by (simp add: hlift_def keeps_basic split: sum.split)

lemma keeps_if: "keeps m \<Longrightarrow> keeps n \<Longrightarrow> keeps (if b then m else n)"
  by simp

lemma keeps_option: "keeps m \<Longrightarrow> (\<And>x. keeps (f x)) \<Longrightarrow> keeps (case z of None \<Rightarrow> m | Some x \<Rightarrow> f x)"
  by (simp split: option.split)

lemma keeps_pair: "(\<And>x y. keeps (f x y)) \<Longrightarrow> keeps (case z of (x, y) \<Rightarrow> f x y)"
  by (simp split: prod.split)

lemma keeps_sum: "(\<And>x. keeps (f x)) \<Longrightarrow> (\<And>y. keeps (g y)) \<Longrightarrow> keeps (case z of Inl x \<Rightarrow> f x | Inr y \<Rightarrow> g y)"
  by (simp split: sum.split)

lemma keeps_offer_all: "keeps (offer_all qs e)"
  by (induction qs) (simp_all add: keeps_basic keeps_hseq keeps_ask)

lemmas keeps_rules = keeps_basic keeps_hbind keeps_hseq keeps_hcatch keeps_call keeps_ask keeps_lift
  keeps_if keeps_option keeps_pair keeps_sum keeps_offer_all

lemma keeps_emit: "keeps (h_emit t org ses eff app p)"
  unfolding h_emit_def by (intro keeps_rules simple_calls)

end

section \<open>What a handler may change\<close>

text \<open>No response is sent.\<close>

interpretation quiet: conn_frame "\<lambda>c c'. c_sent c' = c_sent c"
  by unfold_locales simp_all

text \<open>
  The request stays the same, bytes are only consumed, responses are only added, and the two
  attributes that outlive the request are set but never cleared.
\<close>

definition only_reads :: "conn \<Rightarrow> conn \<Rightarrow> bool" where
  "only_reads c c' \<longleftrightarrow> c_command c' = c_command c \<and> c_path c' = c_path c \<and> c_headers c' = c_headers c \<and>
     suffix (c_rfile c') (c_rfile c) \<and> prefix (c_sent c) (c_sent c') \<and>
     (c_body_read c \<longrightarrow> c_body_read c') \<and> (c_request_id c \<noteq> None \<longrightarrow> c_request_id c' = c_request_id c)"

interpretation reads: conn_frame only_reads
  by unfold_locales (auto simp: only_reads_def dest: suffix_order.order_trans prefix_order.order_trans)

lemma stream_read_suffix: "stream_read n s = Inr (d, r) \<Longrightarrow> suffix r s"
  by (auto simp: stream_read_def suffix_drop split: if_splits)

lemma readline_suffix: "stream_readline n s = (l, r) \<Longrightarrow> suffix r s"
  using readline_split [of n s l r] by (auto simp: suffix_def)

lemma consume_suffix: "consume n s = (r, x) \<Longrightarrow> suffix r s"
  by (auto simp: consume_eq suffix_drop)

lemma skip_trailers_suffix: "suffix (skip_trailers s) s"
proof (induction s rule: skip_trailers.induct)
  case (1 s)
  obtain l r where l: "stream_readline MAX_CHUNK_LINE_BYTES s = (l, r)" by (cases "stream_readline MAX_CHUNK_LINE_BYTES s")
  show ?case
  proof (cases "l = [] \<or> l = [13, 10] \<or> l = [10]")
    case True
    then show ?thesis using readline_suffix [OF l] l by (subst skip_trailers.simps) simp
  next
    case False
    then have "skip_trailers s = skip_trailers r" using l by (subst skip_trailers.simps) simp
    with 1 [OF l [symmetric] refl False] readline_suffix [OF l] show ?thesis
      by (auto dest: suffix_order.order_trans)
  qed
qed

text \<open>One chunk of a body, past its size line.\<close>

lemma read_chunks_step:
  assumes "stream_readline MAX_CHUNK_LINE_BYTES s = (l, s1)" "l \<noteq> []"
    and "int_ascii 16 (takeWhile (\<lambda>b. b \<noteq> 59) l) = Some n" "n \<noteq> 0"
  shows "read_chunks parts tot overflow s =
    (if overflow \<or> tot + n > int MAX_BODY_BYTES then
       if nat n + 2 \<le> length s1 then read_chunks parts tot True (drop 2 (drop (nat n) s1))
       else (if nat n \<le> length s1 then drop 2 (drop (nat n) s1) else drop (nat n) s1,
             Inl (bad_request ''truncated request body''))
     else
       case stream_read n s1 of
         Inl e \<Rightarrow> (s1, Inl (PyExc e))
       | Inr (data, s2) \<Rightarrow>
           if int (length data) < n then (s2, Inl (bad_request ''truncated request body''))
           else if 2 \<le> length s2 then read_chunks (parts @ data) (tot + n) overflow (drop 2 s2)
           else (drop 2 s2, Inl (bad_request ''truncated request body'')))"
  by (subst read_chunks.simps) (auto simp: assms consume_eq split: sum.split)

lemma read_chunks_suffix: "suffix (fst (read_chunks parts tot overflow s)) s"
proof (induction "length s" arbitrary: parts tot overflow s rule: less_induct)
  case less
  obtain l s1 where l: "stream_readline MAX_CHUNK_LINE_BYTES s = (l, s1)"
    by (cases "stream_readline MAX_CHUNK_LINE_BYTES s")
  note s1 = readline_suffix [OF l]
  show ?case
  proof (cases "l = [] \<or> int_ascii 16 (takeWhile (\<lambda>b. b \<noteq> 59) l) \<in> {None, Some 0}")
    case True
    then show ?thesis
      using s1 l suffix_order.order_trans [OF skip_trailers_suffix s1]
      by (subst read_chunks.simps) (auto split: option.split)
  next
    case False
    then obtain n where n: "l \<noteq> []" "int_ascii 16 (takeWhile (\<lambda>b. b \<noteq> 59) l) = Some n" "n \<noteq> 0" by auto
    have IH: "suffix (fst (read_chunks p t ov r)) s" if "suffix r s1" for p t ov r
    proof -
      have "length s1 < length s" using readline_split [OF l] n(1) by (cases l) auto
      then show ?thesis
        using less [of r] that s1 suffix_length_le [OF that] by (meson le_less_trans suffix_order.order_trans)
    qed
    have d: "suffix (drop k s1) s" "suffix (drop j (drop k s1)) s1" for j k
      using s1 suffix_order.order_trans [OF suffix_drop] by (auto intro: suffix_drop)
    show ?thesis
      using IH d s1 by (auto simp: read_chunks_step [OF l n] stream_read_def simp del: drop_drop split: sum.split)
  qed
qed

lemma read_body_conn: "y \<in> set_prog (read_body rt c) \<Longrightarrow> fst y = fst (read_raw c)"
  by (auto simp: read_body_def parse_body_def split: prod.splits sum.splits)

lemma read_raw_reads: "only_reads c (fst (read_raw c)) \<and> c_sent (fst (read_raw c)) = c_sent c"
  using read_chunks_suffix [of "[]" 0 False "c_rfile c"]
  by (auto simp: read_raw_def only_reads_def dest: stream_read_suffix split: prod.splits sum.splits option.split)

lemma read_body_keeps: "quiet.keeps (read_body rt)" "reads.keeps (read_body rt)"
  using read_body_conn read_raw_reads unfolding quiet.keeps_def reads.keeps_def by (metis fst_conv)+

lemma discard_reads: "only_reads c (discard_unread_body c)" "c_sent (discard_unread_body c) = c_sent c"
  by (auto simp: discard_unread_body_def only_reads_def consume_loop_eq suffix_drop split: option.split)

lemma request_id_keeps: "quiet.keeps request_id"
  unfolding request_id_def by (intro quiet.keeps_rules quiet.keeps_hmodify simple_calls) simp

lemma request_id_set: "(c', r) \<in> set_prog (request_id c) \<Longrightarrow>
    c' = c\<lparr>c_request_id := c_request_id c'\<rparr> \<and> (\<exists>i. c_request_id c' = Some i \<and> r = Inr i \<and>
      (c_request_id c = None \<or> c_request_id c = Some i))"
  by (auto simp: request_id_def hbind_def hget_def hask_def hseq_def hret_def hmodify_def split: option.splits)

lemma request_id_reads: "reads.keeps request_id"
proof (rule reads.keepsI)
  fix c c' r assume "(c', r) \<in> set_prog (request_id c)"
  from request_id_set [OF this] obtain i where "c' = c\<lparr>c_request_id := Some i\<rparr>"
      "c_request_id c = None \<or> c_request_id c = Some i" by metis
  then show "only_reads c c'" by (auto simp: only_reads_def)
qed

section \<open>Exactly one answer\<close>

text \<open>A handler that answers sends one response when it returns and none when it raises.\<close>

definition answers :: "'a handler \<Rightarrow> bool" where
  "answers m \<longleftrightarrow> (\<forall>c c' r. (c', r) \<in> set_prog (m c) \<longrightarrow>
     (case r of Inl e \<Rightarrow> c_sent c' = c_sent c | Inr x \<Rightarrow> \<exists>a. c_sent c' = c_sent c @ [a]))"

lemma answers_hbind:
  assumes "quiet.keeps m" "\<And>x. answers (f x)"
  shows "answers (hbind m f)"
  unfolding answers_def
proof (intro allI impI)
  fix c c' r
  assume "(c', r) \<in> set_prog (hbind m f c)"
  then show "case r of Inl e \<Rightarrow> c_sent c' = c_sent c | Inr x \<Rightarrow> \<exists>a. c_sent c' = c_sent c @ [a]"
  proof (rule set_hbindE)
    fix c1 e assume "(c', r) = (c1, Inl e)" "(c1, Inl e) \<in> set_prog (m c)"
    then show ?thesis using quiet.keepsD [OF assms(1)] by auto
  next
    fix c1 x assume "(c1, Inr x) \<in> set_prog (m c)" "(c', r) \<in> set_prog (f x c1)"
    then have "c_sent c1 = c_sent c"
      "case r of Inl e \<Rightarrow> c_sent c' = c_sent c1 | Inr x \<Rightarrow> \<exists>a. c_sent c' = c_sent c1 @ [a]"
      using quiet.keepsD [OF assms(1)] assms(2) [of x] unfolding answers_def by blast+
    then show ?thesis by (cases r) simp_all
  qed
qed

lemma answers_hseq: "quiet.keeps m \<Longrightarrow> answers n \<Longrightarrow> answers (hseq m n)"
  unfolding hseq_def by (rule answers_hbind)

lemma answers_raise: "answers (hraise e)"
  by (simp add: answers_def)

lemma answers_if: "answers m \<Longrightarrow> answers n \<Longrightarrow> answers (if b then m else n)"
  by simp

lemma answers_option: "answers m \<Longrightarrow> (\<And>x. answers (f x)) \<Longrightarrow> answers (case z of None \<Rightarrow> m | Some x \<Rightarrow> f x)"
  by (simp split: option.split)

lemma answers_pair: "(\<And>x y. answers (f x y)) \<Longrightarrow> answers (case z of (x, y) \<Rightarrow> f x y)"
  by (simp split: prod.split)

lemma answers_sum: "(\<And>x. answers (f x)) \<Longrightarrow> (\<And>y. answers (g y)) \<Longrightarrow> answers (case z of Inl x \<Rightarrow> f x | Inr y \<Rightarrow> g y)"
  by (simp split: sum.split)

lemma answers_append: "(\<And>c. \<exists>a. c_sent (f c) = c_sent c @ [a]) \<Longrightarrow> answers (hmodify f)"
  by (simp add: answers_def)

lemma answers_then: "answers m \<Longrightarrow> answers (hbind m (\<lambda>x. hret (f x)))"
  unfolding answers_def by (auto elim!: set_hbindE) fastforce+

lemmas answers_rules = answers_raise answers_if answers_option answers_pair answers_sum

lemma send_json_answers: "answers (send_json status payload)"
  unfolding send_json_def
  by (intro answers_hseq answers_hbind answers_append quiet.keeps_hmodify request_id_keeps discard_reads)
    (simp add: Let_def)

lemma send_error_answers: "answers (send_error status code msg)"
  unfolding send_error_def
  by (intro answers_hbind request_id_keeps quiet.keeps_ask simple_calls send_json_answers)

lemma answers_dict: "(\<And>d. answers (f d)) \<Longrightarrow> answers m \<Longrightarrow> answers (case v of JDict d \<Rightarrow> f d | _ \<Rightarrow> m)"
  by (cases v) simp_all

lemma answers_str: "(\<And>d. answers (f d)) \<Longrightarrow> answers m \<Longrightarrow> answers (case v of JStr d \<Rightarrow> f d | _ \<Rightarrow> m)"
  by (cases v) simp_all

lemmas quiet_rules = quiet.keeps_rules quiet.keeps_emit simple_calls read_body_keeps(1)

lemma approval_payload_quiet: "quiet.keeps (approval_payload i)"
  unfolding approval_payload_def by (intro quiet_rules)

lemma tool_call_signature_quiet: "quiet.keeps (tool_call_signature rt t)"
  unfolding tool_call_signature_def by (intro quiet_rules)

lemma auto_approve_quiet: "quiet.keeps (auto_approve cfg t org sg)"
  unfolding auto_approve_def by (intro quiet_rules approval_payload_quiet)

lemma claim_signature_quiet: "quiet.keeps (claim_signature cfg t org sg)"
  unfolding claim_signature_def by (intro quiet_rules auto_approve_quiet)

lemmas handler_answers = answers_hbind answers_hseq answers_rules answers_dict answers_str
  send_json_answers send_error_answers quiet_rules approval_payload_quiet

lemma respond_for_live_effect_answers: "answers (respond_for_live_effect cfg e org)"
  unfolding respond_for_live_effect_def Let_def by (intro handler_answers)

lemma handle_tool_call_answers: "answers (handle_tool_call rt cfg)"
  unfolding handle_tool_call_def decide_call_def
  by (intro handler_answers tool_call_signature_quiet claim_signature_quiet respond_for_live_effect_answers)

lemma handle_effect_action_answers: "answers (handle_effect_action rt i action)"
  unfolding handle_effect_action_def Let_def by (intro handler_answers)

lemmas approval_decision_defs = handle_approval_decision_def reject_held_def approve_held_def already_resolved_def

lemma handle_approval_decision_answers: "answers (handle_approval_decision rt i action)"
  unfolding approval_decision_defs Let_def by (intro handler_answers)

lemma handle_list_approvals_answers: "answers (handle_list_approvals query)"
  unfolding handle_list_approvals_def Let_def by (intro handler_answers)

lemma handle_events_answers: "answers (handle_events query)"
  unfolding handle_events_def
  by (intro answers_hbind quiet_rules request_id_keeps) (auto simp: hseq_def intro!: answers_then answers_append)

lemma require_method_quiet: "quiet.keeps (require_method m)"
  unfolding require_method_def by (intro quiet_rules)

lemma answers_done: "answers m \<Longrightarrow> answers (hseq m (hret x))"
  unfolding hseq_def by (rule answers_then)

lemma route_answers: "answers (route rt cfg path query)"
  unfolding route_def Let_def handle_health_def
  by (intro answers_if answers_option answers_pair answers_done answers_then answers_hseq require_method_quiet
    send_json_answers send_error_answers handle_tool_call_answers handle_effect_action_answers
    handle_approval_decision_answers handle_list_approvals_answers handle_events_answers)

section \<open>The connection after a request\<close>

lemmas reads_rules = reads.keeps_rules reads.keeps_emit simple_calls read_body_keeps(2) request_id_reads

lemma send_json_reads: "reads.keeps (send_json status payload)"
  unfolding send_json_def
  by (intro reads_rules reads.keeps_hmodify discard_reads) (auto simp: only_reads_def Let_def)

lemma send_error_reads: "reads.keeps (send_error status code msg)"
  unfolding send_error_def by (intro reads_rules send_json_reads)

lemma reads_dict: "(\<And>d. reads.keeps (f d)) \<Longrightarrow> reads.keeps m \<Longrightarrow> reads.keeps (case v of JDict d \<Rightarrow> f d | _ \<Rightarrow> m)"
  by (cases v) simp_all

lemma reads_str: "(\<And>d. reads.keeps (f d)) \<Longrightarrow> reads.keeps m \<Longrightarrow> reads.keeps (case v of JStr d \<Rightarrow> f d | _ \<Rightarrow> m)"
  by (cases v) simp_all

lemma handle_events_reads: "reads.keeps (handle_events query)"
  unfolding handle_events_def by (intro reads_rules reads.keeps_hmodify) (simp add: only_reads_def)

lemmas handler_reads = reads_rules send_json_reads send_error_reads reads_dict reads_str

lemma handler_parts_read:
  "reads.keeps (approval_payload i)" "reads.keeps (tool_call_signature rt t)" "reads.keeps (auto_approve cfg t org sg)"
  "reads.keeps (require_method m)"
  unfolding approval_payload_def tool_call_signature_def auto_approve_def require_method_def
  by (intro handler_reads)+

lemma claim_signature_reads: "reads.keeps (claim_signature cfg t org sg)"
  unfolding claim_signature_def by (intro handler_reads handler_parts_read)

lemma respond_for_live_effect_reads: "reads.keeps (respond_for_live_effect cfg e org)"
  unfolding respond_for_live_effect_def Let_def by (intro handler_reads handler_parts_read)

lemma handlers_read:
  "reads.keeps (handle_tool_call rt cfg)" "reads.keeps (handle_effect_action rt i action)"
  "reads.keeps (handle_approval_decision rt i action)" "reads.keeps (handle_list_approvals query)"
  unfolding handle_tool_call_def decide_call_def handle_effect_action_def approval_decision_defs handle_list_approvals_def Let_def
  by (intro handler_reads handler_parts_read claim_signature_reads respond_for_live_effect_reads)+

lemma route_reads: "reads.keeps (route rt cfg path query)"
  unfolding route_def Let_def handle_health_def
  by (intro handler_reads handler_parts_read handlers_read handle_events_reads)

section \<open>The journal calls of a request\<close>

definition hcalls_ok :: "'a handler \<Rightarrow> bool" where
  "hcalls_ok m \<longleftrightarrow> (\<forall>c. calls_ok (m c))"

definition good_call :: "(('a \<Rightarrow> 'b prog) \<Rightarrow> 'b prog) \<Rightarrow> bool" where
  "good_call call \<longleftrightarrow> (\<forall>k. (\<forall>r. calls_ok (k r)) \<longrightarrow> calls_ok (call k))"

lemma good_calls:
  "good_call (FindLiveEffect sg)" "good_call (RecordCommit i v)"
  "good_call (RecordReplay i)" "good_call (RecordFail i er)" "good_call (MarkRejected i)"
  "good_call (FindPendingApproval i)" "good_call (GetApproval i)"
  "good_call (ListApprovals st l)" "good_call Subscribers" "good_call (OfferEvent q e)"
  "good_call NewSubscription" "good_call Uuid4" "good_call UtcNow"
  "good_call (ResolveApproval i APPROVAL_APPROVED)" "good_call (ResolveApproval i APPROVAL_REJECTED)"
  "good_call (CreateEffect (effect_of_call cfg t org sg EFFECT_EXECUTING aid))"
  by (simp_all add: good_call_def effect_of_call_def APPROVAL_APPROVED_def APPROVAL_REJECTED_def APPROVAL_PENDING_def)

lemma hcalls_basic: "hcalls_ok (hret x)" "hcalls_ok (hraise e)" "hcalls_ok (hget f)" "hcalls_ok (hmodify g)"
  "hcalls_ok (read_body rt)"
  by (simp_all add: hcalls_ok_def hret_def hraise_def hget_def hmodify_def read_body_def)

lemma hcalls_hbind: "hcalls_ok m \<Longrightarrow> (\<And>x. hcalls_ok (f x)) \<Longrightarrow> hcalls_ok (hbind m f)"
  unfolding hcalls_ok_def hbind_def by (auto intro!: calls_ok_pbind split: sum.split)

lemma hcalls_hseq: "hcalls_ok m \<Longrightarrow> hcalls_ok n \<Longrightarrow> hcalls_ok (hseq m n)"
  unfolding hseq_def by (rule hcalls_hbind)

lemma hcalls_hcatch: "hcalls_ok m \<Longrightarrow> (\<And>e. hcalls_ok (h e)) \<Longrightarrow> hcalls_ok (hcatch m h)"
  unfolding hcalls_ok_def hcatch_def by (auto intro!: calls_ok_pbind split: sum.split)

lemma hcalls_call: "good_call call \<Longrightarrow> hcalls_ok (hcall call)" "good_call call' \<Longrightarrow> hcalls_ok (hask call')"
  by (simp_all add: hcalls_ok_def hcall_def hask_def good_call_def)

lemma hcalls_case:
  "hcalls_ok m \<Longrightarrow> hcalls_ok n \<Longrightarrow> hcalls_ok (if b then m else n)"
  "hcalls_ok m \<Longrightarrow> (\<And>x. hcalls_ok (f x)) \<Longrightarrow> hcalls_ok (case z of None \<Rightarrow> m | Some x \<Rightarrow> f x)"
  "(\<And>x y. hcalls_ok (g x y)) \<Longrightarrow> hcalls_ok (case p of (x, y) \<Rightarrow> g x y)"
  "(\<And>x. hcalls_ok (h x)) \<Longrightarrow> (\<And>y. hcalls_ok (h' y)) \<Longrightarrow> hcalls_ok (case q of Inl x \<Rightarrow> h x | Inr y \<Rightarrow> h' y)"
  "(\<And>d. hcalls_ok (k d)) \<Longrightarrow> hcalls_ok m \<Longrightarrow> hcalls_ok (case v of JDict d \<Rightarrow> k d | _ \<Rightarrow> m)"
  "(\<And>d. hcalls_ok (l d)) \<Longrightarrow> hcalls_ok m \<Longrightarrow> hcalls_ok (case v of JStr d \<Rightarrow> l d | _ \<Rightarrow> m)"
  by (auto split: option.split prod.split sum.split json.split)

lemma hcalls_offer_all: "hcalls_ok (offer_all qs e)"
  by (induction qs) (simp_all add: hcalls_basic hcalls_hseq hcalls_call good_calls)

lemmas hcalls_rules = hcalls_basic hcalls_hbind hcalls_hseq hcalls_hcatch hcalls_call hcalls_case good_calls
  hcalls_offer_all

lemma hcalls_send: "hcalls_ok (send_json st p)" "hcalls_ok (send_error st code msg)" "hcalls_ok request_id"
  "hcalls_ok (h_emit ty org ses eff app pl)" "hcalls_ok (approval_payload i)" "hcalls_ok (require_method m)"
  "hcalls_ok (tool_call_signature rt t)" "hcalls_ok (handle_events query)" "hcalls_ok (handle_list_approvals query)"
  unfolding send_error_def send_json_def request_id_def h_emit_def approval_payload_def require_method_def
    tool_call_signature_def handle_events_def handle_list_approvals_def Let_def
  by (intro hcalls_rules)+

lemma auto_approve_calls: "hcalls_ok (auto_approve cfg t org sg)"
  unfolding auto_approve_def by (intro hcalls_rules hcalls_send)

lemma hcalls_hbind_post:
  "hcalls_ok m \<Longrightarrow> (\<And>c c' x. (c', Inr x) \<in> set_prog (m c) \<Longrightarrow> hcalls_ok (f x)) \<Longrightarrow> hcalls_ok (hbind m f)"
  unfolding hcalls_ok_def hbind_def by (auto intro!: calls_ok_pbind split: sum.split)

lemma good_create:
  "status = EFFECT_EXECUTING \<or> status = EFFECT_AWAITING_APPROVAL \<and> aid \<noteq> None \<Longrightarrow>
     good_call (CreateEffect (effect_of_call cfg t org sg status aid))"
  by (simp add: good_call_def effect_of_call_def)

lemma claim_signature_calls: "hcalls_ok (claim_signature cfg t org sg)"
proof -
  let ?m = "if tool_requires_approval cfg (tc_tool t) then
      if cfg_auto_approve cfg
      then hbind (auto_approve cfg t org sg) (\<lambda>(eid, aid). hret (EFFECT_EXECUTING, eid, aid))
      else hbind (hask Uuid4) (\<lambda>aid. hret (EFFECT_AWAITING_APPROVAL, None, Some aid))
    else hret (EFFECT_EXECUTING, None, None)"
  have st: "status = EFFECT_EXECUTING \<or> status = EFFECT_AWAITING_APPROVAL \<and> aid \<noteq> None"
    if "(c', Inr (status, eid, aid)) \<in> set_prog (?m c)" for c c' status eid aid
    using that by (auto elim!: set_hbindE split: if_splits)
  show ?thesis
    unfolding claim_signature_def
  proof (rule hcalls_hbind_post)
    show "hcalls_ok ?m" by (intro hcalls_rules auto_approve_calls)
    fix c c' x
    assume m: "(c', Inr x) \<in> set_prog (?m c)"
    obtain status eid aid where x: "x = (status, eid, aid)" by (cases x)
    note good_create [OF st [OF m [unfolded x]]]
    then show "hcalls_ok (case x of (status, eid, aid) \<Rightarrow>
        hbind (case eid of Some e \<Rightarrow> hret (Some e)
               | None \<Rightarrow> hcall (CreateEffect (effect_of_call cfg t org sg status aid)))
          (\<lambda>eid. case eid of
             Some e \<Rightarrow> hret (Some e, aid, None)
           | None \<Rightarrow> hbind (hcall (FindLiveEffect sg)) (\<lambda>existing. hret (None, aid, existing))))"
      unfolding x prod.case by (intro hcalls_rules)
  qed
qed

lemma respond_for_live_effect_calls: "hcalls_ok (respond_for_live_effect cfg e org)"
  unfolding respond_for_live_effect_def Let_def by (intro hcalls_rules hcalls_send)

lemma handlers_calls:
  "hcalls_ok (handle_tool_call rt cfg)" "hcalls_ok (handle_effect_action rt i action)"
  "hcalls_ok (handle_approval_decision rt i action)"
  unfolding handle_tool_call_def decide_call_def handle_effect_action_def approval_decision_defs Let_def
  by (intro hcalls_rules hcalls_send claim_signature_calls respond_for_live_effect_calls)+

lemma route_calls: "hcalls_ok (route rt cfg path query)"
  unfolding route_def Let_def handle_health_def by (intro hcalls_rules hcalls_send handlers_calls)

lemma dispatch_calls: "hcalls_ok (dispatch rt cfg)"
proof -
  have "hcalls_ok (hlift r)" for r by (simp add: hlift_def hcalls_basic split: sum.split)
  then show ?thesis
    unfolding dispatch_def
    by (intro hcalls_rules route_calls) (auto intro!: hcalls_rules hcalls_send split: handler_exc.split)
qed

section \<open>Properties of every request\<close>

lemma exec_in_set: "fst (exec w p s) \<in> set_prog p"
  by (induction p arbitrary: s) (auto simp: Let_def split: prod.split, (meson rangeI)+)

definition returns :: "'a handler \<Rightarrow> bool" where
  "returns m \<longleftrightarrow> (\<forall>c c' e. (c', Inl e) \<notin> set_prog (m c))"

lemma returns_hbind: "returns m \<Longrightarrow> (\<And>x. returns (f x)) \<Longrightarrow> returns (hbind m f)"
  unfolding returns_def by (auto elim!: set_hbindE)

lemma returns_basic: "returns (hret x)" "returns (hmodify g)" "returns request_id" "returns (hask UtcNow)"
  using request_id_set by (auto simp: returns_def hask_def)

lemma returns_send_error: "returns (hseq (send_error status code msg) (hret x))"
  unfolding hseq_def send_error_def send_json_def by (intro returns_hbind returns_basic)

lemma dispatch_outcome:
  assumes "(c', r) \<in> set_prog (dispatch rt cfg c)" "urlparse rt (c_path c) = Inr (path, query)"
  shows "(case r of Inl e \<Rightarrow> c_sent c' = c_sent c \<and> (\<exists>x. e = PyExc x \<and> \<not> is_value_error x)
    | Inr _ \<Rightarrow> \<exists>a. c_sent c' = c_sent c @ [a])"
proof -
  let ?h = "\<lambda>e. case e of
       RequestError status code msg \<Rightarrow> hseq (send_error status code msg) (hret None)
     | PyExc x \<Rightarrow>
         if is_value_error x
         then hseq (send_error 400 (lit ''invalid_request'') (exc_str rt x)) (hret None)
         else hraise (PyExc x)"
  have "(c', r) \<in> set_prog (hcatch (route rt cfg path query) ?h c)"
    using assms by (auto simp: dispatch_def hlift_def elim!: set_hbindE)
  then show ?thesis
  proof (rule set_hcatchE)
    fix c1 x assume "(c', r) = (c1, Inr x)" "(c1, Inr x) \<in> set_prog (route rt cfg path query c)"
    then show ?thesis using route_answers [of rt cfg path query] unfolding answers_def by fastforce
  next
    fix c1 e assume e: "(c1, Inl e) \<in> set_prog (route rt cfg path query c)" "(c', r) \<in> set_prog (?h e c1)"
    have same: "c_sent c1 = c_sent c"
      using route_answers [of rt cfg path query] e(1) unfolding answers_def by fastforce
    show ?thesis
    proof (cases "\<exists>x. e = PyExc x \<and> \<not> is_value_error x")
      case True
      with e(2) same show ?thesis by auto
    next
      case False
      then obtain st code msg where "(c', r) \<in> set_prog (hseq (send_error st code msg) (hret None) c1)"
        using e(2) by (cases e) auto
      with answers_done [OF send_error_answers, of st code msg None] returns_send_error [of st code msg None] same
      show ?thesis unfolding answers_def returns_def by (cases r) fastforce+
    qed
  qed
qed

lemma dispatch_reads: "reads.keeps (dispatch rt cfg)"
  unfolding dispatch_def
  by (intro handler_reads route_reads) (auto intro!: handler_reads split: handler_exc.split)

section \<open>The requests of a server\<close>

abbreviation requests :: "runtime \<Rightarrow> config \<Rightarrow> (conn \<times> (handler_exc + (nat \<times> bool) option)) prog set" where
  "requests rt cfg \<equiv> range (dispatch rt cfg)"

lemma requests_calls: "\<forall>p \<in> requests rt cfg. calls_ok p"
  using dispatch_calls unfolding hcalls_ok_def by blast

end
