(* ===== verification/Samples.thy ===== *)
theory Samples
  imports HandlerLogic
begin

text \<open>
  A concrete run of the dev server, on which the hypotheses of its properties are evaluated: a
  world whose identifiers are numbered, a configuration that guards the tools \<^verbatim>\<open>drop_*\<close>, and
  requests as they arrive on the socket.
\<close>

definition sample_runtime :: runtime where
  "sample_runtime = decimal_runtime\<lparr>blake3 := \<lambda>bs. show_nat (sum_list bs)\<rparr>"

definition sample_world :: world where
  "sample_world = \<lparr>w_rt = sample_runtime, w_uuid = \<lambda>n. lit ''id-'' @ show_nat n, w_now = \<lambda>n. lit ''t-'' @ show_nat n\<rparr>"

definition sample_request :: "string \<Rightarrow> string \<Rightarrow> pystr \<Rightarrow> conn" where
  "sample_request command path body =
     \<lparr>c_command = lit command, c_path = lit path, c_headers = [(lit ''content-length'', show_nat (length body))],
      c_rfile = body, c_sent = [], c_close = False, c_body_read = False, c_request_id = None\<rparr>"

definition sample_config :: config where
  "sample_config = \<lparr>cfg_patterns = [lit ''drop_*''], cfg_auto_approve = False\<rparr>"

definition sample_call :: conn where
  "sample_call = sample_request ''POST'' ''/mcp/tool_call'' (json_dumps (JDict
     [(lit ''session_id'', JStr (lit ''00000000-0000-0000-0000-0000000000ab'')), (lit ''tool_name'', JStr (lit ''pay'')),
      (lit ''args'', JDict [(lit ''amount'', JInt 5)]), (lit ''step_index'', JInt 1)]))"

definition sample_fail :: conn where
  "sample_fail = sample_request ''PUT'' ''/effects/id-0/fail'' (json_dumps (JDict [(lit ''error'', JStr (lit ''boom''))]))"

definition sample_commit :: conn where
  "sample_commit = sample_request ''PUT'' ''/effects/id-0/commit''
     (json_dumps (JDict [(lit ''result'', JDict [(lit ''paid'', JBool True)])]))"

definition sample_guarded :: conn where
  "sample_guarded = sample_request ''POST'' ''/mcp/tool_call'' (json_dumps (JDict
     [(lit ''session_id'', JStr (lit ''00000000-0000-0000-0000-0000000000ab'')), (lit ''tool_name'', JStr (lit ''drop_table'')),
      (lit ''args'', JDict []), (lit ''step_index'', JInt 2)]))"

definition sample_decision :: "string \<Rightarrow> conn" where
  "sample_decision action = sample_request ''POST'' (''/approvals/id-0/'' @ action) []"

definition pay_call :: tool_call where
  "pay_call = \<lparr>tc_session = lit ''00000000-0000-0000-0000-0000000000ab'', tc_tool = lit ''pay'',
     tc_args = JDict [(lit ''amount'', JInt 5)], tc_step = 1, tc_version = lit ''1.0.0''\<rparr>"

definition drop_call :: tool_call where
  "drop_call = \<lparr>tc_session = lit ''00000000-0000-0000-0000-0000000000ab'', tc_tool = lit ''drop_table'',
     tc_args = JDict [], tc_step = 2, tc_version = lit ''1.0.0''\<rparr>"

definition signature_of :: "tool_call \<Rightarrow> pystr" where
  "signature_of t = projr (call_signature sample_runtime (tc_session t) (tc_step t) (tc_tool t) (tc_args t))"

lemma sample_requests: "set (map (dispatch rt cfg) cs) \<subseteq> requests rt cfg"
  by auto

lemma sample_world_runtime [simp]: "w_rt sample_world = sample_runtime"
  by (simp add: sample_world_def)

lemma sample_doubles: "wf_json v \<Longrightarrow> doubles sample_runtime v"
  using decimal_doubles [of v] by (simp add: doubles_def is_double_def [abs_def] sample_runtime_def)

end
