(* ===== verification/ServerSafety.thy ===== *)
theory ServerSafety
  imports Samples
begin

text \<open>
  What holds of the dev server however the threads of its requests take turns: one
  effect per call at a time, the well-formedness of its journal, and what is answered to a request.
\<close>

section \<open>Properties of all interleavings\<close>

text \<open>
  C19. One effect at a time, for the whole server. Whatever requests arrive and however their
  threads interleave, if the server journals a call signature twice then the first effect was
  reported failed or its approval was rejected in between.
\<close>

theorem server_exactly_once:
  assumes "run (pool_step w (requests rt cfg)) (empty_server, []) evss (s, ts)"
    and "concat evss = xs @ Created sg i # ys @ Created sg i' # zs"
  shows "\<exists>ev \<in> set ys. frees i ev"
proof -
  have "run journal_step empty_journal (concat evss) (srv_journal s)"
    using pool_run_journal [OF assms(1) requests_calls] by (simp add: empty_server_def)
  then show ?thesis using jl.created_once [OF empty_journal_ok] assms(2) by metis
qed

theorem server_exactly_once_witness:
  "\<exists>evss s ts. run (pool_step sample_world (requests sample_runtime sample_config)) (empty_server, []) evss (s, ts) \<and>
     concat evss = [] @ Created (signature_of pay_call) (lit ''id-0'') # [Fail (lit ''id-0'') (lit ''boom'') True] @
       Created (signature_of pay_call) (lit ''id-3'') # [] \<and>
     (\<exists>ev \<in> set [Fail (lit ''id-0'') (lit ''boom'') True]. frees (lit ''id-0'') ev)"
proof -
  let ?ps = "map (dispatch sample_runtime sample_config) [sample_call, sample_fail, sample_call]"
  let ?r = "serve 20 sample_world ?ps empty_server"
  have evs: "fst ?r = [] @ Created (signature_of pay_call) (lit ''id-0'') # [Fail (lit ''id-0'') (lit ''boom'') True] @
       Created (signature_of pay_call) (lit ''id-3'') # []"
    by code_simp
  obtain evss where r: "concat evss = fst ?r"
      "run (pool_step sample_world (requests sample_runtime sample_config)) (empty_server, []) evss
        (snd (snd ?r), fst (snd ?r))"
    using serve_reachable [OF sample_requests] by blast
  from server_exactly_once [OF r(2) r(1) [unfolded evs]] r(1) [unfolded evs] r(2) show ?thesis by blast
qed

text \<open>
  C24. The journal of a running server is always well formed: unique identifiers, at most one
  live effect per signature, every held effect has its approval and every approval its effect.
\<close>

theorem server_journal_ok:
  assumes "run (pool_step w (requests rt cfg)) (empty_server, []) evss (s, ts)"
  shows "journal_ok (srv_journal s)"
proof -
  have "run journal_step empty_journal (concat evss) (srv_journal s)"
    using pool_run_journal [OF assms requests_calls] by (simp add: empty_server_def)
  then show ?thesis by (rule jl.run_ok) (rule empty_journal_ok)
qed

theorem server_journal_ok_witness:
  "\<exists>evss s ts. run (pool_step sample_world (requests sample_runtime sample_config)) (empty_server, []) evss (s, ts) \<and>
     journal_ok (srv_journal s) \<and> effects (srv_journal s) \<noteq> []"
proof -
  let ?ps = "map (dispatch sample_runtime sample_config) [sample_call]"
  let ?r = "serve 20 sample_world ?ps empty_server"
  have e: "effects (srv_journal (snd (snd ?r))) \<noteq> []" by code_simp
  obtain evss where r: "run (pool_step sample_world (requests sample_runtime sample_config)) (empty_server, []) evss
        (snd (snd ?r), fst (snd ?r))"
    using serve_reachable [OF sample_requests] by blast
  from server_journal_ok [OF r] r e show ?thesis by blast
qed

lemma dispatch_unparsed: "urlparse rt (c_path c) = Inl x \<Longrightarrow> (c', r) \<in> set_prog (dispatch rt cfg c) \<Longrightarrow> c' = c \<and> r = Inl (PyExc x)"
  by (auto simp: dispatch_def hlift_def elim!: set_hbindE)

text \<open>
  C25. A request is answered exactly once, whatever other threads do meanwhile: when the handler
  returns it has sent one response, and when it fails it has sent none. It fails only for an
  exception that is no \<^verbatim>\<open>ValueError\<close>, or for a target that cannot be parsed, whose exception
  arises before the handler's \<^verbatim>\<open>try\<close>; such a target is never answered. The handler leaves the
  request as it was, only consumes bytes of the connection, and never changes what was sent before.
\<close>

theorem dispatch_answers:
  assumes "(c', r) \<in> set_prog (dispatch rt cfg c)"
  shows "only_reads c c' \<and>
    (case r of Inl e \<Rightarrow> c_sent c' = c_sent c \<and> (\<exists>x. e = PyExc x \<and> (\<not> is_value_error x \<or> urlparse rt (c_path c) = Inl x))
     | Inr _ \<Rightarrow> \<exists>a. c_sent c' = c_sent c @ [a]) \<and>
    (\<forall>x. urlparse rt (c_path c) = Inl x \<longrightarrow> r = Inl (PyExc x))"
proof (cases "urlparse rt (c_path c)")
  case (Inl x)
  with dispatch_unparsed [OF this assms] reads.keepsD [OF dispatch_reads assms] show ?thesis by simp
next
  case (Inr pq)
  then obtain path query where "urlparse rt (c_path c) = Inr (path, query)" by (cases pq) auto
  from reads.keepsD [OF dispatch_reads assms] dispatch_outcome [OF assms this] this show ?thesis
    by (auto split: sum.splits)
qed

theorem dispatch_answers_witness:
  "\<exists>c' r. (c', r) \<in> set_prog (dispatch sample_runtime sample_config (sample_request ''GET'' ''/nowhere'' [])) \<and>
     only_reads (sample_request ''GET'' ''/nowhere'' []) c' \<and> (\<exists>a. c_sent c' = [a])"
proof -
  let ?c = "sample_request ''GET'' ''/nowhere'' []"
  let ?o = "fst (exec sample_world (dispatch sample_runtime sample_config ?c) empty_server)"
  have "\<not> isl (snd ?o)" "c_sent ?c = []" by code_simp+
  then obtain c' x where m: "(c', Inr x) \<in> set_prog (dispatch sample_runtime sample_config ?c)"
    using exec_in_set [of sample_world "dispatch sample_runtime sample_config ?c" empty_server]
    by (cases ?o, cases "snd ?o") auto
  from dispatch_answers [OF m] m \<open>c_sent ?c = []\<close> show ?thesis by auto
qed

end
