(* ===== verification/ToolCalls.thy ===== *)
theory ToolCalls
  imports Samples
begin

text \<open>
  What one request does when no other comes between: the decision on a tool call on every
  branch, the reports and the approvals, and their composition over several requests. \<open>reply\<close>
  is the interface the properties are stated in: the status and the JSON body of the response,
  and the server it leaves.
\<close>

section \<open>Replies\<close>

definition reply :: "world \<Rightarrow> 'a handler \<Rightarrow> conn \<Rightarrow> server \<Rightarrow> nat \<Rightarrow> json \<Rightarrow> server \<Rightarrow> bool" where
  "reply w m c s st v s' \<longleftrightarrow> (\<exists>c' x a. hrun w m c s = ((c', Inr x), s') \<and> c_sent c' = c_sent c @ [a] \<and>
     rs_status a = st \<and> rs_body a = json_dumps v)"

definition fresh_ids :: "world \<Rightarrow> server \<Rightarrow> bool" where
  "fresh_ids w s \<longleftrightarrow> (\<forall>n \<ge> srv_uuids s. encodable (w_uuid w n) \<and>
     w_uuid w n \<notin> eff_id ` set (effects (srv_journal s)) \<and> w_uuid w n \<notin> app_id ` set (approvals (srv_journal s)))"

lemma sample_ids: "w_uuid sample_world n = lit ''id-'' @ show_nat n" "encodable (w_uuid sample_world n)"
  by (auto simp: sample_world_def encodable_def list_ex_iff is_surrogate_def lit_def dest!: show_nat_digits)

lemma fresh_sample:
  assumes "list_all (\<lambda>i. i \<in> set (map (w_uuid sample_world) [0..<srv_uuids s]))
    (map eff_id (effects (srv_journal s)) @ map app_id (approvals (srv_journal s)))"
  shows "fresh_ids sample_world s"
proof -
  have "w_uuid sample_world n \<notin> set (map (w_uuid sample_world) [0..<srv_uuids s])" if "srv_uuids s \<le> n" for n
    using that by (auto simp: sample_ids(1))
  then show ?thesis using assms sample_ids(2) unfolding fresh_ids_def list_all_iff by fastforce
qed

lemma hrun_offer_all [simp]:
  "hrun w (offer_all qs e) c s = ((c, Inr ()), s\<lparr>srv_events := foldl (\<lambda>b q. offer q e b) (srv_events s) qs\<rparr>)"
  by (induction qs arbitrary: s) simp_all

lemma hrun_emit [simp]:
  "hrun w (h_emit ty org ses eff app p) c s =
     ((c, Inr ()), s\<lparr>srv_clock := Suc (srv_clock s),
       srv_events := emit (emit_envelope ty (w_now w (srv_clock s)) org ses eff app p) (srv_events s)\<rparr>)"
  by (simp add: h_emit_def emit_def)

definition raised :: "py_exc + 'a \<Rightarrow> handler_exc + 'a" where
  "raised r = (case r of Inl e \<Rightarrow> Inl (PyExc e) | Inr x \<Rightarrow> Inr x)"

lemma raised_simps [simp]: "raised (Inl e) = Inl (PyExc e)" "raised (Inr x) = Inr x"
  by (simp_all add: raised_def)

lemma hrun_reads [simp]:
  "hrun w (hcall (FindLiveEffect sg)) c s = ((c, raised (find_live_effect (w_rt w) sg (srv_journal s))), s)"
  "hrun w (hcall (FindPendingApproval i)) c s = ((c, raised (find_pending_approval (w_rt w) i (srv_journal s))), s)"
  "hrun w (hcall (GetApproval i)) c s = ((c, raised (get_approval (w_rt w) i (srv_journal s))), s)"
  "hrun w (hcall (ListApprovals st l)) c s = ((c, raised (list_approvals (w_rt w) st l (srv_journal s))), s)"
  by (simp_all add: hrun_def hcall_def raised_def)

lemma hrun_writes [simp]:
  "hrun w (hcall (CreateEffect n)) c s = (let (r, s') = j_create w n s in ((c, raised r), s'))"
  "hrun w (hcall (RecordCommit i v)) c s = (let (r, s') = j_write w (\<lambda>now. record_commit now i v) s in ((c, raised r), s'))"
  "hrun w (hcall (RecordReplay i)) c s = (let (r, s') = j_write w (\<lambda>now. record_replay now i) s in ((c, raised r), s'))"
  "hrun w (hcall (RecordFail i e)) c s = (let (r, s') = j_write w (\<lambda>now. record_fail now i e) s in ((c, raised r), s'))"
  "hrun w (hcall (MarkRejected i)) c s = (let (r, s') = j_write w (\<lambda>now. mark_rejected now i) s in ((c, raised r), s'))"
  "hrun w (hcall (ResolveApproval i st)) c s = (let (r, s') = j_write w (\<lambda>now. resolve_approval now i st) s in ((c, raised r), s'))"
  by (simp_all add: hrun_def hcall_def raised_def Let_def split: prod.split)

lemma hrun_read_body [simp]: "hrun w (read_body rt) c s = (parse_body rt c, s)"
  by (simp add: hrun_def read_body_def)

lemma parse_body_sent: "c_sent (fst (parse_body rt c)) = c_sent c"
  using read_raw_reads [of c] by (auto simp: parse_body_def split: prod.splits sum.splits)

lemma reply_hbind:
  "hrun w m c s = ((c1, Inr x), s1) \<Longrightarrow> c_sent c1 = c_sent c \<Longrightarrow> reply w (f x) c1 s1 st v s' \<Longrightarrow>
     reply w (hbind m f) c s st v s'"
  by (auto simp: reply_def)

lemma reply_hseq:
  "hrun w m c s = ((c1, Inr ()), s1) \<Longrightarrow> c_sent c1 = c_sent c \<Longrightarrow> reply w n c1 s1 st v s' \<Longrightarrow>
     reply w (hseq m n) c s st v s'"
  unfolding hseq_def by (rule reply_hbind)

lemma reply_done: "reply w m c s st v s' \<Longrightarrow> reply w (hseq m (hret x)) c s st v s'"
  by (auto simp: reply_def)

lemma reply_hcatch: "reply w m c s st v s' \<Longrightarrow> reply w (hcatch m h) c s st v s'"
  by (auto simp: reply_def)

text \<open>Sending a response leaves the journal alone.\<close>

definition later :: "server \<Rightarrow> server \<Rightarrow> bool" where
  "later s s' \<longleftrightarrow> srv_journal s' = srv_journal s \<and> srv_uuids s \<le> srv_uuids s'"

text \<open>Nothing was created meanwhile.\<close>

definition same_ids :: "server \<Rightarrow> server \<Rightarrow> bool" where
  "same_ids s s' \<longleftrightarrow> map eff_id (effects (srv_journal s')) = map eff_id (effects (srv_journal s)) \<and>
     map app_id (approvals (srv_journal s')) = map app_id (approvals (srv_journal s)) \<and> srv_uuids s \<le> srv_uuids s'"

lemma later_refl [simp]: "later s s"
  by (simp add: later_def)

lemma send_json_reply: "\<exists>s'. reply w (send_json st v) c s st v s' \<and> later s s'"
proof -
  have "\<exists>c' rid s'. hrun w request_id c s = ((c', Inr rid), s') \<and> c_sent c' = c_sent c \<and> later s s'" for c
    by (cases "c_request_id c") (auto simp: request_id_def later_def)
  from this [of "discard_unread_body c"] obtain c' rid s' where
    "hrun w request_id (discard_unread_body c) s = ((c', Inr rid), s')" "c_sent c' = c_sent c" "later s s'"
    using discard_reads(2) [of c] by auto
  then show ?thesis
    by (auto simp: reply_def send_json_def json_response_def Let_def)
qed

section \<open>A tool call\<close>

definition tool_request :: "runtime \<Rightarrow> conn \<Rightarrow> tool_call \<Rightarrow> pystr \<Rightarrow> bool" where
  "tool_request rt c t sg \<longleftrightarrow>
     c_command c = lit ''POST'' \<and>
     (case urlparse rt (c_path c) of Inl _ \<Rightarrow> False | Inr (path, _) \<Rightarrow> path = lit ''/mcp/tool_call'') \<and>
     (case snd (parse_body rt c) of Inl _ \<Rightarrow> False | Inr body \<Rightarrow> tool_call_of_body rt body = Inr t) \<and>
     call_signature rt (tc_session t) (tc_step t) (tc_tool t) (tc_args t) = Inr sg"

lemma dispatch_tool_call:
  assumes "tool_request rt c t sg"
    and "\<And>c1 s1. later s s1 \<Longrightarrow> srv_uuids s1 = srv_uuids s \<Longrightarrow>
      \<exists>st v s'. reply w (decide_call cfg t (org_id_of c) sg) c1 s1 st v s' \<and> Q st v s'"
  shows "\<exists>st v s'. reply w (dispatch rt cfg) c s st v s' \<and> Q st v s'"
proof -
  obtain q body where r: "c_command c = lit ''POST''" "urlparse rt (c_path c) = Inr (lit ''/mcp/tool_call'', q)"
      "snd (parse_body rt c) = Inr body" "tool_call_of_body rt body = Inr t"
      "call_signature rt (tc_session t) (tc_step t) (tc_tool t) (tc_args t) = Inr sg"
    using assms(1) by (auto simp: tool_request_def split: sum.splits)
  obtain c1 where c1: "parse_body rt c = (c1, Inr body)" using r(3) by (cases "parse_body rt c") auto
  have h: "c_headers c1 = c_headers c" "c_sent c1 = c_sent c"
    using read_raw_reads [of c] c1 parse_body_sent [of rt c]
    by (auto simp: parse_body_def only_reads_def split: prod.splits sum.splits)
  then have org: "org_id_of c1 = org_id_of c" unfolding org_id_of_def by (simp only:)
  let ?e = "h_emit EVENT_EFFECT_INTERCEPTED (org_id_of c) (JStr (tc_session t)) None None (stage ''intercepted'')"
  obtain s1 where e: "hrun w ?e c1 s = ((c1, Inr ()), s1)" "later s s1" "srv_uuids s1 = srv_uuids s"
    by (simp add: later_def)
  from assms(2) [OF e(2,3)] obtain st v s' where s': "reply w (decide_call cfg t (org_id_of c) sg) c1 s1 st v s'" "Q st v s'"
    by blast
  have "reply w (handle_tool_call rt cfg) c s st v s'"
    unfolding handle_tool_call_def
  proof (rule reply_hbind)
    show "hrun w (read_body rt) c s = ((c1, Inr body), s)" using c1 by simp
    show "reply w (case tool_call_of_body rt body of Inl e \<Rightarrow> hraise e | Inr t \<Rightarrow>
       hbind (hget org_id_of) (\<lambda>org_id. hbind (tool_call_signature rt t) (\<lambda>sg.
         hseq (h_emit EVENT_EFFECT_INTERCEPTED org_id (JStr (tc_session t)) None None (stage ''intercepted''))
           (decide_call cfg t org_id sg)))) c1 s st v s'"
      using s'(1) e(1) r(4,5) by (auto simp: tool_call_signature_def org reply_def)
  qed (rule h(2))
  then have "reply w (dispatch rt cfg) c s st v s'"
    using r(1,2) by (auto simp: dispatch_def hlift_def route_def require_method_def reply_def)
  with s'(2) show ?thesis by blast
qed

text \<open>The decision on a call whose signature a live effect holds.\<close>

definition decision :: "config \<Rightarrow> effect \<Rightarrow> approval option \<Rightarrow> nat \<times> json" where
  "decision cfg e pending =
     (if eff_status e = EFFECT_COMMITTED then (200, replayed_json (eff_id e) (dec_result e))
      else if eff_status e = EFFECT_AWAITING_APPROVAL \<and> \<not> cfg_auto_approve cfg \<and> pending \<noteq> None
      then (202, pending_json (app_id (the pending)))
      else (200, executed_json (Some (eff_id e))))"

lemma find_live_effect_row:
  "encodable sg \<Longrightarrow> live_row j sg = Some r \<Longrightarrow> effect_to_dict rt r = Inr e \<Longrightarrow>
     find_live_effect rt sg j = Inr (Some e)"
  by (simp add: find_live_effect_def live_row_def bind_encodable)

lemma effect_to_dict_fields:
  "effect_to_dict rt r = Inr e \<Longrightarrow> eff_id e = eff_id r \<and> eff_status e = eff_status r \<and> eff_session e = eff_session r"
  by (auto simp: effect_to_dict_def rbind_eq_Inr_iff effect_row.defs)

lemma respond_committed:
  assumes "journal_ok (srv_journal s)" "encodable (eff_id r)" "live_row (srv_journal s) sg = Some r"
    and "effect_to_dict (w_rt w) r = Inr e" "eff_status r = EFFECT_COMMITTED"
  shows "\<exists>s'. reply w (respond_for_live_effect cfg e org) c s 200 (replayed_json (eff_id e) (dec_result e)) s' \<and>
    (\<exists>r'. live_row (srv_journal s') sg = Some r' \<and> eff_id r' = eff_id r \<and> eff_status r' = eff_status r \<and>
      eff_result r' = eff_result r \<and> eff_args r' = eff_args r) \<and> journal_ok (srv_journal s') \<and> same_ids s s' \<and>
    keeps_settled (srv_journal s) (srv_journal s')"
proof -
  note e = effect_to_dict_fields [OF assms(4)]
  obtain b j' where rep: "record_replay (w_now w (srv_clock s)) (eff_id r) (srv_journal s) = Inr (b, j')"
      "map eff_id (effects j') = map eff_id (effects (srv_journal s))" "approvals j' = approvals (srv_journal s)"
    using record_replay_eq [OF assms(1,2)] by (fastforce simp: update_row_def)
  have ok: "journal_ok j'" using journal_step_ok [OF journal_step.replay [OF rep(1)] assms(1)] .
  note live = record_replay_live [OF assms(1) rep(1) assms(3)]
  have kept: "keeps_settled (srv_journal s) j'" by (rule keeps_settled_step [OF assms(1) journal_step.replay [OF rep(1)]]) simp
  let ?s1 = "s\<lparr>srv_clock := Suc (srv_clock s), srv_journal := j'\<rparr>"
  have jw: "j_write w (\<lambda>now. record_replay now (eff_id r)) s = (Inr b, ?s1)"
    using rep(1) by (simp add: j_write_def)
  let ?em = "h_emit EVENT_EFFECT_REPLAYED org (JStr (eff_session e)) (Some (eff_id e)) None (stage ''replayed'')"
  obtain s2 where s2: "hrun w ?em c ?s1 = ((c, Inr ()), s2)" "srv_journal s2 = j'" "srv_uuids s2 = srv_uuids s" by simp
  obtain s' where s': "reply w (send_json 200 (replayed_json (eff_id e) (dec_result e))) c s2 200
      (replayed_json (eff_id e) (dec_result e)) s'" "later s2 s'"
    using send_json_reply by blast
  have "reply w (respond_for_live_effect cfg e org) c s 200 (replayed_json (eff_id e) (dec_result e)) s'"
    using assms(5) e s' jw s2(1) by (auto simp: respond_for_live_effect_def reply_def)
  then show ?thesis using live s'(2) s2(2,3) rep(2,3) ok kept by (auto simp: later_def same_ids_def)
qed

lemma respond_live:
  assumes "journal_ok (srv_journal s)" "encodable (eff_id r)" "live_row (srv_journal s) sg = Some r"
    and "effect_to_dict (w_rt w) r = Inr e" "find_pending_approval (w_rt w) (eff_id r) (srv_journal s) = Inr pending"
    and "\<not> cfg_auto_approve cfg"
  shows "\<exists>s'. reply w (respond_for_live_effect cfg e org) c s (fst (decision cfg e pending)) (snd (decision cfg e pending)) s' \<and>
    (\<exists>r'. live_row (srv_journal s') sg = Some r' \<and> eff_id r' = eff_id r \<and> eff_status r' = eff_status r \<and>
      eff_result r' = eff_result r) \<and> journal_ok (srv_journal s')"
proof -
  note e = effect_to_dict_fields [OF assms(4)]
  show ?thesis
  proof (cases "eff_status r = EFFECT_COMMITTED")
    case True
    then show ?thesis using respond_committed [OF assms(1-4) True, of cfg org c] e by (fastforce simp: decision_def)
  next
    case False
    obtain s' where s': "reply w (send_json (fst (decision cfg e pending)) (snd (decision cfg e pending))) c s
        (fst (decision cfg e pending)) (snd (decision cfg e pending)) s'" "later s s'"
      using send_json_reply by blast
    have "reply w (respond_for_live_effect cfg e org) c s (fst (decision cfg e pending)) (snd (decision cfg e pending)) s'"
      using False e s'(1) assms(5,6)
      by (cases "eff_status r = EFFECT_AWAITING_APPROVAL"; cases pending)
        (auto simp: respond_for_live_effect_def reply_def decision_def Let_def)
    then show ?thesis using assms(1,3) s'(2) by (auto simp: later_def)
  qed
qed

lemma decide_live:
  assumes "journal_ok (srv_journal s)" "encodable (eff_id r)" "encodable sg" "live_row (srv_journal s) sg = Some r"
    and "effect_to_dict (w_rt w) r = Inr e" "find_pending_approval (w_rt w) (eff_id r) (srv_journal s) = Inr pending"
    and "\<not> cfg_auto_approve cfg"
  shows "\<exists>s'. reply w (decide_call cfg t org sg) c s (fst (decision cfg e pending)) (snd (decision cfg e pending)) s' \<and>
    (\<exists>r'. live_row (srv_journal s') sg = Some r' \<and> eff_id r' = eff_id r \<and> eff_status r' = eff_status r \<and>
      eff_result r' = eff_result r) \<and> journal_ok (srv_journal s')"
  using respond_live [OF assms(1,2,4-7), of org c] find_live_effect_row [OF assms(3-5)]
  by (auto simp: decide_call_def reply_def)

text \<open>
  C22. On a server that does not approve by itself, a call the journal already holds is decided by
  the state of its effect: a committed effect replays exactly its stored result, an effect that waits for an approval names that approval
  again with status 202, and an executing one may run again under the same effect. The effect
  stays what it was.
\<close>

theorem tool_call_live:
  assumes "tool_request (w_rt w) c t sg" "journal_ok (srv_journal s)" "live_row (srv_journal s) sg = Some r"
    and "encodable sg" "encodable (eff_id r)" "effect_to_dict (w_rt w) r = Inr e"
    and "find_pending_approval (w_rt w) (eff_id r) (srv_journal s) = Inr pending" "\<not> cfg_auto_approve cfg"
  shows "\<exists>s'. reply w (dispatch (w_rt w) cfg) c s (fst (decision cfg e pending)) (snd (decision cfg e pending)) s' \<and>
    (\<exists>r'. live_row (srv_journal s') sg = Some r' \<and> eff_id r' = eff_id r \<and> eff_status r' = eff_status r \<and>
      eff_result r' = eff_result r) \<and> journal_ok (srv_journal s')"
proof -
  have "\<exists>st v s'. reply w (dispatch (w_rt w) cfg) c s st v s' \<and> (st = fst (decision cfg e pending) \<and>
      v = snd (decision cfg e pending) \<and> (\<exists>r'. live_row (srv_journal s') sg = Some r' \<and> eff_id r' = eff_id r \<and>
        eff_status r' = eff_status r \<and> eff_result r' = eff_result r) \<and> journal_ok (srv_journal s'))"
    using assms(1)
  proof (rule dispatch_tool_call)
    fix c1 s1 assume "later s s1"
    then have j: "srv_journal s1 = srv_journal s" by (simp add: later_def)
    show "\<exists>st v s'. reply w (decide_call cfg t (org_id_of c) sg) c1 s1 st v s' \<and> (st = fst (decision cfg e pending) \<and>
        v = snd (decision cfg e pending) \<and> (\<exists>r'. live_row (srv_journal s') sg = Some r' \<and> eff_id r' = eff_id r \<and>
          eff_status r' = eff_status r \<and> eff_result r' = eff_result r) \<and> journal_ok (srv_journal s'))"
      using decide_live [of s1 r sg w e pending cfg t "org_id_of c" c1] assms j by auto
  qed
  then show ?thesis by blast
qed

definition paid_server :: server where
  "paid_server = empty_server\<lparr>srv_uuids := 1, srv_journal := \<lparr>effects = [\<lparr>
     eff_id = lit ''id-0'', eff_org = DEFAULT_ORG_ID, eff_session = tc_session pay_call, eff_tool = tc_tool pay_call,
     eff_version = tc_version pay_call, eff_tier = lit ''compensable'', eff_step = 1, eff_signature = signature_of pay_call,
     eff_status = EFFECT_COMMITTED, eff_args = json_dumps (tc_args pay_call), eff_result = Some (json_dumps (JDict [])),
     eff_error = None, eff_replays = 0, eff_last_replayed = None, eff_approval = None, eff_created = lit ''t-0'',
     eff_updated = lit ''t-1''\<rparr>], approvals = []\<rparr>\<rparr>"

lemma pay_request: "tool_request sample_runtime sample_call pay_call (signature_of pay_call)"
  by code_simp

theorem tool_call_live_witness:
  "\<exists>s'. reply sample_world (dispatch sample_runtime sample_config) sample_call paid_server 200
      (replayed_json (lit ''id-0'') (Some (JDict []))) s'"
proof -
  let ?r = "hd (effects (srv_journal paid_server))"
  let ?e = "effect_row.extend ?r \<lparr>dec_args = tc_args pay_call, dec_result = Some (JDict [])\<rparr>"
  have "journal_ok (srv_journal paid_server)" by code_simp
  moreover have "live_row (srv_journal paid_server) (signature_of pay_call) = Some ?r" by code_simp
  moreover have "encodable (signature_of pay_call)" "encodable (eff_id ?r)" by code_simp+
  moreover have "effect_to_dict sample_runtime ?r = Inr ?e" by code_simp
  moreover have "find_pending_approval sample_runtime (eff_id ?r) (srv_journal paid_server) = Inr None" by code_simp
  moreover have "\<not> cfg_auto_approve sample_config" by code_simp
  moreover have "decision sample_config ?e None = (200, replayed_json (lit ''id-0'') (Some (JDict [])))" by code_simp
  ultimately show ?thesis
    using tool_call_live [of sample_world sample_call pay_call "signature_of pay_call" paid_server ?r ?e None sample_config]
      pay_request by auto
qed

section \<open>A new call\<close>

lemma call_signature_step: "call_signature rt sid step name args = Inr sg \<Longrightarrow> 0 \<le> step \<and> step < 2 ^ 32"
  by (auto simp: call_signature_def signature_stream_def pack_u32_def rbind_eq_Inr_iff Let_def
      split: option.splits if_splits)

definition call_ok :: "tool_call \<Rightarrow> pystr \<Rightarrow> pystr \<Rightarrow> bool" where
  "call_ok t org sg \<longleftrightarrow> wf_json (tc_args t) \<and> 0 \<le> tc_step t \<and> tc_step t < 2 ^ 32 \<and>
     list_all encodable [org, tc_session t, tc_tool t, tc_version t, sg]"

abbreviation call_row :: "config \<Rightarrow> tool_call \<Rightarrow> pystr \<Rightarrow> pystr \<Rightarrow> pystr \<Rightarrow> pystr option \<Rightarrow> pystr \<Rightarrow> pystr \<Rightarrow> effect_row" where
  "call_row cfg t org sg st aid i now \<equiv>
     new_effect_row i now org (tc_session t) (tc_tool t) (tc_step t) (tc_args t) sg st aid (tc_version t)
       (Some (if tool_requires_approval cfg (tc_tool t) then lit ''irreversible'' else lit ''compensable''))"

text \<open>Journaling a new call under a fresh identifier.\<close>

lemma j_create_new:
  assumes "fresh_ids w s" "call_ok t org sg" "live_row (srv_journal s) sg = None"
    and "st = EFFECT_EXECUTING \<or> st = EFFECT_AWAITING_APPROVAL"
    and "\<And>a. aid = Some a \<Longrightarrow> encodable a \<and> a \<notin> app_id ` set (approvals (srv_journal s))"
  shows "j_create w (effect_of_call cfg t org sg st aid) s =
    (let i = w_uuid w (srv_uuids s); now = w_now w (srv_clock s) in
     (Inr (Some i), s\<lparr>srv_uuids := Suc (srv_uuids s), srv_clock := Suc (srv_clock s),
        srv_journal := \<lparr>effects = effects (srv_journal s) @ [call_row cfg t org sg st aid i now],
          approvals = approvals (srv_journal s) @
            (case aid of None \<Rightarrow> [] | Some a \<Rightarrow> [new_approval_row a now org (tc_session t) (tc_tool t) (tc_args t) i])\<rparr>\<rparr>))"
proof -
  have "encodable (w_uuid w (srv_uuids s))" "w_uuid w (srv_uuids s) \<notin> eff_id ` set (effects (srv_journal s))"
    using assms(1) by (auto simp: fresh_ids_def)
  then have "create_effect (w_uuid w (srv_uuids s)) now org (tc_session t) (tc_tool t) (tc_step t) (tc_args t) sg st aid
      (tc_version t) (Some (if tool_requires_approval cfg (tc_tool t) then lit ''irreversible'' else lit ''compensable''))
      (srv_journal s) =
    Inr (Some (w_uuid w (srv_uuids s)),
      \<lparr>effects = effects (srv_journal s) @ [call_row cfg t org sg st aid (w_uuid w (srv_uuids s)) now],
       approvals = approvals (srv_journal s) @ (case aid of None \<Rightarrow> []
         | Some a \<Rightarrow> [new_approval_row a now org (tc_session t) (tc_tool t) (tc_args t) (w_uuid w (srv_uuids s))])\<rparr>)" for now
    using assms(2-5) by (subst create_effect_result) (auto simp: call_ok_def split: if_splits)
  then show ?thesis
    by (simp add: j_create_def j_write_def effect_of_call_def Let_def)
qed

lemma journal_ok_created:
  assumes "journal_ok j" "create_effect i now org ses tool step args sg st aid ver tier j = Inr (Some i', j')"
    and "st = EFFECT_EXECUTING \<or> st = EFFECT_AWAITING_APPROVAL \<and> aid \<noteq> None"
  shows "journal_ok j'"
  using journal_step_ok [OF journal_step.create [OF assms(2,3)] assms(1)] .

lemma journal_ok_j_create:
  assumes "journal_ok (srv_journal s)" "j_create w n s = (Inr (Some i), s')"
    and "ne_status n = EFFECT_EXECUTING \<or> ne_status n = EFFECT_AWAITING_APPROVAL \<and> ne_approval n \<noteq> None"
  shows "journal_ok (srv_journal s')"
  using assms(1,2) journal_ok_created [OF _ _ assms(3)]
  by (auto simp: j_create_def j_write_def split: sum.splits)

lemma j_create_keeps: "j_create w n s = (r, s') \<Longrightarrow> keeps_settled (srv_journal s) (srv_journal s')"
  by (auto simp: j_create_def j_write_def split: sum.splits intro: keeps_settled_created)

lemma find_live_effect_None: "encodable sg \<Longrightarrow> live_row j sg = None \<Longrightarrow> find_live_effect rt sg j = Inr None"
  by (simp add: find_live_effect_def live_row_def bind_encodable)

lemma decide_run:
  assumes "journal_ok (srv_journal s)" "fresh_ids w s" "call_ok t org sg" "live_row (srv_journal s) sg = None"
    and "\<not> tool_requires_approval cfg (tc_tool t)"
  shows "\<exists>s' now. let i = w_uuid w (srv_uuids s) in
    reply w (decide_call cfg t org sg) c s 200 (executed_json (Some i)) s' \<and> journal_ok (srv_journal s') \<and>
    live_row (srv_journal s') sg = Some (call_row cfg t org sg EFFECT_EXECUTING None i now) \<and>
    approvals (srv_journal s') = approvals (srv_journal s) \<and>
    map eff_id (effects (srv_journal s')) = map eff_id (effects (srv_journal s)) @ [i] \<and> srv_uuids s < srv_uuids s' \<and>
    keeps_settled (srv_journal s) (srv_journal s')"
proof -
  let ?i = "w_uuid w (srv_uuids s)" and ?now = "w_now w (srv_clock s)"
  let ?n = "effect_of_call cfg t org sg EFFECT_EXECUTING None"
  obtain s1 where s1: "j_create w ?n s = (Inr (Some ?i), s1)"
      "effects (srv_journal s1) = effects (srv_journal s) @ [call_row cfg t org sg EFFECT_EXECUTING None ?i ?now]"
      "approvals (srv_journal s1) = approvals (srv_journal s)" "srv_uuids s1 = Suc (srv_uuids s)"
    using j_create_new [OF assms(2-4), of EFFECT_EXECUTING None cfg] by (auto simp: Let_def)
  have ids: "map eff_id (effects (srv_journal s1)) = map eff_id (effects (srv_journal s)) @ [?i]"
    using s1(2) by (simp add: new_effect_row_simps)
  have ok: "journal_ok (srv_journal s1)"
    using journal_ok_j_create [OF assms(1) s1(1)] by (simp add: effect_of_call_def)
  have live: "live_row (srv_journal s1) sg = Some (call_row cfg t org sg EFFECT_EXECUTING None ?i ?now)"
    using assms(4) s1(2) by (auto simp: live_row_def find_None_iff_filter find_Some_iff_filter is_live_iff)
  have kept: "keeps_settled (srv_journal s) (srv_journal s1)" by (rule j_create_keeps [OF s1(1)])
  obtain s' where s': "reply w (send_json 200 (executed_json (Some ?i))) c s1 200 (executed_json (Some ?i)) s'" "later s1 s'"
    using send_json_reply by blast
  have "encodable sg" using assms(3) by (simp add: call_ok_def)
  then have "reply w (decide_call cfg t org sg) c s 200 (executed_json (Some ?i)) s'"
    using s' s1(1) assms(5) find_live_effect_None [OF _ assms(4)]
    by (auto simp: decide_call_def claim_signature_def reply_def)
  then show ?thesis
    using ok live s1(3,4) ids s'(2) kept unfolding Let_def later_def by (intro exI [of _ s'] exI [of _ ?now]) simp
qed

lemma fresh_later: "fresh_ids w s \<Longrightarrow> srv_journal s' = srv_journal s \<Longrightarrow> srv_uuids s \<le> srv_uuids s' \<Longrightarrow> fresh_ids w s'"
  by (auto simp: fresh_ids_def)

lemma decide_hold:
  assumes "journal_ok (srv_journal s)" "fresh_ids w s" "call_ok t org sg" "live_row (srv_journal s) sg = None"
    and "tool_requires_approval cfg (tc_tool t)" "\<not> cfg_auto_approve cfg"
  shows "\<exists>s' now. let a = w_uuid w (srv_uuids s); i = w_uuid w (Suc (srv_uuids s)) in
    reply w (decide_call cfg t org sg) c s 202 (pending_json a) s' \<and> journal_ok (srv_journal s') \<and>
    live_row (srv_journal s') sg = Some (call_row cfg t org sg EFFECT_AWAITING_APPROVAL (Some a) i now) \<and>
    approvals (srv_journal s') = approvals (srv_journal s) @
      [new_approval_row a now org (tc_session t) (tc_tool t) (tc_args t) i]"
proof -
  let ?s0 = "s\<lparr>srv_uuids := Suc (srv_uuids s)\<rparr>"
  let ?a = "w_uuid w (srv_uuids s)" and ?i = "w_uuid w (Suc (srv_uuids s))" and ?now = "w_now w (srv_clock s)"
  let ?n = "effect_of_call cfg t org sg EFFECT_AWAITING_APPROVAL (Some ?a)"
  have f: "fresh_ids w ?s0" using fresh_later [OF assms(2)] by simp
  have a: "encodable ?a \<and> ?a \<notin> app_id ` set (approvals (srv_journal ?s0))" using assms(2) by (auto simp: fresh_ids_def)
  obtain s1 where s1: "j_create w ?n ?s0 = (Inr (Some ?i), s1)"
      "effects (srv_journal s1) = effects (srv_journal s) @ [call_row cfg t org sg EFFECT_AWAITING_APPROVAL (Some ?a) ?i ?now]"
      "approvals (srv_journal s1) = approvals (srv_journal s) @
        [new_approval_row ?a ?now org (tc_session t) (tc_tool t) (tc_args t) ?i]"
    using j_create_new [OF f assms(3), of EFFECT_AWAITING_APPROVAL "Some ?a" cfg] assms(4) a by (auto simp: Let_def)
  have ok: "journal_ok (srv_journal s1)"
    using journal_ok_j_create [OF _ s1(1)] assms(1) by (simp add: effect_of_call_def)
  have live: "live_row (srv_journal s1) sg = Some (call_row cfg t org sg EFFECT_AWAITING_APPROVAL (Some ?a) ?i ?now)"
    using assms(4) s1(2) by (auto simp: live_row_def find_None_iff_filter find_Some_iff_filter is_live_iff)
  let ?em = "h_emit EVENT_APPROVAL_REQUIRED org (JStr (tc_session t)) (Some ?i) (Some ?a) (stage ''approval_required'')"
  obtain s2 where s2: "hrun w ?em c s1 = ((c, Inr ()), s2)" "srv_journal s2 = srv_journal s1" by simp
  obtain s' where s': "reply w (send_json 202 (pending_json ?a)) c s2 202 (pending_json ?a) s'" "later s2 s'"
    using send_json_reply by blast
  have "encodable sg" using assms(3) by (simp add: call_ok_def)
  then have "reply w (decide_call cfg t org sg) c s 202 (pending_json ?a) s'"
    using s' s1(1) s2(1) assms(5,6) find_live_effect_None [OF _ assms(4)]
    by (auto simp: decide_call_def claim_signature_def reply_def)
  then show ?thesis
    using ok live s1(3) s2(2) s'(2) unfolding Let_def later_def by metis
qed

lemma get_approval_new:
  assumes "doubles rt args" "wf_json args" "encodable a" "a \<notin> app_id ` set as" "app_id x = a" "app_args x = json_dumps args"
  shows "\<exists>y. get_approval rt a \<lparr>effects = es, approvals = as @ [x]\<rparr> = Inr (Some y)"
proof -
  have "List.find (\<lambda>a'. app_id a' = a) (as @ [x]) = Some x"
  proof -
    have "filter (\<lambda>a'. app_id a' = a) as = []" using assms(4) by (auto simp: filter_empty_conv)
    then show ?thesis using assms(5) by (simp add: find_Some_iff_filter)
  qed
  then show ?thesis
    using json_loads_dumps [OF assms(1,2)] assms(3,6)
    by (simp add: get_approval_def approval_to_dict_def bind_encodable)
qed

lemma resolve_new:
  assumes "a \<notin> app_id ` set as" "app_id x = a" "app_status x = APPROVAL_PENDING" "encodable a"
  shows "resolve_approval now a APPROVAL_APPROVED \<lparr>effects = es, approvals = as @ [x]\<rparr> =
    Inr (True, \<lparr>effects = es, approvals = as @ [x\<lparr>app_status := APPROVAL_APPROVED, app_resolved := Some now\<rparr>]\<rparr>)"
proof -
  have "map (\<lambda>x. if app_id x = a \<and> app_status x = APPROVAL_PENDING
      then x\<lparr>app_status := APPROVAL_APPROVED, app_resolved := Some now\<rparr> else x) as = as"
    using assms(1) by (auto intro!: map_idI)
  moreover have "encodable APPROVAL_APPROVED" by (simp add: APPROVAL_APPROVED_def)
  ultimately show ?thesis
    using assms by (simp add: resolve_approval_def bind_encodable)
qed

text \<open>An automatic approval: the effect is journaled, and its approval is granted at once.\<close>

lemma auto_approve_new:
  assumes "journal_ok (srv_journal s)" "fresh_ids w s" "call_ok t org sg" "live_row (srv_journal s) sg = None"
    and "doubles (w_rt w) (tc_args t)"
  shows "\<exists>s' now now'. let a = w_uuid w (srv_uuids s); i = w_uuid w (Suc (srv_uuids s)) in
    hrun w (auto_approve cfg t org sg) c s = ((c, Inr (Some i, None)), s') \<and> journal_ok (srv_journal s') \<and>
    effects (srv_journal s') = effects (srv_journal s) @ [call_row cfg t org sg EFFECT_EXECUTING (Some a) i now] \<and>
    approvals (srv_journal s') = approvals (srv_journal s) @
      [(new_approval_row a now org (tc_session t) (tc_tool t) (tc_args t) i)
        \<lparr>app_status := APPROVAL_APPROVED, app_resolved := Some now'\<rparr>]"
proof -
  let ?s0 = "s\<lparr>srv_uuids := Suc (srv_uuids s)\<rparr>"
  let ?a = "w_uuid w (srv_uuids s)" and ?i = "w_uuid w (Suc (srv_uuids s))" and ?now = "w_now w (srv_clock s)"
  let ?now' = "w_now w (Suc (srv_clock s))"
  let ?n = "effect_of_call cfg t org sg EFFECT_EXECUTING (Some ?a)"
  let ?x = "new_approval_row ?a ?now org (tc_session t) (tc_tool t) (tc_args t) ?i"
  let ?es = "effects (srv_journal s) @ [call_row cfg t org sg EFFECT_EXECUTING (Some ?a) ?i ?now]"
  let ?as = "approvals (srv_journal s)" and ?x' = "?x\<lparr>app_status := APPROVAL_APPROVED, app_resolved := Some ?now'\<rparr>"
  have f: "fresh_ids w ?s0" using fresh_later [OF assms(2)] by simp
  have a: "encodable ?a \<and> ?a \<notin> app_id ` set ?as" using assms(2) by (auto simp: fresh_ids_def)
  obtain s1 where s1: "j_create w ?n ?s0 = (Inr (Some ?i), s1)" "srv_journal s1 = \<lparr>effects = ?es, approvals = ?as @ [?x]\<rparr>"
      "srv_clock s1 = Suc (srv_clock s)"
    using j_create_new [OF f assms(3), of EFFECT_EXECUTING "Some ?a" cfg] assms(4) a by (auto simp: Let_def)
  have ok1: "journal_ok (srv_journal s1)"
    using journal_ok_j_create [OF _ s1(1)] assms(1) by (simp add: effect_of_call_def)
  have res: "resolve_approval ?now' ?a APPROVAL_APPROVED (srv_journal s1) =
      Inr (True, \<lparr>effects = ?es, approvals = ?as @ [?x']\<rparr>)"
    unfolding s1(2) by (rule resolve_new) (use a in simp_all)
  let ?s2 = "s1\<lparr>srv_clock := Suc (srv_clock s1), srv_journal := \<lparr>effects = ?es, approvals = ?as @ [?x']\<rparr>\<rparr>"
  have jw: "j_write w (\<lambda>now. resolve_approval now ?a APPROVAL_APPROVED) s1 = (Inr True, ?s2)"
    using res s1(3) by (simp add: j_write_def)
  have ok2: "journal_ok (srv_journal ?s2)"
    using journal_step_ok [OF journal_step.resolve [OF res] ok1] by (simp add: APPROVAL_APPROVED_def APPROVAL_PENDING_def)
  obtain y where y: "get_approval (w_rt w) ?a (srv_journal ?s2) = Inr (Some y)"
    using get_approval_new [OF assms(5), of ?a ?as ?x' ?es] a assms(3) by (auto simp: call_ok_def)
  show ?thesis
    using s1(1) jw y ok2 unfolding auto_approve_def approval_payload_def Let_def by auto
qed

lemma decide_auto:
  assumes "journal_ok (srv_journal s)" "fresh_ids w s" "call_ok t org sg" "live_row (srv_journal s) sg = None"
    and "tool_requires_approval cfg (tc_tool t)" "cfg_auto_approve cfg" "doubles (w_rt w) (tc_args t)"
  shows "\<exists>s' now now'. let a = w_uuid w (srv_uuids s); i = w_uuid w (Suc (srv_uuids s)) in
    reply w (decide_call cfg t org sg) c s 200 (executed_json (Some i)) s' \<and> journal_ok (srv_journal s') \<and>
    live_row (srv_journal s') sg = Some (call_row cfg t org sg EFFECT_EXECUTING (Some a) i now) \<and>
    approvals (srv_journal s') = approvals (srv_journal s) @
      [(new_approval_row a now org (tc_session t) (tc_tool t) (tc_args t) i)
        \<lparr>app_status := APPROVAL_APPROVED, app_resolved := Some now'\<rparr>]"
proof -
  let ?a = "w_uuid w (srv_uuids s)" and ?i = "w_uuid w (Suc (srv_uuids s))"
  obtain s1 now now' where aa: "hrun w (auto_approve cfg t org sg) c s = ((c, Inr (Some ?i, None)), s1)"
      "journal_ok (srv_journal s1)"
      "effects (srv_journal s1) = effects (srv_journal s) @ [call_row cfg t org sg EFFECT_EXECUTING (Some ?a) ?i now]"
      "approvals (srv_journal s1) = approvals (srv_journal s) @
        [(new_approval_row ?a now org (tc_session t) (tc_tool t) (tc_args t) ?i)
          \<lparr>app_status := APPROVAL_APPROVED, app_resolved := Some now'\<rparr>]"
    using auto_approve_new [OF assms(1-4,7)] unfolding Let_def by blast
  have live: "live_row (srv_journal s1) sg = Some (call_row cfg t org sg EFFECT_EXECUTING (Some ?a) ?i now)"
    using assms(4) aa(3) by (auto simp: live_row_def find_None_iff_filter find_Some_iff_filter is_live_iff)
  obtain s' where s': "reply w (send_json 200 (executed_json (Some ?i))) c s1 200 (executed_json (Some ?i)) s'" "later s1 s'"
    using send_json_reply by blast
  have "encodable sg" using assms(3) by (simp add: call_ok_def)
  then have "reply w (decide_call cfg t org sg) c s 200 (executed_json (Some ?i)) s'"
    using s' aa(1) assms(5,6) find_live_effect_None [OF _ assms(4)]
    by (auto simp: decide_call_def claim_signature_def reply_def)
  then show ?thesis
    using aa(2,4) live s'(2) unfolding Let_def later_def by metis
qed

text \<open>
  What a call the journal does not hold may lead to: the status and body of the response, and
  the journal afterwards.
\<close>

definition new_call :: "config \<Rightarrow> tool_call \<Rightarrow> pystr \<Rightarrow> pystr \<Rightarrow> journal \<Rightarrow> nat \<Rightarrow> json \<Rightarrow> journal \<Rightarrow> bool" where
  "new_call cfg t org sg j st v j' \<longleftrightarrow>
     (if \<not> tool_requires_approval cfg (tc_tool t) then
        \<exists>i now. st = 200 \<and> v = executed_json (Some i) \<and> approvals j' = approvals j \<and>
          live_row j' sg = Some (call_row cfg t org sg EFFECT_EXECUTING None i now)
      else if \<not> cfg_auto_approve cfg then
        \<exists>i a now. st = 202 \<and> v = pending_json a \<and>
          approvals j' = approvals j @ [new_approval_row a now org (tc_session t) (tc_tool t) (tc_args t) i] \<and>
          live_row j' sg = Some (call_row cfg t org sg EFFECT_AWAITING_APPROVAL (Some a) i now)
      else
        \<exists>i a now now'. st = 200 \<and> v = executed_json (Some i) \<and>
          approvals j' = approvals j @ [(new_approval_row a now org (tc_session t) (tc_tool t) (tc_args t) i)
            \<lparr>app_status := APPROVAL_APPROVED, app_resolved := Some now'\<rparr>] \<and>
          live_row j' sg = Some (call_row cfg t org sg EFFECT_EXECUTING (Some a) i now))"

lemma decide_new:
  assumes "journal_ok (srv_journal s)" "fresh_ids w s" "call_ok t org sg" "live_row (srv_journal s) sg = None"
    and "doubles (w_rt w) (tc_args t)"
  shows "\<exists>st v s'. reply w (decide_call cfg t org sg) c s st v s' \<and> journal_ok (srv_journal s') \<and>
    new_call cfg t org sg (srv_journal s) st v (srv_journal s')"
proof (cases "tool_requires_approval cfg (tc_tool t)")
  case False
  then show ?thesis using decide_run [OF assms(1-4) False, of c] unfolding new_call_def Let_def by auto
next
  case True
  show ?thesis
  proof (cases "cfg_auto_approve cfg")
    case False
    then show ?thesis using True decide_hold [OF assms(1-4) True False, of c] unfolding new_call_def Let_def by simp blast
  next
    case auto: True
    then show ?thesis
      using True decide_auto [OF assms(1-4) True auto assms(5), of c] unfolding new_call_def Let_def by simp blast
  qed
qed

text \<open>
  C23. A call the journal does not hold is journaled once and then decided by its tool alone. A
  tool that matches no pattern runs: status 200 with the new effect. A tool that needs approval
  is held: status 202 with the approval that was recorded with it in the same transaction. With
  automatic approval it runs, and its approval is recorded as granted. In every case the new
  effect holds the signature from then on.
\<close>

theorem tool_call_new:
  assumes "tool_request (w_rt w) c t sg" "journal_ok (srv_journal s)" "fresh_ids w s" "call_ok t (org_id_of c) sg"
    and "live_row (srv_journal s) sg = None" "doubles (w_rt w) (tc_args t)"
  shows "\<exists>st v s'. reply w (dispatch (w_rt w) cfg) c s st v s' \<and> journal_ok (srv_journal s') \<and>
    new_call cfg t (org_id_of c) sg (srv_journal s) st v (srv_journal s')"
  using assms(1)
proof (rule dispatch_tool_call)
  fix c1 s1 assume s1: "later s s1"
  then have j: "srv_journal s1 = srv_journal s" "fresh_ids w s1"
    using fresh_later [OF assms(3)] by (auto simp: later_def)
  show "\<exists>st v s'. reply w (decide_call cfg t (org_id_of c) sg) c1 s1 st v s' \<and> journal_ok (srv_journal s') \<and>
      new_call cfg t (org_id_of c) sg (srv_journal s) st v (srv_journal s')"
    using decide_new [of s1 w t "org_id_of c" sg cfg c1] assms j by simp
qed

lemma drop_request: "tool_request sample_runtime sample_guarded drop_call (signature_of drop_call)"
  by code_simp

lemma fresh_empty: "fresh_ids sample_world empty_server" "journal_ok (srv_journal empty_server)"
    "live_row (srv_journal empty_server) sg = None"
  by (rule fresh_sample) (simp_all add: empty_server_def empty_journal_def empty_journal_ok [unfolded empty_journal_def] live_row_def)

lemma drop_call_ok: "call_ok drop_call (org_id_of sample_guarded) (signature_of drop_call)"
  by code_simp

theorem tool_call_new_witness:
  "\<exists>st v s'. reply sample_world (dispatch sample_runtime sample_config) sample_guarded empty_server st v s' \<and>
     journal_ok (srv_journal s') \<and> st = 202 \<and> length (approvals (srv_journal s')) = 1"
proof -
  have "tool_requires_approval sample_config (tc_tool drop_call)" "\<not> cfg_auto_approve sample_config"
    "approvals (srv_journal empty_server) = []" "wf_json (tc_args drop_call)"
    by code_simp+
  then show ?thesis
    using tool_call_new [of sample_world sample_guarded drop_call "signature_of drop_call" empty_server sample_config]
      drop_request drop_call_ok fresh_empty sample_doubles [of "tc_args drop_call"]
    by (fastforce simp: new_call_def)
qed

section \<open>Reports\<close>

definition action_request :: "runtime \<Rightarrow> string \<Rightarrow> string \<Rightarrow> string \<Rightarrow> conn \<Rightarrow> pystr \<Rightarrow> json dict \<Rightarrow> bool" where
  "action_request rt command pre action c i body \<longleftrightarrow>
     c_command c = lit command \<and> i \<noteq> [] \<and> 47 \<notin> set i \<and>
     (case urlparse rt (c_path c) of Inl _ \<Rightarrow> False | Inr (path, _) \<Rightarrow> path = lit pre @ i @ lit ''/'' @ lit action) \<and>
     snd (parse_body rt c) = Inr body"

lemma partition_action: "47 \<notin> set i \<Longrightarrow> py_partition 47 (i @ 47 # r) = (i, [47], r)"
  by (rule partition_at)

lemma match_approvals:
  "i \<noteq> [] \<Longrightarrow> 47 \<notin> set i \<Longrightarrow> action \<in> set actions \<Longrightarrow>
     match_action ''/approvals/'' actions (lit ''/approvals/'' @ i @ lit ''/'' @ lit action) = Some (i, lit action)"
  using partition_action [of i "lit action"] by (simp add: match_action_def lit_def [of "''/''"])

lemma match_effects:
  "i \<noteq> [] \<Longrightarrow> 47 \<notin> set i \<Longrightarrow> action \<in> set actions \<Longrightarrow>
     match_action ''/effects/'' actions (lit ''/effects/'' @ i @ lit ''/'' @ lit action) = Some (i, lit action)"
  using partition_action [of i "lit action"] by (simp add: match_action_def lit_def [of "''/''"])

lemma match_approvals_effects: "match_action ''/approvals/'' actions (lit ''/effects/'' @ r) = None"
  by (simp add: match_action_def lit_def)

lemma route_action:
  "i \<noteq> [] \<Longrightarrow> 47 \<notin> set i \<Longrightarrow> action \<in> {''approve'', ''reject''} \<Longrightarrow>
     route rt cfg (lit ''/approvals/'' @ i @ lit ''/'' @ lit action) q =
       hseq (hseq (require_method ''POST'') (handle_approval_decision rt i (lit action))) (hret None)"
  "i \<noteq> [] \<Longrightarrow> 47 \<notin> set i \<Longrightarrow> action' \<in> {''commit'', ''fail''} \<Longrightarrow>
     route rt cfg (lit ''/effects/'' @ i @ lit ''/'' @ lit action') q =
       hseq (hseq (require_method ''PUT'') (handle_effect_action rt i (lit action'))) (hret None)"
  by (auto simp: route_def Let_def match_approvals match_effects match_approvals_effects)
    (auto simp: lit_def)

lemma dispatch_action:
  assumes "action_request rt command pre action c i body" "c_command c = lit m"
    and "route rt cfg (lit pre @ i @ lit ''/'' @ lit action) = (\<lambda>q. hseq (hseq (require_method m) h) (hret None))"
    and "reply w h c s st v s'"
  shows "reply w (dispatch rt cfg) c s st v s'"
proof -
  obtain q where "urlparse rt (c_path c) = Inr (lit pre @ i @ lit ''/'' @ lit action, q)"
    using assms(1) by (auto simp: action_request_def split: sum.splits)
  with assms show ?thesis
    by (auto simp: dispatch_def hlift_def require_method_def reply_def)
qed

end
