(* ===== verification/CallStories.thy ===== *)
theory CallStories
  imports ToolCalls
begin

text \<open>
  Several requests in a row: a call that runs, is reported and is replayed, and a call that is
  held and then approved or rejected.
\<close>

section \<open>A report and the row it leaves\<close>

lemma row_of_member: "journal_ok j \<Longrightarrow> r \<in> set (effects j) \<Longrightarrow> row_of j (eff_id r) = Some r"
proof -
  assume "journal_ok j" "r \<in> set (effects j)"
  then have "inj_on eff_id (set (effects j))" using journal_okD(1) by (simp add: distinct_map)
  with \<open>r \<in> set (effects j)\<close> show ?thesis
    unfolding row_of_def
    by (cases "List.find (\<lambda>x. eff_id x = eff_id r) (effects j)") (auto simp: find_None_iff find_Some_iff inj_on_def)
qed

lemma commit_live:
  assumes "journal_ok j" "live_row j sg = Some r" "encodable (eff_id r)" "wf_json v"
  shows "\<exists>j'. record_commit now (eff_id r) v j = Inr (True, j') \<and> journal_ok j' \<and> approvals j' = approvals j \<and>
    map eff_id (effects j') = map eff_id (effects j) \<and>
    live_row j' sg = Some (r\<lparr>eff_status := EFFECT_COMMITTED, eff_result := Some (json_dumps v), eff_error := None, eff_updated := now\<rparr>)"
proof -
  let ?f = "\<lambda>r. r\<lparr>eff_status := EFFECT_COMMITTED, eff_result := Some (json_dumps v), eff_error := None, eff_updated := now\<rparr>"
  let ?j = "j\<lparr>effects := map (update_row (eff_id r) ?f) (effects j)\<rparr>"
  note r = live_row_SomeD [OF assms(2)]
  have c: "record_commit now (eff_id r) v j = Inr (True, ?j)"
    using record_commit_eq [OF assms(1,3,4), of now] row_of_member [OF assms(1), of r] r assms(2) by auto
  have ok: "journal_ok ?j" using journal_step_ok [OF journal_step.commit [OF c] assms(1)] .
  have "live_row ?j sg = Some (update_row (eff_id r) ?f r)"
    unfolding live_row_iff [OF ok] using r by (auto simp: update_row_def is_live_def LIVE_EFFECT_STATUSES_def)
  with c ok show ?thesis by (simp add: update_row_def)
qed

lemma commit_reply:
  assumes "action_request rt ''PUT'' ''/effects/'' ''commit'' c i body" "map_of body (lit ''result'') = Some (JDict d)"
    and "record_commit (w_now w (srv_clock s)) i (JDict d) (srv_journal s) = Inr (True, j')"
  shows "\<exists>s'. reply w (dispatch rt cfg) c s 200 (outcome_json ''committed'' i) s' \<and> srv_journal s' = j' \<and>
    srv_uuids s \<le> srv_uuids s'"
proof -
  have a: "i \<noteq> []" "47 \<notin> set i" "c_command c = lit ''PUT''" "snd (parse_body rt c) = Inr body"
    using assms(1) by (auto simp: action_request_def)
  obtain c1 where c1: "parse_body rt c = (c1, Inr body)" using a(4) by (cases "parse_body rt c") auto
  have sent: "c_sent c1 = c_sent c" using parse_body_sent [of rt c] c1 by simp
  let ?s1 = "s\<lparr>srv_clock := Suc (srv_clock s), srv_journal := j'\<rparr>"
  have jw: "j_write w (\<lambda>now. record_commit now i (JDict d)) s = (Inr True, ?s1)"
    using assms(3) by (simp add: j_write_def)
  let ?em = "h_emit EVENT_EFFECT_COMMITTED (org_id_of c) (body_session body) (Some i) None (stage ''committed'')"
  obtain s2 where s2: "hrun w ?em c1 ?s1 = ((c1, Inr ()), s2)" "srv_journal s2 = j'" "srv_uuids s2 = srv_uuids s" by simp
  obtain s' where s': "reply w (send_json 200 (outcome_json ''committed'' i)) c1 s2 200 (outcome_json ''committed'' i) s'"
      "later s2 s'"
    using send_json_reply by blast
  have "reply w (handle_effect_action rt i (lit ''commit'')) c s 200 (outcome_json ''committed'' i) s'"
    using c1 sent assms(2) jw s2(1) s'(1) by (auto simp: handle_effect_action_def reply_def Let_def)
  then have "reply w (dispatch rt cfg) c s 200 (outcome_json ''committed'' i) s'"
    using dispatch_action [OF assms(1) a(3) ext] route_action(2) [OF a(1,2)] by (metis insertI1)
  with s'(2) s2(2,3) show ?thesis by (auto simp: later_def)
qed

lemma fail_live:
  assumes "journal_ok j" "live_row j sg = Some r" "encodable (eff_id r)" "encodable e"
  shows "\<exists>j'. record_fail now (eff_id r) e j = Inr (True, j') \<and> journal_ok j' \<and> approvals j' = approvals j \<and>
    map eff_id (effects j') = map eff_id (effects j) \<and> live_row j' sg = None"
proof -
  note r = live_row_SomeD [OF assms(2)]
  let ?f = "\<lambda>r. r\<lparr>eff_status := EFFECT_FAILED, eff_result := None, eff_error := Some e, eff_updated := now\<rparr>"
  let ?j = "j\<lparr>effects := map (update_row (eff_id r) ?f) (effects j)\<rparr>"
  have row: "row_of j (eff_id r) = Some r" using row_of_member [OF assms(1)] r by blast
  then have c: "record_fail now (eff_id r) e j = Inr (True, ?j)"
    using record_fail_eq [OF assms(1,3,4), of now] by simp
  have "journal_ok ?j" using journal_step_ok [OF journal_step.fail [OF c] assms(1)] .
  moreover have "live_row ?j sg = None" using record_fail_frees [OF assms(1,3,4) c row] r assms(2) by auto
  ultimately show ?thesis using c by (simp add: update_row_def)
qed

lemma fail_reply:
  assumes "action_request rt ''PUT'' ''/effects/'' ''fail'' c i body" "map_of body (lit ''error'') = Some (JStr e)"
    and "record_fail (w_now w (srv_clock s)) i e (srv_journal s) = Inr (True, j')"
  shows "\<exists>s'. reply w (dispatch rt cfg) c s 200 (outcome_json ''failed'' i) s' \<and> srv_journal s' = j' \<and>
    srv_uuids s \<le> srv_uuids s'"
proof -
  have a: "i \<noteq> []" "47 \<notin> set i" "c_command c = lit ''PUT''" "snd (parse_body rt c) = Inr body"
    using assms(1) by (auto simp: action_request_def)
  obtain c1 where c1: "parse_body rt c = (c1, Inr body)" using a(4) by (cases "parse_body rt c") auto
  have sent: "c_sent c1 = c_sent c" using parse_body_sent [of rt c] c1 by simp
  let ?s1 = "s\<lparr>srv_clock := Suc (srv_clock s), srv_journal := j'\<rparr>"
  have jw: "j_write w (\<lambda>now. record_fail now i e) s = (Inr True, ?s1)"
    using assms(3) by (simp add: j_write_def)
  let ?em = "h_emit EVENT_EFFECT_FAILED (org_id_of c) (body_session body) (Some i) None
    (JDict [(lit ''stage'', JStr (lit ''execute'')), (lit ''error'', JStr (lit ''failed''))])"
  obtain s2 where s2: "hrun w ?em c1 ?s1 = ((c1, Inr ()), s2)" "srv_journal s2 = j'" "srv_uuids s2 = srv_uuids s" by simp
  obtain s' where s': "reply w (send_json 200 (outcome_json ''failed'' i)) c1 s2 200 (outcome_json ''failed'' i) s'"
      "later s2 s'"
    using send_json_reply by blast
  have "reply w (handle_effect_action rt i (lit ''fail'')) c s 200 (outcome_json ''failed'' i) s'"
    using c1 sent assms(2) jw s2(1) s'(1) by (auto simp: handle_effect_action_def reply_def Let_def)
  then have "reply w (dispatch rt cfg) c s 200 (outcome_json ''failed'' i) s'"
    using dispatch_action [OF assms(1) a(3) ext] route_action(2) [OF a(1,2)] by (metis insertCI)
  with s'(2) s2(2,3) show ?thesis by (auto simp: later_def)
qed

text \<open>A committed effect answers with its stored result and stays as it is.\<close>

lemma decoded_replays:
  assumes "tool_request (w_rt w) c t sg" "journal_ok (srv_journal s)" "live_row (srv_journal s) sg = Some r"
    and "encodable sg" "encodable (eff_id r)" "eff_status r = EFFECT_COMMITTED" "effect_to_dict (w_rt w) r = Inr e"
  shows "\<exists>s'. reply w (dispatch (w_rt w) cfg) c s 200 (replayed_json (eff_id r) (dec_result e)) s' \<and>
    journal_ok (srv_journal s') \<and> same_ids s s' \<and> (\<exists>r'. live_row (srv_journal s') sg = Some r' \<and> eff_id r' = eff_id r \<and>
      eff_status r' = eff_status r \<and> eff_result r' = eff_result r \<and> eff_args r' = eff_args r) \<and>
    keeps_settled (srv_journal s) (srv_journal s')"
proof -
  let ?Q = "\<lambda>s'. journal_ok (srv_journal s') \<and> same_ids s s' \<and> (\<exists>r'. live_row (srv_journal s') sg = Some r' \<and> eff_id r' = eff_id r \<and>
      eff_status r' = eff_status r \<and> eff_result r' = eff_result r \<and> eff_args r' = eff_args r) \<and>
      keeps_settled (srv_journal s) (srv_journal s')"
  have "\<exists>st v' s'. reply w (dispatch (w_rt w) cfg) c s st v' s' \<and> (st = 200 \<and> v' = replayed_json (eff_id r) (dec_result e) \<and> ?Q s')"
    using assms(1)
  proof (rule dispatch_tool_call)
    fix c1 s1 assume "later s s1"
    then have j: "srv_journal s1 = srv_journal s" and u: "srv_uuids s \<le> srv_uuids s1" by (simp_all add: later_def)
    have "\<exists>s'. reply w (respond_for_live_effect cfg e (org_id_of c)) c1 s1 200 (replayed_json (eff_id e) (dec_result e)) s' \<and> ?Q s'"
      using respond_committed [of s1, unfolded j, OF assms(2,5,3,7,6), of cfg "org_id_of c" c1] j u
      by (fastforce simp: same_ids_def)
    then show "\<exists>st v' s'. reply w (decide_call cfg t (org_id_of c) sg) c1 s1 st v' s' \<and>
        (st = 200 \<and> v' = replayed_json (eff_id r) (dec_result e) \<and> ?Q s')"
      using find_live_effect_row [OF assms(4) _ assms(7)] assms(3) j effect_to_dict_fields [OF assms(7)]
      by (fastforce simp: decide_call_def reply_def)
  qed
  then show ?thesis by blast
qed

lemma committed_replays:
  assumes "tool_request (w_rt w) c t sg" "journal_ok (srv_journal s)" "live_row (srv_journal s) sg = Some r"
    and "encodable sg" "encodable (eff_id r)" "doubles (w_rt w) args \<and> doubles (w_rt w) v"
    and "eff_status r = EFFECT_COMMITTED" "eff_args r = json_dumps args" "wf_json args"
    and "eff_result r = Some (json_dumps v)" "wf_json v"
  shows "\<exists>s'. reply w (dispatch (w_rt w) cfg) c s 200 (replayed_json (eff_id r) (Some v)) s'"
proof -
  have "effect_to_dict (w_rt w) r = Inr (effect_row.extend r \<lparr>dec_args = args, dec_result = Some v\<rparr>)"
    using json_loads_dumps [of "w_rt w" args] json_loads_dumps [of "w_rt w" v] assms(6,8-11) by (simp add: effect_to_dict_def)
  from decoded_replays [OF assms(1-5,7) this] show ?thesis by (auto simp: effect_row.defs)
qed

lemma commit_then_replay:
  assumes "journal_ok (srv_journal s)" "live_row (srv_journal s) sg = Some r" "encodable sg" "encodable (eff_id r)"
    and "doubles (w_rt w) args" "eff_args r = json_dumps args" "wf_json args"
    and "action_request (w_rt w) ''PUT'' ''/effects/'' ''commit'' c (eff_id r) body"
    and "map_of body (lit ''result'') = Some (JDict d)" "wf_json (JDict d)" "doubles (w_rt w) (JDict d)"
  shows "\<exists>s'. reply w (dispatch (w_rt w) cfg) c s 200 (outcome_json ''committed'' (eff_id r)) s' \<and>
    (\<forall>c' t. tool_request (w_rt w) c' t sg \<longrightarrow>
       (\<exists>s''. reply w (dispatch (w_rt w) cfg) c' s' 200 (replayed_json (eff_id r) (Some (JDict d))) s''))"
proof -
  obtain j' r' where j': "record_commit (w_now w (srv_clock s)) (eff_id r) (JDict d) (srv_journal s) = Inr (True, j')"
      "journal_ok j'" "live_row j' sg = Some r'" "eff_id r' = eff_id r" "eff_status r' = EFFECT_COMMITTED"
      "eff_args r' = json_dumps args" "eff_result r' = Some (json_dumps (JDict d))"
    using commit_live [OF assms(1,2,4,10)] assms(6) by fastforce
  from commit_reply [OF assms(8,9) j'(1)] obtain s' where
    s': "reply w (dispatch (w_rt w) cfg) c s 200 (outcome_json ''committed'' (eff_id r)) s'" "srv_journal s' = j'" by blast
  have "\<exists>s''. reply w (dispatch (w_rt w) cfg) c' s' 200 (replayed_json (eff_id r) (Some (JDict d))) s''"
    if "tool_request (w_rt w) c' t sg" for c' t
    using committed_replays [OF that j'(2,3) [folded s'(2)] assms(3) _ _ j'(5,6) assms(7) j'(7) assms(10)]
      j'(4) assms(4,5,11) by simp
  with s'(1) show ?thesis by blast
qed

text \<open>
  Run once, replay for ever. A call that is not guarded and that the journal does not hold is
  told to run. When the caller reports its result, the report is acknowledged, and every later
  request for the same call is answered with exactly the reported result, without running again.
  The effect is named by the next identifier the server draws.
\<close>

theorem intercept_commit_replay:
  assumes "tool_request (w_rt w) c t sg" "journal_ok (srv_journal s)" "fresh_ids w s" "call_ok t (org_id_of c) sg"
    and "live_row (srv_journal s) sg = None" "doubles (w_rt w) (tc_args t)" "\<not> tool_requires_approval cfg (tc_tool t)"
  shows "let i = w_uuid w (srv_uuids s) in \<exists>s1. reply w (dispatch (w_rt w) cfg) c s 200 (executed_json (Some i)) s1 \<and>
    (\<forall>c2 body d. action_request (w_rt w) ''PUT'' ''/effects/'' ''commit'' c2 i body \<longrightarrow>
       map_of body (lit ''result'') = Some (JDict d) \<longrightarrow> wf_json (JDict d) \<longrightarrow> doubles (w_rt w) (JDict d) \<longrightarrow>
       (\<exists>s2. reply w (dispatch (w_rt w) cfg) c2 s1 200 (outcome_json ''committed'' i) s2 \<and>
          (\<forall>c3 t3. tool_request (w_rt w) c3 t3 sg \<longrightarrow>
             (\<exists>s3. reply w (dispatch (w_rt w) cfg) c3 s2 200 (replayed_json i (Some (JDict d))) s3))))"
proof -
  let ?i = "w_uuid w (srv_uuids s)"
  let ?Q = "\<lambda>st v s'. st = 200 \<and> v = executed_json (Some ?i) \<and> journal_ok (srv_journal s') \<and>
    (\<exists>now. live_row (srv_journal s') sg = Some (call_row cfg t (org_id_of c) sg EFFECT_EXECUTING None ?i now))"
  have "\<exists>st v s'. reply w (dispatch (w_rt w) cfg) c s st v s' \<and> ?Q st v s'"
    using assms(1)
  proof (rule dispatch_tool_call)
    fix c1 s1 assume "later s s1" and i: "srv_uuids s1 = srv_uuids s"
    then have j: "srv_journal s1 = srv_journal s" "fresh_ids w s1"
      using fresh_later [OF assms(3)] by (auto simp: later_def)
    from decide_run [OF _ j(2) assms(4) _ assms(7), of c1, unfolded j(1) i, OF assms(2,5)]
    show "\<exists>st v s'. reply w (decide_call cfg t (org_id_of c) sg) c1 s1 st v s' \<and> ?Q st v s'"
      unfolding Let_def by blast
  qed
  then obtain now s1 where s1: "reply w (dispatch (w_rt w) cfg) c s 200 (executed_json (Some ?i)) s1"
      "journal_ok (srv_journal s1)"
      "live_row (srv_journal s1) sg = Some (call_row cfg t (org_id_of c) sg EFFECT_EXECUTING None ?i now)"
    by blast
  have "encodable sg" "wf_json (tc_args t)" using assms(4) by (simp_all add: call_ok_def)
  note commit_then_replay [OF s1(2,3) this(1) _ assms(6) _ this(2)]
  moreover have "encodable ?i" using assms(3) by (simp add: fresh_ids_def)
  ultimately show ?thesis using s1(1) unfolding Let_def by (intro exI [of _ s1]) simp
qed

lemma commit_request:
  "action_request sample_runtime ''PUT'' ''/effects/'' ''commit'' sample_commit (lit ''id-0'')
     [(lit ''result'', JDict [(lit ''paid'', JBool True)])]"
  by code_simp

lemma pay_call_ok: "call_ok pay_call (org_id_of sample_call) (signature_of pay_call)"
  by code_simp

theorem intercept_commit_replay_witness:
  "\<exists>s1 s2 s3. reply sample_world (dispatch sample_runtime sample_config) sample_call empty_server 200
       (executed_json (Some (lit ''id-0''))) s1 \<and>
     reply sample_world (dispatch sample_runtime sample_config) sample_commit s1 200
       (outcome_json ''committed'' (lit ''id-0'')) s2 \<and>
     reply sample_world (dispatch sample_runtime sample_config) sample_call s2 200
       (replayed_json (lit ''id-0'') (Some (JDict [(lit ''paid'', JBool True)]))) s3"
proof -
  have "\<not> tool_requires_approval sample_config (tc_tool pay_call)" by code_simp
  moreover have "w_uuid sample_world (srv_uuids empty_server) = lit ''id-0''" by code_simp
  moreover have "wf_json (JDict [(lit ''paid'', JBool True)])" "wf_json (tc_args pay_call)" by code_simp+
  moreover have "map_of [(lit ''result'', JDict [(lit ''paid'', JBool True)])] (lit ''result'') =
      Some (JDict [(lit ''paid'', JBool True)])" by simp
  ultimately show ?thesis
    using intercept_commit_replay [of sample_world sample_call pay_call "signature_of pay_call" empty_server sample_config]
      pay_request pay_call_ok fresh_empty sample_doubles commit_request
    unfolding Let_def sample_world_runtime by metis
qed

end
