(* ===== verification/ApprovalStories.thy ===== *)
theory ApprovalStories
  imports CallStories
begin

text \<open>
  The decisions on a held call: granting its approval commits the marked mock result, which every
  later identical call replays, and refusing it frees the signature, so the next identical call
  asks for a new approval.
\<close>

section \<open>Resolving an approval\<close>

lemma find_approval:
  assumes "journal_ok j" "x \<in> set (approvals j)"
  shows "List.find (\<lambda>a. app_id a = app_id x) (approvals j) = Some x"
proof -
  have "inj_on app_id (set (approvals j))" using journal_okD(2) [OF assms(1)] by (simp add: distinct_map)
  with assms(2) show ?thesis
    by (cases "List.find (\<lambda>a. app_id a = app_id x) (approvals j)") (auto simp: find_None_iff find_Some_iff inj_on_def)
qed

lemma get_approval_row:
  assumes "journal_ok j" "x \<in> set (approvals j)" "encodable (app_id x)" "doubles rt args"
    and "app_args x = json_dumps args" "wf_json args"
  shows "get_approval rt (app_id x) j = Inr (Some (approval_row.extend x \<lparr>dec_app_args = args\<rparr>))"
  using find_approval [OF assms(1,2)] json_loads_dumps [OF assms(4,6)] assms(3,5)
  by (simp add: get_approval_def approval_to_dict_def bind_encodable)

lemma resolve_pending:
  assumes "journal_ok j" "x \<in> set (approvals j)" "app_status x = APPROVAL_PENDING" "encodable (app_id x)"
    and "st = APPROVAL_APPROVED \<or> st = APPROVAL_REJECTED"
  shows "\<exists>j'. resolve_approval now (app_id x) st j = Inr (True, j') \<and> journal_ok j' \<and> effects j' = effects j \<and>
    map app_id (approvals j') = map app_id (approvals j) \<and>
    x\<lparr>app_status := st, app_resolved := Some now\<rparr> \<in> set (approvals j')"
proof -
  define u :: "approval_row \<Rightarrow> approval_row" where "u = (\<lambda>y. if app_id y = app_id x \<and> app_status y = APPROVAL_PENDING
      then y\<lparr>app_status := st, app_resolved := Some now\<rparr> else y)"
  let ?j = "j\<lparr>approvals := map u (approvals j)\<rparr>"
  have st: "encodable st" "st \<noteq> APPROVAL_PENDING"
    using assms(5) by (auto simp: APPROVAL_APPROVED_def APPROVAL_REJECTED_def APPROVAL_PENDING_def)
  have "list_ex (\<lambda>y. app_id y = app_id x \<and> app_status y = APPROVAL_PENDING) (approvals j)"
    unfolding list_ex_iff using assms(2,3) by blast
  then have r: "resolve_approval now (app_id x) st j = Inr (True, ?j)"
    unfolding resolve_approval_Inr u_def using st(1) assms(4) by simp
  have ok: "journal_ok ?j" using journal_step_ok [OF journal_step.resolve [OF r st(2)] assms(1)] .
  have "app_id \<circ> u = app_id" by (auto simp: u_def)
  then have ids: "map app_id (approvals ?j) = map app_id (approvals j)" by simp
  have "u x = x\<lparr>app_status := st, app_resolved := Some now\<rparr>" using assms(3) by (simp add: u_def)
  then have "x\<lparr>app_status := st, app_resolved := Some now\<rparr> \<in> set (approvals ?j)"
    using assms(2) by (metis (no_types, lifting) image_eqI journal.select_convs(2) journal.surjective journal.update_convs(2) set_map)
  with r ok ids show ?thesis by (intro exI [of _ ?j]) simp
qed

text \<open>A decision request up to the resolution of its approval.\<close>

lemma decision_reply:
  assumes "action_request rt ''POST'' ''/approvals/'' action c i body" "action \<in> {''approve'', ''reject''}"
    and "get_approval (w_rt w) i (srv_journal s) = Inr (Some a)" "app_status a = APPROVAL_PENDING"
    and "\<And>c1. \<exists>s'. reply w (if action = ''reject'' then reject_held i (org_id_of c) a else approve_held i (org_id_of c) a)
      c1 s st v s' \<and> Q s'"
  shows "\<exists>s'. reply w (dispatch rt cfg) c s st v s' \<and> Q s'"
proof -
  have r: "i \<noteq> []" "47 \<notin> set i" "c_command c = lit ''POST''" "snd (parse_body rt c) = Inr body"
    using assms(1) by (auto simp: action_request_def)
  obtain c1 where c1: "parse_body rt c = (c1, Inr body)" using r(4) by (cases "parse_body rt c") auto
  have sent: "c_sent c1 = c_sent c" using parse_body_sent [of rt c] c1 by simp
  from assms(5) [of c1] obtain s' where s': "Q s'"
    "reply w (if action = ''reject'' then reject_held i (org_id_of c) a else approve_held i (org_id_of c) a) c1 s st v s'"
    by blast
  have "reply w (handle_approval_decision rt i (lit action)) c s st v s'"
    using assms(2-4) s'(2) c1 sent by (auto simp: handle_approval_decision_def reply_def lit_def)
  then have "reply w (dispatch rt cfg) c s st v s'"
    using dispatch_action [OF assms(1) r(3) ext] route_action(1) [OF r(1,2) assms(2)] by metis
  with s'(1) show ?thesis by blast
qed

text \<open>The call of \<open>x\<close> is held: its approval is open and its effect holds the signature.\<close>

definition held :: "journal \<Rightarrow> pystr \<Rightarrow> approval_row \<Rightarrow> json \<Rightarrow> bool" where
  "held j sg x args \<longleftrightarrow> journal_ok j \<and> x \<in> set (approvals j) \<and> app_status x = APPROVAL_PENDING \<and>
     app_args x = json_dumps args \<and> wf_json args \<and> wf_str (app_tool x) \<and>
     list_all encodable [sg, app_id x, app_effect x] \<and>
     (case live_row j sg of None \<Rightarrow> False | Some r \<Rightarrow> eff_id r = app_effect x \<and> eff_args r = json_dumps args)"

lemma heldD:
  assumes "held j sg x args"
  shows "journal_ok j" "x \<in> set (approvals j)" "app_status x = APPROVAL_PENDING" "app_args x = json_dumps args"
    "wf_json args" "wf_str (app_tool x)" "encodable sg" "encodable (app_id x)" "encodable (app_effect x)"
    "\<exists>r. live_row j sg = Some r \<and> eff_id r = app_effect x \<and> eff_args r = json_dumps args"
  using assms by (auto simp: held_def split: option.splits)

lemma held_resolved:
  assumes "held j sg x args" "st = APPROVAL_APPROVED \<or> st = APPROVAL_REJECTED"
  shows "\<exists>j' r y. resolve_approval now (app_id x) st j = Inr (True, j') \<and> journal_ok j' \<and> effects j' = effects j \<and>
    map app_id (approvals j') = map app_id (approvals j) \<and> y \<in> set (approvals j') \<and> app_id y = app_id x \<and>
    app_args y = json_dumps args \<and>
    live_row j' sg = Some r \<and> eff_id r = app_effect x \<and> eff_args r = json_dumps args"
proof -
  note h = heldD [OF assms(1)]
  from resolve_pending [OF h(1-3,8) assms(2), of now] obtain j' where
    j': "resolve_approval now (app_id x) st j = Inr (True, j')" "journal_ok j'" "effects j' = effects j"
      "map app_id (approvals j') = map app_id (approvals j)"
      "x\<lparr>app_status := st, app_resolved := Some now\<rparr> \<in> set (approvals j')"
    by blast
  have "live_row j' sg = live_row j sg" using j'(3) by (simp add: live_row_def)
  with h(10) h(4) j' show ?thesis by (intro exI [of _ j'] exI [of _ "the (live_row j sg)"] exI) auto
qed

section \<open>Granting\<close>

lemma wf_mock_result: "wf_json args \<Longrightarrow> wf_str tool \<Longrightarrow> wf_json (mock_tool_result tool args)"
  by (simp add: mock_tool_result_def dict_keys_ok_def lit_def is_high_def)

lemma approve_reply:
  assumes "action_request (w_rt w) ''POST'' ''/approvals/'' ''approve'' c (app_id x) body"
    and "held (srv_journal s) sg x args" "doubles (w_rt w) args"
  shows "\<exists>s'. reply w (dispatch (w_rt w) cfg) c s 200
      (approved_json (app_id x) (app_effect x) (mock_tool_result (app_tool x) args)) s' \<and>
    journal_ok (srv_journal s') \<and> (\<exists>r. live_row (srv_journal s') sg = Some r \<and> eff_id r = app_effect x \<and>
      eff_status r = EFFECT_COMMITTED \<and> eff_args r = json_dumps args \<and>
      eff_result r = Some (json_dumps (mock_tool_result (app_tool x) args)))"
proof (rule decision_reply [OF assms(1)])
  note h = heldD [OF assms(2)]
  let ?a = "approval_row.extend x \<lparr>dec_app_args = args\<rparr>"
  show "get_approval (w_rt w) (app_id x) (srv_journal s) = Inr (Some ?a)"
    using get_approval_row [OF h(1,2,8) assms(3) h(4,5)] .
  show "app_status ?a = APPROVAL_PENDING" using h(3) by (simp add: approval_row.defs)
  fix c1
  let ?v = "mock_tool_result (app_tool x) args"
  let ?now1 = "w_now w (srv_clock s)" and ?now2 = "w_now w (Suc (srv_clock s))"
  from held_resolved [OF assms(2), of APPROVAL_APPROVED ?now1] obtain j1 r y where
    j1: "resolve_approval ?now1 (app_id x) APPROVAL_APPROVED (srv_journal s) = Inr (True, j1)" "journal_ok j1"
      "y \<in> set (approvals j1)" "app_id y = app_id x" "app_args y = json_dumps args"
      "live_row j1 sg = Some r" "eff_id r = app_effect x" "eff_args r = json_dumps args"
    by blast
  have "encodable (eff_id r)" using j1(7) h(9) by simp
  from commit_live [OF j1(2,6) this wf_mock_result [OF h(5,6)], of ?now2] obtain j2 where
    j2: "record_commit ?now2 (app_effect x) ?v j1 = Inr (True, j2)" "journal_ok j2" "approvals j2 = approvals j1"
      "\<exists>r. live_row j2 sg = Some r \<and> eff_id r = app_effect x \<and> eff_status r = EFFECT_COMMITTED \<and>
        eff_args r = json_dumps args \<and> eff_result r = Some (json_dumps ?v)"
    using j1(7,8) by auto
  obtain p where p: "get_approval (w_rt w) (app_id x) j2 = Inr (Some p)"
    using get_approval_row [OF j2(2) _ _ assms(3) j1(5) h(5)] j1(3,4) j2(3) h(8) by auto
  let ?s2 = "s\<lparr>srv_clock := Suc (Suc (srv_clock s)), srv_journal := j2\<rparr>"
  let ?em = "h_emit EVENT_APPROVAL_APPROVED (org_id_of c) (JStr (app_session x)) (Some (app_effect x)) (Some (app_id x))
    (approval_json p)"
  obtain s3 where s3: "hrun w ?em c1 ?s2 = ((c1, Inr ()), s3)" "srv_journal s3 = j2" by simp
  obtain s' where s': "reply w (send_json 200 (approved_json (app_id x) (app_effect x) ?v)) c1 s3 200
      (approved_json (app_id x) (app_effect x) ?v) s'" "later s3 s'"
    using send_json_reply by blast
  have "reply w (approve_held (app_id x) (org_id_of c) ?a) c1 s 200 (approved_json (app_id x) (app_effect x) ?v) s'"
    using j1(1) j2(1) p s3(1) s'(1)
    by (simp add: approve_held_def reply_def j_write_def approval_payload_def Let_def approval_row.defs)
  then show "\<exists>s'. reply w (if ''approve'' = ''reject'' then reject_held (app_id x) (org_id_of c) ?a
        else approve_held (app_id x) (org_id_of c) ?a) c1 s 200
      (approved_json (app_id x) (app_effect x) ?v) s' \<and> journal_ok (srv_journal s') \<and>
    (\<exists>r. live_row (srv_journal s') sg = Some r \<and> eff_id r = app_effect x \<and> eff_status r = EFFECT_COMMITTED \<and>
      eff_args r = json_dumps args \<and> eff_result r = Some (json_dumps ?v))"
    using j2(2,4) s'(2) s3(2) by (auto simp: later_def)
qed simp

section \<open>Refusing\<close>

lemma reject_live:
  assumes "journal_ok j" "live_row j sg = Some r" "encodable (eff_id r)"
  shows "\<exists>j'. mark_rejected now (eff_id r) j = Inr (True, j') \<and> journal_ok j' \<and> approvals j' = approvals j \<and>
    map eff_id (effects j') = map eff_id (effects j) \<and> live_row j' sg = None"
proof -
  let ?f = "\<lambda>r. r\<lparr>eff_status := EFFECT_REJECTED, eff_result := None, eff_error := None, eff_updated := now\<rparr>"
  let ?u = "update_row (eff_id r) ?f"
  let ?j = "j\<lparr>effects := map ?u (effects j)\<rparr>"
  note r = live_row_SomeD [OF assms(2)]
  have dead: "EFFECT_REJECTED \<notin> set LIVE_EFFECT_STATUSES" "encodable EFFECT_REJECTED"
    by (code_simp, code_simp)
  have c: "mark_rejected now (eff_id r) j = Inr (True, ?j)"
    unfolding mark_rejected_def
    by (subst update_effect_result [OF assms(1,3) dead(2)]) (use row_of_member [OF assms(1)] r dead in auto)
  have keep: "eff_id (?u y) = eff_id y" "eff_signature (?u y) = eff_signature y" for y
    by (simp_all add: update_row_def)
  have "\<not> is_live (?u y)" if "y \<in> set (effects j)" "eff_signature y = sg" for y
    using that live_row_iff [OF assms(1), of sg y] assms(2) dead(1) by (auto simp: update_row_def is_live_def)
  then have "live_row ?j sg = None" unfolding live_row_None using keep(2) by auto
  moreover have "map eff_id (effects ?j) = map eff_id (effects j)" using keep(1) by simp
  moreover have "journal_ok ?j" using journal_step_ok [OF journal_step.reject [OF c] assms(1)] .
  ultimately show ?thesis using c by simp
qed

definition rejected_json :: "pystr \<Rightarrow> json" where
  "rejected_json approval_id = JDict [(lit ''status'', JStr (lit ''rejected'')), (lit ''approval_id'', JStr approval_id)]"

lemma reject_reply:
  assumes "action_request (w_rt w) ''POST'' ''/approvals/'' ''reject'' c (app_id x) body"
    and "held (srv_journal s) sg x args" "doubles (w_rt w) args"
  shows "\<exists>s'. reply w (dispatch (w_rt w) cfg) c s 200 (rejected_json (app_id x)) s' \<and>
    journal_ok (srv_journal s') \<and> live_row (srv_journal s') sg = None \<and> srv_uuids s \<le> srv_uuids s' \<and>
    map eff_id (effects (srv_journal s')) = map eff_id (effects (srv_journal s)) \<and>
    map app_id (approvals (srv_journal s')) = map app_id (approvals (srv_journal s))"
proof (rule decision_reply [OF assms(1)])
  note h = heldD [OF assms(2)]
  let ?a = "approval_row.extend x \<lparr>dec_app_args = args\<rparr>"
  show "get_approval (w_rt w) (app_id x) (srv_journal s) = Inr (Some ?a)"
    using get_approval_row [OF h(1,2,8) assms(3) h(4,5)] .
  show "app_status ?a = APPROVAL_PENDING" using h(3) by (simp add: approval_row.defs)
  fix c1
  let ?now1 = "w_now w (srv_clock s)" and ?now2 = "w_now w (Suc (srv_clock s))"
  from held_resolved [OF assms(2), of APPROVAL_REJECTED ?now1] obtain j1 r y where
    j1: "resolve_approval ?now1 (app_id x) APPROVAL_REJECTED (srv_journal s) = Inr (True, j1)" "journal_ok j1"
      "y \<in> set (approvals j1)" "app_id y = app_id x" "app_args y = json_dumps args"
      "live_row j1 sg = Some r" "eff_id r = app_effect x" "effects j1 = effects (srv_journal s)"
      "map app_id (approvals j1) = map app_id (approvals (srv_journal s))"
    by blast
  have "encodable (eff_id r)" using j1(7) h(9) by simp
  from reject_live [OF j1(2,6) this, of ?now2] obtain j2 where
    j2: "mark_rejected ?now2 (app_effect x) j1 = Inr (True, j2)" "journal_ok j2" "approvals j2 = approvals j1"
      "map eff_id (effects j2) = map eff_id (effects j1)" "live_row j2 sg = None"
    using j1(7) by auto
  obtain p where p: "get_approval (w_rt w) (app_id x) j2 = Inr (Some p)"
    using get_approval_row [OF j2(2) _ _ assms(3) j1(5) h(5)] j1(3,4) j2(3) h(8) by auto
  let ?s2 = "s\<lparr>srv_clock := Suc (Suc (srv_clock s)), srv_journal := j2\<rparr>"
  let ?em = "h_emit EVENT_APPROVAL_REJECTED (org_id_of c) (JStr (app_session x)) None (Some (app_id x)) (approval_json p)"
  obtain s3 where s3: "hrun w ?em c1 ?s2 = ((c1, Inr ()), s3)" "srv_journal s3 = j2" "srv_uuids s3 = srv_uuids s" by simp
  obtain s' where s': "reply w (send_json 200 (rejected_json (app_id x))) c1 s3 200 (rejected_json (app_id x)) s'" "later s3 s'"
    using send_json_reply by blast
  have "reply w (reject_held (app_id x) (org_id_of c) ?a) c1 s 200 (rejected_json (app_id x)) s'"
    using j1(1) j2(1) p s3(1) s'(1)
    by (simp add: reject_held_def reply_def j_write_def approval_payload_def approval_row.defs rejected_json_def)
  then show "\<exists>s'. reply w (if ''reject'' = ''reject'' then reject_held (app_id x) (org_id_of c) ?a
        else approve_held (app_id x) (org_id_of c) ?a) c1 s 200 (rejected_json (app_id x)) s' \<and>
    journal_ok (srv_journal s') \<and> live_row (srv_journal s') sg = None \<and> srv_uuids s \<le> srv_uuids s' \<and>
    map eff_id (effects (srv_journal s')) = map eff_id (effects (srv_journal s)) \<and>
    map app_id (approvals (srv_journal s')) = map app_id (approvals (srv_journal s))"
    using j2(2-5) j1(8,9) s'(2) s3(2,3) by (auto simp: later_def)
qed simp

lemma fresh_ids_kept:
  assumes "fresh_ids w s" "srv_uuids s \<le> srv_uuids s'"
    "map eff_id (effects (srv_journal s')) = map eff_id (effects (srv_journal s))"
    "map app_id (approvals (srv_journal s')) = map app_id (approvals (srv_journal s))"
  shows "fresh_ids w s'"
proof -
  have "eff_id ` set (effects (srv_journal s')) = eff_id ` set (effects (srv_journal s))"
    "app_id ` set (approvals (srv_journal s')) = app_id ` set (approvals (srv_journal s))"
    using arg_cong [OF assms(3), of set] arg_cong [OF assms(4), of set] by simp_all
  then show ?thesis using assms(1,2) unfolding fresh_ids_def by simp
qed

lemma doubles_mock_result: "doubles rt args \<Longrightarrow> doubles rt (mock_tool_result tool args)"
  by (simp add: mock_tool_result_def)

section \<open>The two decisions\<close>

definition held_approval :: approval_row where
  "held_approval = new_approval_row (lit ''id-0'') (lit ''t-0'') DEFAULT_ORG_ID (tc_session drop_call) (tc_tool drop_call)
     (tc_args drop_call) (lit ''id-1'')"

definition held_server :: server where
  "held_server = empty_server\<lparr>srv_uuids := 2, srv_journal := \<lparr>
     effects = [call_row sample_config drop_call DEFAULT_ORG_ID (signature_of drop_call) EFFECT_AWAITING_APPROVAL
       (Some (lit ''id-0'')) (lit ''id-1'') (lit ''t-0'')], approvals = [held_approval]\<rparr>\<rparr>"

lemma held_sample: "held (srv_journal held_server) (signature_of drop_call) held_approval (tc_args drop_call)"
  by code_simp

lemma held_id: "app_id held_approval = lit ''id-0''" "app_effect held_approval = lit ''id-1''" "app_tool held_approval = lit ''drop_table''"
  by code_simp+

text \<open>
  C20. Granting a held call answers with the marked mock result of its tool and arguments. Every
  later request for that call is answered with that result, so that the call is neither held nor
  told to run, whatever journal calls were made in between, as long as none of them reports the
  effect as committed, failed or rejected.
\<close>

theorem approval_granted:
  assumes "held (srv_journal s) sg x args" "doubles (w_rt w) args"
    and "action_request (w_rt w) ''POST'' ''/approvals/'' ''approve'' c (app_id x) body"
  shows "\<exists>s1. reply w (dispatch (w_rt w) cfg) c s 200
      (approved_json (app_id x) (app_effect x) (mock_tool_result (app_tool x) args)) s1 \<and>
    (\<forall>evs s2 c2 t. run journal_step (srv_journal s1) evs (srv_journal s2) \<longrightarrow> (\<forall>ev \<in> set evs. \<not> settles (app_effect x) ev) \<longrightarrow>
       tool_request (w_rt w) c2 t sg \<longrightarrow> (\<exists>s3. reply w (dispatch (w_rt w) cfg) c2 s2 200
         (replayed_json (app_effect x) (Some (mock_tool_result (app_tool x) args))) s3))"
proof -
  note h = heldD [OF assms(1)]
  from approve_reply [OF assms(3,1,2)] obtain s1 r where
    s1: "reply w (dispatch (w_rt w) cfg) c s 200
        (approved_json (app_id x) (app_effect x) (mock_tool_result (app_tool x) args)) s1"
      "journal_ok (srv_journal s1)" "live_row (srv_journal s1) sg = Some r" "eff_id r = app_effect x"
      "eff_status r = EFFECT_COMMITTED" "eff_args r = json_dumps args"
      "eff_result r = Some (json_dumps (mock_tool_result (app_tool x) args))"
    by blast
  have "\<exists>s3. reply w (dispatch (w_rt w) cfg) c2 s2 200
      (replayed_json (app_effect x) (Some (mock_tool_result (app_tool x) args))) s3"
    if t: "run journal_step (srv_journal s1) evs (srv_journal s2)" "\<forall>ev \<in> set evs. \<not> settles (app_effect x) ev"
      "tool_request (w_rt w) c2 t sg" for evs s2 c2 t
  proof -
    from run_outcome [OF t(1) s1(2,3)] t(2) s1(4-7) obtain r2 where r2: "journal_ok (srv_journal s2)"
        "live_row (srv_journal s2) sg = Some r2" "eff_id r2 = app_effect x" "eff_status r2 = EFFECT_COMMITTED"
        "eff_args r2 = json_dumps args" "eff_result r2 = Some (json_dumps (mock_tool_result (app_tool x) args))"
      by auto
    show ?thesis
      using committed_replays [OF t(3) r2(1,2) h(7) _ _ r2(4,5) h(5) r2(6) wf_mock_result [OF h(5,6)], of cfg] r2(3) h(9)
        assms(2) doubles_mock_result [OF assms(2)] by simp
  qed
  with s1(1) show ?thesis by blast
qed

theorem approval_granted_witness:
  "\<exists>s1 s2. reply sample_world (dispatch sample_runtime sample_config) (sample_decision ''approve'') held_server 200
       (approved_json (lit ''id-0'') (lit ''id-1'') (mock_tool_result (lit ''drop_table'') (JDict []))) s1 \<and>
     reply sample_world (dispatch sample_runtime sample_config) sample_guarded s1 200
       (replayed_json (lit ''id-1'') (Some (mock_tool_result (lit ''drop_table'') (JDict [])))) s2"
proof -
  have a: "action_request sample_runtime ''POST'' ''/approvals/'' ''approve'' (sample_decision ''approve'') (lit ''id-0'') []"
    "tc_args drop_call = JDict []" "doubles sample_runtime (JDict [])"
    by code_simp+
  have "held (srv_journal held_server) (signature_of drop_call) held_approval (JDict [])" using held_sample a(2) by simp
  from approval_granted [OF this, of sample_world "sample_decision ''approve''" "[]" sample_config,
      unfolded held_id sample_world_runtime, OF a(3,1)] obtain s1 where
    s1: "reply sample_world (dispatch sample_runtime sample_config) (sample_decision ''approve'') held_server 200
        (approved_json (lit ''id-0'') (lit ''id-1'') (mock_tool_result (lit ''drop_table'') (JDict []))) s1"
      "\<And>evs s2 c2 t. run journal_step (srv_journal s1) evs (srv_journal s2) \<Longrightarrow> \<forall>ev \<in> set evs. \<not> settles (lit ''id-1'') ev \<Longrightarrow>
         tool_request sample_runtime c2 t (signature_of drop_call) \<Longrightarrow>
         \<exists>s3. reply sample_world (dispatch sample_runtime sample_config) c2 s2 200
           (replayed_json (lit ''id-1'') (Some (mock_tool_result (lit ''drop_table'') (JDict [])))) s3"
    by blast
  from s1(1) s1(2) [OF run_Nil _ drop_request] show ?thesis by auto
qed

text \<open>
  C21. Refusing a held call frees its signature, so on a server that does not approve by itself the
  next request for the call asks again: it is held under a new approval, not answered from the
  refused one and not run.
\<close>

theorem approval_refused:
  assumes "held (srv_journal s) sg x args" "doubles (w_rt w) args" "fresh_ids w s"
    and "action_request (w_rt w) ''POST'' ''/approvals/'' ''reject'' c (app_id x) body"
  shows "\<exists>s1. reply w (dispatch (w_rt w) cfg) c s 200 (rejected_json (app_id x)) s1 \<and>
    (\<forall>c2 t. tool_request (w_rt w) c2 t sg \<longrightarrow> call_ok t (org_id_of c2) sg \<longrightarrow>
       tool_requires_approval cfg (tc_tool t) \<longrightarrow> \<not> cfg_auto_approve cfg \<longrightarrow>
       (\<exists>a s2. reply w (dispatch (w_rt w) cfg) c2 s1 202 (pending_json a) s2 \<and> a \<noteq> app_id x))"
proof -
  from reject_reply [OF assms(4,1,2)] obtain s1 where
    s1: "reply w (dispatch (w_rt w) cfg) c s 200 (rejected_json (app_id x)) s1" "journal_ok (srv_journal s1)"
      "live_row (srv_journal s1) sg = None" "fresh_ids w s1"
      "map app_id (approvals (srv_journal s1)) = map app_id (approvals (srv_journal s))"
    using fresh_ids_kept [OF assms(3)] by blast
  have old: "app_id x \<in> app_id ` set (approvals (srv_journal s1))"
    using arg_cong [OF s1(5), of set] heldD(2) [OF assms(1)] by simp
  have "\<exists>a s2. reply w (dispatch (w_rt w) cfg) c2 s1 202 (pending_json a) s2 \<and> a \<noteq> app_id x"
    if t: "tool_request (w_rt w) c2 t sg" "call_ok t (org_id_of c2) sg" "tool_requires_approval cfg (tc_tool t)"
      "\<not> cfg_auto_approve cfg" for c2 t
  proof -
    have "\<exists>st v s2. reply w (dispatch (w_rt w) cfg) c2 s1 st v s2 \<and>
      (st = 202 \<and> v = pending_json (w_uuid w (srv_uuids s1)))"
      using t(1)
    proof (rule dispatch_tool_call)
      fix c1 s2 assume "later s1 s2" and i: "srv_uuids s2 = srv_uuids s1"
      then have j: "srv_journal s2 = srv_journal s1" "fresh_ids w s2"
        using fresh_later [OF s1(4)] by (auto simp: later_def)
      from decide_hold [OF _ j(2) t(2) _ t(3,4), of c1, unfolded j(1) i, OF s1(2,3)]
      show "\<exists>st v s'. reply w (decide_call cfg t (org_id_of c2) sg) c1 s2 st v s' \<and>
          (st = 202 \<and> v = pending_json (w_uuid w (srv_uuids s1)))"
        unfolding Let_def by blast
    qed
    moreover have "w_uuid w (srv_uuids s1) \<noteq> app_id x" using s1(4) old unfolding fresh_ids_def by auto
    ultimately show ?thesis by blast
  qed
  with s1(1) show ?thesis by blast
qed

theorem approval_refused_witness:
  "\<exists>s1 a s2. reply sample_world (dispatch sample_runtime sample_config) (sample_decision ''reject'') held_server 200
       (rejected_json (lit ''id-0'')) s1 \<and>
     reply sample_world (dispatch sample_runtime sample_config) sample_guarded s1 202 (pending_json a) s2 \<and> a \<noteq> lit ''id-0''"
proof -
  have "action_request sample_runtime ''POST'' ''/approvals/'' ''reject'' (sample_decision ''reject'') (lit ''id-0'') []"
    "tool_requires_approval sample_config (tc_tool drop_call)" "\<not> cfg_auto_approve sample_config"
    by code_simp+
  moreover have a: "doubles sample_runtime (tc_args drop_call)" by code_simp
  moreover have "fresh_ids sample_world held_server" by (rule fresh_sample) code_simp
  ultimately show ?thesis
    using approval_refused [of held_server "signature_of drop_call" held_approval "tc_args drop_call" sample_world
        "sample_decision ''reject''" "[]" sample_config] held_sample a drop_request drop_call_ok
    unfolding held_id sample_world_runtime by metis
qed

end
