(* ===== verification/Framing.thy ===== *)
theory Framing
  imports Samples
begin

text \<open>
  The framing of request bodies: what the handler reads of a body that is sent in chunks, and
  that a connection that stays open continues exactly after the first body that it carried.
\<close>

section \<open>A body sent in chunks\<close>

text \<open>
  A chunk is the text of its size line, with any extensions, and its data. The last chunk has
  size zero and is followed by trailer fields and an empty line.
\<close>

definition is_line :: "bytes \<Rightarrow> bool" where
  "is_line l \<longleftrightarrow> 10 \<notin> set l \<and> length l < MAX_CHUNK_LINE_BYTES"

definition chunk_size :: "bytes \<Rightarrow> int option" where
  "chunk_size l = int_ascii 16 (takeWhile (\<lambda>b. b \<noteq> 59) (l @ [10]))"

definition chunk_ok :: "bytes \<times> bytes \<Rightarrow> bool" where
  "chunk_ok k \<longleftrightarrow> snd k \<noteq> [] \<and> is_line (fst k) \<and> chunk_size (fst k) = Some (int (length (snd k)))"

definition chunks_ok :: "(bytes \<times> bytes) list \<Rightarrow> bytes \<Rightarrow> bytes list \<Rightarrow> bool" where
  "chunks_ok ks l ts \<longleftrightarrow> list_all chunk_ok ks \<and> is_line l \<and> chunk_size l = Some 0 \<and>
     list_all (\<lambda>t. is_line t \<and> t \<noteq> [] \<and> t \<noteq> [13]) ts"

definition encode_chunks :: "(bytes \<times> bytes) list \<Rightarrow> bytes \<Rightarrow> bytes list \<Rightarrow> bytes" where
  "encode_chunks ks l ts =
     concat (map (\<lambda>(l, d). l @ 10 # d @ [13, 10]) ks) @ l @ 10 # concat (map (\<lambda>t. t @ [10]) ts) @ [13, 10]"

text \<open>The data that is kept: once the ceiling is passed nothing more is.\<close>

fun kept :: "int \<Rightarrow> bool \<Rightarrow> (bytes \<times> bytes) list \<Rightarrow> bytes" where
  "kept tot overflow [] = []"
| "kept tot overflow ((l, d) # ks) =
     (if overflow \<or> tot + int (length d) > int MAX_BODY_BYTES then kept tot True ks
      else d @ kept (tot + int (length d)) overflow ks)"

lemma readline_line:
  assumes "is_line l"
  shows "stream_readline MAX_CHUNK_LINE_BYTES (l @ 10 # r) = (l @ [10], r)"
proof -
  have "takeWhile (\<lambda>b. b \<noteq> 10) (l @ 10 # r) = l" using assms by (auto simp: is_line_def takeWhile_append)
  moreover have "min MAX_CHUNK_LINE_BYTES (Suc (length l)) = Suc (length l)" using assms by (simp add: is_line_def)
  ultimately show ?thesis by (simp add: stream_readline_def Let_def)
qed

lemma skip_trailers_lines:
  "list_all (\<lambda>t. is_line t \<and> t \<noteq> [] \<and> t \<noteq> [13]) ts \<Longrightarrow>
     skip_trailers (concat (map (\<lambda>t. t @ [10]) ts) @ 13 # 10 # rest) = rest"
proof (induction ts)
  case Nil
  have "is_line [13]" by (simp add: is_line_def MAX_CHUNK_LINE_BYTES_def)
  from readline_line [OF this, of rest] show ?case by (subst skip_trailers.simps) simp
next
  case (Cons t ts)
  then have t: "is_line t" "t \<noteq> []" "t \<noteq> [13]" by simp_all
  note readline_line [OF t(1), of "concat (map (\<lambda>t. t @ [10]) ts) @ 13 # 10 # rest"]
  with Cons t(2,3) show ?case by (subst skip_trailers.simps) (auto simp: append_eq_Cons_conv)
qed

lemma read_chunks_encoded:
  assumes "chunks_ok ks l ts"
  shows "read_chunks parts tot overflow (encode_chunks ks l ts @ rest) =
    (rest, Inr (parts @ kept tot overflow ks, overflow \<or> tot + int (length (concat (map snd ks))) > int MAX_BODY_BYTES \<and> ks \<noteq> []))"
  using assms
proof (induction ks arbitrary: parts tot overflow)
  case Nil
  then have l: "is_line l" "chunk_size l = Some 0" and ts: "list_all (\<lambda>t. is_line t \<and> t \<noteq> [] \<and> t \<noteq> [13]) ts"
    by (simp_all add: chunks_ok_def)
  show ?case
    using readline_line [OF l(1)] skip_trailers_lines [OF ts] l(2)
    by (subst read_chunks.simps) (simp add: encode_chunks_def chunk_size_def)
next
  case (Cons k ks)
  obtain kl d where k: "k = (kl, d)" by force
  then have d: "d \<noteq> []" "is_line kl" "chunk_size kl = Some (int (length d))" and ks: "chunks_ok ks l ts"
    using Cons.prems by (simp_all add: chunks_ok_def chunk_ok_def)
  let ?r = "encode_chunks ks l ts @ rest"
  have e: "encode_chunks (k # ks) l ts @ rest = kl @ 10 # d @ 13 # 10 # ?r"
    by (simp add: encode_chunks_def k)
  have s: "stream_readline MAX_CHUNK_LINE_BYTES (kl @ 10 # d @ 13 # 10 # ?r) = (kl @ [10], d @ 13 # 10 # ?r)"
    by (rule readline_line [OF d(2)])
  show ?case
    unfolding e
    by (subst read_chunks.simps)
      (use d s Cons.IH [OF ks] in \<open>auto simp: k chunk_size_def [symmetric] consume_eq stream_read_def nat_add_distrib\<close>)
qed

lemma kept_all:
  "tot + int (length (concat (map snd ks))) \<le> int MAX_BODY_BYTES \<Longrightarrow> kept tot False ks = concat (map snd ks)"
  by (induction ks arbitrary: tot) (auto simp: algebra_simps)

lemma kept_bound: "tot \<le> int MAX_BODY_BYTES \<Longrightarrow> int (length (kept tot overflow ks)) \<le> int MAX_BODY_BYTES - tot"
proof (induction tot overflow ks rule: kept.induct)
  case (2 tot overflow l d ks)
  then show ?case by (cases "overflow \<or> tot + int (length d) > int MAX_BODY_BYTES") (auto simp: algebra_simps)
qed simp

text \<open>
  C29. A body sent in chunks is read whole: with any chunk sizes, extensions and trailer fields the
  handler consumes exactly the bytes of the encoding. The data it returns is the concatenated
  chunks if they fit under the ceiling; past it the request is marked as too large, and what is
  kept never exceeds the ceiling.
\<close>

theorem chunked_body_read:
  assumes "chunked c" "chunks_ok ks l ts" "c_rfile c = encode_chunks ks l ts @ rest"
  shows "\<exists>raw. read_raw c = (c\<lparr>c_rfile := rest, c_body_read := True\<rparr>,
      Inr (raw, MAX_BODY_BYTES < length (concat (map snd ks)))) \<and> length raw \<le> MAX_BODY_BYTES \<and>
    (length (concat (map snd ks)) \<le> MAX_BODY_BYTES \<longrightarrow> raw = concat (map snd ks))"
proof -
  let ?raw = "kept 0 False ks"
  have "read_raw c = (c\<lparr>c_rfile := rest, c_body_read := True\<rparr>, Inr (?raw, MAX_BODY_BYTES < length (concat (map snd ks))))"
    using read_chunks_encoded [OF assms(2), of "[]" 0 False rest] assms(1,3) by (auto simp: read_raw_def)
  moreover have "length ?raw \<le> MAX_BODY_BYTES" using kept_bound [of 0 False ks] by simp
  moreover have "length (concat (map snd ks)) \<le> MAX_BODY_BYTES \<longrightarrow> ?raw = concat (map snd ks)"
    using kept_all [of 0 ks] by simp
  ultimately show ?thesis by blast
qed

definition sample_chunks :: "(bytes \<times> bytes) list" where
  "sample_chunks = [(lit ''4;ext=1'' @ [13], [123, 32, 32, 32]), (lit ''01'', [125])]"

definition sample_chunked :: conn where
  "sample_chunked = (sample_request ''POST'' ''/mcp/tool_call'' [])
     \<lparr>c_headers := [(lit ''Transfer-Encoding'', lit ''chunked'')],
      c_rfile := encode_chunks sample_chunks (lit ''0'' @ [13]) [lit ''X-T: 1'' @ [13]] @ lit ''GET /health''\<rparr>"

theorem chunked_body_read_witness:
  "\<exists>raw. read_raw sample_chunked = (sample_chunked\<lparr>c_rfile := lit ''GET /health'', c_body_read := True\<rparr>, Inr (raw, False)) \<and>
     raw = [123, 32, 32, 32, 125]"
proof -
  have "chunked sample_chunked" "chunks_ok sample_chunks (lit ''0'' @ [13]) [lit ''X-T: 1'' @ [13]]" by code_simp+
  moreover have "c_rfile sample_chunked = encode_chunks sample_chunks (lit ''0'' @ [13]) [lit ''X-T: 1'' @ [13]] @ lit ''GET /health''"
    by (simp add: sample_chunked_def)
  moreover have "concat (map snd sample_chunks) = [123, 32, 32, 32, 125]" by (simp add: sample_chunks_def)
  ultimately show ?thesis
    using chunked_body_read [of sample_chunked sample_chunks "lit ''0'' @ [13]" "[lit ''X-T: 1'' @ [13]]" "lit ''GET /health''"]
    by (auto simp: MAX_BODY_BYTES_def)
qed

text \<open>A length of minus one passes the ceiling and reads to the end of the stream.\<close>

lemma negative_length_unbounded:
  "\<not> chunked c \<Longrightarrow> content_length c = Some (- 1) \<Longrightarrow>
     read_raw c = (c\<lparr>c_rfile := [], c_body_read := True\<rparr>, Inr (c_rfile c, False))"
  by (simp add: read_raw_def stream_read_def)

section \<open>The connection after an answer\<close>

text \<open>What follows the body of the request on the connection.\<close>

definition body_of :: "conn \<Rightarrow> bytes \<Rightarrow> bool" where
  "body_of c rest \<longleftrightarrow>
     (if chunked c then \<exists>ks l ts. chunks_ok ks l ts \<and> c_rfile c = encode_chunks ks l ts @ rest
      else \<exists>body. content_length c = Some (int (length body)) \<and> c_rfile c = body @ rest)"

definition at_body :: "bytes \<Rightarrow> conn \<Rightarrow> bool" where
  "at_body rest c \<longleftrightarrow> (if c_body_read c then c_rfile c = rest else body_of c rest)"

definition past_body :: "bytes \<Rightarrow> conn \<Rightarrow> bool" where
  "past_body rest c \<longleftrightarrow> c_close c \<or> c_rfile c = rest"

text \<open>
  \<open>framed u m\<close>: from a connection that stands before or after the body, and before it where
  \<open>u\<close>, \<open>m\<close> raises there or answers and is past the body.
\<close>

definition framed :: "bool \<Rightarrow> 'a handler \<Rightarrow> bool" where
  "framed u m \<longleftrightarrow> (\<forall>rest c c' r. at_body rest c \<longrightarrow> (u \<longrightarrow> \<not> c_body_read c) \<longrightarrow> (c', r) \<in> set_prog (m c) \<longrightarrow>
     (case r of Inl _ \<Rightarrow> at_body rest c' | Inr _ \<Rightarrow> past_body rest c'))"

lemma framedD:
  "framed u m \<Longrightarrow> at_body rest c \<Longrightarrow> (u \<Longrightarrow> \<not> c_body_read c) \<Longrightarrow> (c', r) \<in> set_prog (m c) \<Longrightarrow>
     (case r of Inl _ \<Rightarrow> at_body rest c' | Inr _ \<Rightarrow> past_body rest c')"
  unfolding framed_def by blast

definition same_stream :: "conn \<Rightarrow> conn \<Rightarrow> bool" where
  "same_stream c c' \<longleftrightarrow> c_rfile c' = c_rfile c \<and> c_body_read c' = c_body_read c \<and> c_headers c' = c_headers c"

interpretation still: conn_frame same_stream
  by unfold_locales (auto simp: same_stream_def)

lemma same_stream_body:
  assumes "same_stream c c'"
  shows "at_body rest c' = at_body rest c" "c_body_read c' = c_body_read c"
proof -
  have "c_headers c' = c_headers c" "c_rfile c' = c_rfile c" and b: "c_body_read c' = c_body_read c"
    using assms by (simp_all add: same_stream_def)
  then show "at_body rest c' = at_body rest c" "c_body_read c' = c_body_read c"
    by (simp_all add: at_body_def body_of_def chunked_def content_length_def)
qed

lemma framed_hbind:
  assumes "still.keeps m" "\<And>x. framed u (f x)"
  shows "framed u (hbind m f)"
  unfolding framed_def
proof (intro allI impI)
  fix rest c c' r
  assume c: "at_body rest c" "u \<longrightarrow> \<not> c_body_read c" and "(c', r) \<in> set_prog (hbind m f c)"
  from this(3) show "case r of Inl _ \<Rightarrow> at_body rest c' | Inr _ \<Rightarrow> past_body rest c'"
  proof (rule set_hbindE)
    fix c1 e assume "(c', r) = (c1, Inl e)" "(c1, Inl e) \<in> set_prog (m c)"
    then show ?thesis using same_stream_body [OF still.keepsD [OF assms(1)]] c by auto
  next
    fix c1 x assume m: "(c1, Inr x) \<in> set_prog (m c)" "(c', r) \<in> set_prog (f x c1)"
    note same_stream_body [OF still.keepsD [OF assms(1) m(1)]]
    then show ?thesis using framedD [OF assms(2) _ _ m(2)] c by simp
  qed
qed

lemma framed_hseq: "still.keeps m \<Longrightarrow> framed u n \<Longrightarrow> framed u (hseq m n)"
  unfolding hseq_def by (rule framed_hbind)

lemma read_raw_at_body:
  assumes "body_of c rest" "\<not> c_body_read c"
  shows "at_body rest (fst (read_raw c))"
proof (cases "chunked c")
  case True
  with assms obtain ks l ts where "chunks_ok ks l ts" "c_rfile c = encode_chunks ks l ts @ rest" by (auto simp: body_of_def)
  from read_chunks_encoded [OF this(1), of "[]" 0 False rest] this(2) True show ?thesis
    by (simp add: read_raw_def at_body_def)
next
  case False
  with assms obtain body where "content_length c = Some (int (length body))" "c_rfile c = body @ rest" by (auto simp: body_of_def)
  with False assms show ?thesis by (auto simp: read_raw_def at_body_def stream_read_def)
qed

lemma framed_read:
  assumes "\<And>b. framed False (f b)"
  shows "framed True (hbind (read_body rt) f)"
  unfolding framed_def
proof (intro allI impI)
  fix rest c c' r
  assume c: "at_body rest c" "True \<longrightarrow> \<not> c_body_read c" and r: "(c', r) \<in> set_prog (hbind (read_body rt) f c)"
  have "at_body rest (fst (parse_body rt c))"
    using read_raw_at_body [of c rest] c by (auto simp: at_body_def parse_body_def split: prod.splits sum.splits)
  moreover obtain c1 p where p: "parse_body rt c = (c1, p)" by force
  ultimately have "at_body rest c1" by simp
  from r show "case r of Inl _ \<Rightarrow> at_body rest c' | Inr _ \<Rightarrow> past_body rest c'"
    by (rule set_hbindE) (use \<open>at_body rest c1\<close> p framedD [OF assms] in \<open>auto simp: read_body_def\<close>)
qed

lemma framed_raise: "framed u (hraise e)"
  by (simp add: framed_def)

lemma framed_if: "framed u m \<Longrightarrow> framed u n \<Longrightarrow> framed u (if b then m else n)"
  by simp

lemma framed_option: "framed u m \<Longrightarrow> (\<And>x. framed u (f x)) \<Longrightarrow> framed u (case z of None \<Rightarrow> m | Some x \<Rightarrow> f x)"
  by (simp split: option.split)

lemma framed_pair: "(\<And>x y. framed u (f x y)) \<Longrightarrow> framed u (case z of (x, y) \<Rightarrow> f x y)"
  by (simp split: prod.split)

lemma framed_sum: "(\<And>x. framed u (f x)) \<Longrightarrow> (\<And>y. framed u (g y)) \<Longrightarrow> framed u (case z of Inl x \<Rightarrow> f x | Inr y \<Rightarrow> g y)"
  by (simp split: sum.split)

lemma framed_dict: "(\<And>d. framed u (f d)) \<Longrightarrow> framed u m \<Longrightarrow> framed u (case v of JDict d \<Rightarrow> f d | _ \<Rightarrow> m)"
  by (cases v) simp_all

lemma framed_str: "(\<And>d. framed u (f d)) \<Longrightarrow> framed u m \<Longrightarrow> framed u (case v of JStr d \<Rightarrow> f d | _ \<Rightarrow> m)"
  by (cases v) simp_all

lemma framed_done:
  assumes "framed u m"
  shows "framed u (hbind m (\<lambda>x. hret (f x)))"
  unfolding framed_def using framedD [OF assms] by (fastforce elim!: set_hbindE)

section \<open>Answers\<close>

lemma discard_at_body:
  assumes "at_body rest c"
  shows "at_body rest (discard_unread_body c)" "body_is_unread (discard_unread_body c) \<or> c_rfile (discard_unread_body c) = rest"
proof -
  let ?c = "discard_unread_body c"
  have "if c_body_read c \<or> chunked c then ?c = c
    else (\<exists>body. content_length c = Some (int (length body)) \<and> c_rfile c = body @ rest) \<and> c_body_read ?c \<and> c_rfile ?c = rest"
    using assms by (auto simp: at_body_def body_of_def discard_unread_body_def consume_loop_eq)
  with assms show "at_body rest ?c" "body_is_unread ?c \<or> c_rfile ?c = rest"
    by (auto simp: at_body_def body_is_unread_def split: if_splits)
qed

lemma request_id_still: "still.keeps request_id"
  unfolding request_id_def
  by (intro still.keeps_rules still.keeps_hmodify simple_calls) (simp add: same_stream_def)

lemma send_json_framed: "framed u (send_json status payload)"
  unfolding framed_def
proof (intro allI impI)
  fix rest c c' r
  assume b: "at_body rest c" and r: "(c', r) \<in> set_prog (send_json status payload c)"
  let ?d = "discard_unread_body c"
  from r obtain c1 rid where c1: "(c1, Inr rid) \<in> set_prog (request_id ?d)" and
    c': "c' = c1\<lparr>c_close := c_close c1 \<or> body_is_unread c1,
      c_sent := c_sent c1 @ [json_response status payload rid (body_is_unread c1)]\<rparr>" "\<exists>x. r = Inr x"
    by (auto simp: send_json_def hseq_def Let_def elim!: set_hbindE dest: request_id_set)
  have s: "same_stream ?d c1" by (rule still.keepsD [OF request_id_still c1])
  then have "body_is_unread c1 = body_is_unread ?d"
    by (simp add: same_stream_def body_is_unread_def chunked_def content_length_def)
  with discard_at_body(2) [OF b] s c' show "case r of Inl _ \<Rightarrow> at_body rest c' | Inr _ \<Rightarrow> past_body rest c'"
    by (auto simp: past_body_def same_stream_def)
qed

lemma send_error_framed: "framed u (send_error status code msg)"
  unfolding send_error_def
  by (intro framed_hbind request_id_still still.keeps_ask simple_calls send_json_framed)

section \<open>The handlers\<close>

lemmas still_rules = still.keeps_rules still.keeps_emit simple_calls request_id_still

lemma handler_parts_still:
  "still.keeps (approval_payload i)" "still.keeps (tool_call_signature rt t)" "still.keeps (auto_approve cfg t org sg)"
  "still.keeps (require_method m)"
  unfolding approval_payload_def tool_call_signature_def auto_approve_def require_method_def
  by (intro still_rules)+

lemma claim_signature_still: "still.keeps (claim_signature cfg t org sg)"
  unfolding claim_signature_def by (intro still_rules handler_parts_still)

lemmas framed_cases = framed_raise framed_if framed_option framed_pair framed_sum framed_dict framed_str
  send_json_framed send_error_framed

lemmas framed_rules = framed_hbind framed_hseq framed_cases still_rules handler_parts_still

lemma respond_for_live_effect_framed: "framed u (respond_for_live_effect cfg e org)"
  unfolding respond_for_live_effect_def Let_def by (intro framed_rules)

lemma handle_tool_call_framed: "framed True (handle_tool_call rt cfg)"
  unfolding handle_tool_call_def decide_call_def
  by (rule framed_read) (intro framed_rules claim_signature_still respond_for_live_effect_framed)

lemma handle_effect_action_framed: "framed True (handle_effect_action rt i action)"
  unfolding handle_effect_action_def Let_def
  by (intro framed_hbind [OF still.keeps_basic(3)] framed_read) (intro framed_rules)

lemma held_framed: "framed u (reject_held i org a)" "framed u (approve_held i org a)" "framed u already_resolved"
  unfolding reject_held_def approve_held_def already_resolved_def Let_def by (intro framed_rules)+

lemma handle_approval_decision_framed: "framed True (handle_approval_decision rt i action)"
  unfolding handle_approval_decision_def
  by (intro framed_hbind [OF still.keeps_basic(3)] framed_hbind [OF still.keeps_call] simple_calls framed_option framed_if
      framed_read send_error_framed held_framed)

lemma handle_list_approvals_framed: "framed u (handle_list_approvals query)"
  unfolding handle_list_approvals_def Let_def by (intro framed_rules)

lemma framed_closes: "framed u (hseq (hmodify (\<lambda>c. c\<lparr>c_close := True, c_sent := g c\<rparr>)) (hret x))"
  by (auto simp: framed_def hseq_def past_body_def elim!: set_hbindE)

lemma handle_events_framed: "framed u (handle_events query)"
  unfolding handle_events_def by (intro framed_hbind still_rules framed_closes)

lemma framed_answer: "framed u m \<Longrightarrow> framed u (hseq m (hret x))"
  unfolding hseq_def by (rule framed_done)

lemma route_framed: "framed True (route rt cfg path query)"
  unfolding route_def Let_def handle_health_def
  by (intro framed_if framed_option framed_pair framed_answer framed_done framed_hseq [OF handler_parts_still(4)]
    send_json_framed send_error_framed handle_tool_call_framed handle_effect_action_framed
    handle_approval_decision_framed handle_list_approvals_framed handle_events_framed)



end
