(* ===== verification/DevServer.thy ===== *)
theory DevServer
  imports Framing
begin

text \<open>
  The server around its handlers (\<^verbatim>\<open>DevServer\<close> and \<^verbatim>\<open>main\<close> of \<^verbatim>\<open>dev.py\<close>):
  the loop that writes the event stream, the connection that is kept for the next request, the
  life of the server from binding to shutdown, and the command line.
\<close>

section \<open>The event stream\<close>

text \<open>
  One open \<^verbatim>\<open>GET /events\<close>: its subscription, whether events are renamed, the bytes written, and
  whether the loop still runs.
\<close>

record stream =
  sm_queue :: nat
  sm_aliases :: bool
  sm_out :: bytes
  sm_open :: bool

definition PING :: bytes where
  "PING = lit '': ping'' @ [10, 10]"

definition stream_end :: "stream \<Rightarrow> broadcaster \<Rightarrow> stream \<times> broadcaster" where
  "stream_end sm b = (sm\<lparr>sm_open := False\<rparr>, unsubscribe (sm_queue sm) b)"

definition stream_write :: "bool \<Rightarrow> bytes \<Rightarrow> stream \<Rightarrow> broadcaster \<Rightarrow> stream \<times> broadcaster" where
  "stream_write ok bs sm b = (if ok then (sm\<lparr>sm_out := sm_out sm @ bs\<rparr>, b) else stream_end sm b)"

text \<open>
  One turn of the loop at time \<open>time_ns\<close>; \<open>ok\<close> says whether the socket takes the bytes. An
  empty queue stands for the heartbeat that ran out. Every way out of the loop, also by an
  exception, unsubscribes.
\<close>

definition stream_turn :: "nat \<Rightarrow> bool \<Rightarrow> stream \<Rightarrow> broadcaster \<Rightarrow> stream \<times> broadcaster" where
  "stream_turn time_ns ok sm b =
     (case get_event (sm_queue sm) b of
        None \<Rightarrow> stream_write ok PING sm b
      | Some (None, b') \<Rightarrow> stream_end sm b'
      | Some (Some e, b') \<Rightarrow>
          (case utf8_encode (format_sse_frame time_ns e (sm_aliases sm)) of
             Inl _ \<Rightarrow> stream_end sm b'
           | Inr frame \<Rightarrow> stream_write ok frame sm b'))"

fun stream_turns :: "nat list \<Rightarrow> stream \<Rightarrow> broadcaster \<Rightarrow> stream \<times> broadcaster" where
  "stream_turns [] sm b = (sm, b)"
| "stream_turns (t # ts) sm b =
     (if sm_open sm then (let (sm', b') = stream_turn t True sm b in stream_turns ts sm' b') else (sm, b))"

text \<open>All streams of the server and the threads that publish and close, one atomic step at a time.\<close>

record hub =
  hub_events :: broadcaster
  hub_streams :: "stream list"

inductive hub_step :: "hub \<Rightarrow> hub \<Rightarrow> bool" where
  hub_open: "subscribe b = (q, b') \<Longrightarrow>
    hub_step \<lparr>hub_events = b, hub_streams = ss\<rparr>
      \<lparr>hub_events = b', hub_streams = ss @ [\<lparr>sm_queue = q, sm_aliases = a, sm_out = [], sm_open = True\<rparr>]\<rparr>"
| hub_turn: "i < length ss \<Longrightarrow> sm_open (ss ! i) \<Longrightarrow> stream_turn t ok (ss ! i) b = (sm, b') \<Longrightarrow>
    hub_step \<lparr>hub_events = b, hub_streams = ss\<rparr> \<lparr>hub_events = b', hub_streams = ss[i := sm]\<rparr>"
| hub_offer: "hub_step \<lparr>hub_events = b, hub_streams = ss\<rparr> \<lparr>hub_events = offer q e b, hub_streams = ss\<rparr>"
| hub_close: "close_begin b = (qs, b') \<Longrightarrow>
    hub_step \<lparr>hub_events = b, hub_streams = ss\<rparr> \<lparr>hub_events = b', hub_streams = ss\<rparr>"
| hub_put_end: "put_end q b = Some b' \<Longrightarrow>
    hub_step \<lparr>hub_events = b, hub_streams = ss\<rparr> \<lparr>hub_events = b', hub_streams = ss\<rparr>"

definition hub_init :: hub where
  "hub_init = \<lparr>hub_events = broadcaster_init, hub_streams = []\<rparr>"

section \<open>The next request of a connection\<close>

text \<open>
  The base class sets the request line and the headers for each request. The handler's own
  attributes \<^verbatim>\<open>_body_read\<close> and \<^verbatim>\<open>_undolog_request_id\<close> keep what the request before left in them.
\<close>

definition next_request :: "pystr \<Rightarrow> pystr \<Rightarrow> (pystr \<times> pystr) list \<Rightarrow> bytes \<Rightarrow> conn \<Rightarrow> conn" where
  "next_request command path headers rest c =
     c\<lparr>c_command := command, c_path := path, c_headers := headers, c_rfile := rest\<rparr>"

section \<open>The life of the server\<close>

text \<open>
  What the operating system decides: whether the journal opens, and what address the socket is
  bound to. \<^verbatim>\<open>sqlite3.Error\<close> and \<^verbatim>\<open>OSError\<close> are caught by \<^verbatim>\<open>main\<close>, other exceptions are not.
\<close>

datatype start_error = SqliteError | OsError | OtherError py_exc

record host_env =
  env_sqlite :: "pystr \<Rightarrow> start_error option"
  env_bind :: "pystr \<Rightarrow> int \<Rightarrow> start_error + pystr \<times> int"
  env_hex :: pystr

record dev_server =
  ds_auto_approve :: bool
  ds_journal :: dev_journal
  ds_events :: broadcaster
  ds_config :: config
  ds_listening :: bool
  ds_url :: pystr
  ds_thread :: bool
  ds_serving :: bool

definition dev_server_init ::
  "host_env \<Rightarrow> pystr \<Rightarrow> int \<Rightarrow> pystr \<Rightarrow> pystr list \<Rightarrow> bool \<Rightarrow> start_error + dev_server" where
  "dev_server_init env host port db_path patterns auto =
     (let j = dev_journal_init db_path (env_hex env) in
      case env_sqlite env (dj_dsn j) of
        Some e \<Rightarrow> Inl e
      | None \<Rightarrow>
          (case env_bind env host port of
             Inl e \<Rightarrow> Inl e
           | Inr (bound_host, bound_port) \<Rightarrow>
               Inr \<lparr>ds_auto_approve = auto, ds_journal = j, ds_events = broadcaster_init,
                 ds_config = \<lparr>cfg_patterns = patterns, cfg_auto_approve = auto\<rparr>, ds_listening = True,
                 ds_url = lit ''http://'' @ bound_host @ lit '':'' @ show_int bound_port,
                 ds_thread = False, ds_serving = False\<rparr>))"

definition start :: "dev_server \<Rightarrow> dev_server" where
  "start s = s\<lparr>ds_serving := True, ds_thread := True\<rparr>"

text \<open>
  \<^verbatim>\<open>serve_forever\<close> and \<^verbatim>\<open>_serve\<close>: \<open>loop\<close> is what happens to the events while the socket is
  served and how serving ends; the flag is cleared on every way out.
\<close>

datatype serve_end = Returned | KeyboardInterrupt | Raised py_exc

definition serve_forever :: "(broadcaster \<Rightarrow> serve_end \<times> broadcaster) \<Rightarrow> dev_server \<Rightarrow> serve_end \<times> dev_server" where
  "serve_forever loop s =
     (let (r, b) = loop (ds_events s) in (r, s\<lparr>ds_serving := False, ds_events := b\<rparr>))"

text \<open>\<open>None\<close>: the call blocks in \<^verbatim>\<open>_broadcaster.close()\<close>.\<close>

definition stop :: "dev_server \<Rightarrow> dev_server option" where
  "stop s =
     (case close (ds_events s) of
        None \<Rightarrow> None
      | Some b \<Rightarrow>
          let s1 = s\<lparr>ds_events := b\<rparr>;
              s2 = (if ds_serving s1 then s1\<lparr>ds_serving := False\<rparr> else s1);
              s3 = s2\<lparr>ds_listening := False, ds_journal := dev_journal_close (ds_journal s2)\<rparr>
          in Some (if ds_thread s3 then s3\<lparr>ds_thread := False\<rparr> else s3))"

definition stopped :: "dev_server \<Rightarrow> bool" where
  "stopped s \<longleftrightarrow> \<not> ds_listening s \<and> \<not> ds_serving s \<and> \<not> ds_thread s \<and> \<not> dj_anchor (ds_journal s) \<and>
     bc_closed (ds_events s) \<and> subscribers (ds_events s) = []"

section \<open>The command line\<close>

definition DEFAULT_HOST :: pystr where
  "DEFAULT_HOST = lit ''127.0.0.1''"

definition DEFAULT_PORT :: int where
  "DEFAULT_PORT = 8080"

definition DEFAULT_DB_PATH :: pystr where
  "DEFAULT_DB_PATH = lit ''./.undolog.db''"

record dev_args =
  arg_host :: pystr
  arg_port :: int
  arg_db :: pystr
  arg_irreversible :: "pystr list"
  arg_auto_approve :: bool

definition parser_defaults :: dev_args where
  "parser_defaults = \<lparr>arg_host = DEFAULT_HOST, arg_port = DEFAULT_PORT, arg_db = DEFAULT_DB_PATH,
     arg_irreversible = [], arg_auto_approve = False\<rparr>"

definition with_command :: "pystr list \<Rightarrow> pystr list" where
  "with_command argv =
     (if argv = [] \<or> hd argv \<notin> {lit ''dev'', lit ''-h'', lit ''--help''} then lit ''dev'' # argv else argv)"

datatype main_end = Exit int | SystemExit int | Raises start_error | Hangs

text \<open>
  \<open>parse\<close> stands for \<^verbatim>\<open>argparse\<close> on the parser of \<^verbatim>\<open>build_parser\<close>: the exit status of a usage
  error or of the help, or the arguments. The server is returned as \<^verbatim>\<open>main\<close> leaves it.
\<close>

definition main ::
  "host_env \<Rightarrow> (pystr list \<Rightarrow> int + dev_args) \<Rightarrow> (broadcaster \<Rightarrow> serve_end \<times> broadcaster) \<Rightarrow>
     pystr list \<Rightarrow> main_end \<times> dev_server option" where
  "main env parse loop argv =
     (case parse (with_command argv) of
        Inl status \<Rightarrow> (SystemExit status, None)
      | Inr a \<Rightarrow>
          (case dev_server_init env (arg_host a) (arg_port a) (arg_db a) (arg_irreversible a) (arg_auto_approve a) of
             Inl SqliteError \<Rightarrow> (Exit 1, None)
           | Inl OsError \<Rightarrow> (Exit 1, None)
           | Inl (OtherError e) \<Rightarrow> (Raises (OtherError e), None)
           | Inr s \<Rightarrow>
               (let (r, s1) = serve_forever loop s in
                case stop s1 of
                  None \<Rightarrow> (Hangs, Some s1)
                | Some s2 \<Rightarrow> ((case r of Raised e \<Rightarrow> Raises (OtherError e) | _ \<Rightarrow> Exit 0), Some s2))))"

section \<open>Streams are released\<close>

definition hub_ok :: "hub \<Rightarrow> bool" where
  "hub_ok h \<longleftrightarrow> distinct (map sm_queue (hub_streams h)) \<and>
     list_all (\<lambda>sm. sm_queue sm < length (queues (hub_events h))) (hub_streams h) \<and>
     (\<forall>q \<in> set (subscribers (hub_events h)). \<exists>sm \<in> set (hub_streams h). sm_queue sm = q \<and> sm_open sm)"

lemma stream_turn_result:
  assumes "stream_turn t ok sm b = (sm', b')"
  shows "sm_queue sm' = sm_queue sm" "length (queues b') = length (queues b)"
    "if sm_open sm' then subscribers b' = subscribers b else sm_open sm \<longrightarrow> subscribers b' = removeAll (sm_queue sm) (subscribers b)"
  using assms
  by (auto simp: stream_turn_def stream_write_def stream_end_def unsubscribe_def get_event_def
      split: option.splits if_splits sum.splits list.splits)

lemma hub_step_ok: "hub_step h h' \<Longrightarrow> hub_ok h \<Longrightarrow> hub_ok h'"
proof (induction rule: hub_step.induct)
  case (hub_open b q b' ss a)
  then show ?case
    by (cases "bc_closed b") (auto simp: subscribe_def Let_def hub_ok_def list_all_iff intro: less_SucI)
next
  case (hub_turn i ss t ok b sm b')
  note r = stream_turn_result [OF hub_turn(3)]
  have ids: "map sm_queue (ss[i := sm]) = map sm_queue ss"
    using r(1) hub_turn(1) by (simp add: map_update list_update_same_conv)
  have d: "distinct (map sm_queue ss)" using hub_turn.prems by (simp add: hub_ok_def)
  have "\<exists>x \<in> set (ss[i := sm]). sm_queue x = q \<and> sm_open x" if q: "q \<in> set (subscribers b')" for q
  proof -
    have "q \<in> set (subscribers b)" "\<not> sm_open sm \<longrightarrow> q \<noteq> sm_queue (ss ! i)"
      using q r(3) hub_turn(2) by (auto split: if_splits)
    then obtain j where j: "j < length ss" "sm_queue (ss ! j) = q" "sm_open (ss ! j)"
      using hub_turn.prems unfolding hub_ok_def by (simp, metis in_set_conv_nth)
    show ?thesis
    proof (cases "j = i")
      case True
      then have "sm_open sm" using j \<open>\<not> sm_open sm \<longrightarrow> q \<noteq> sm_queue (ss ! i)\<close> by auto
      with True j r(1) hub_turn(1) show ?thesis by (intro bexI [of _ sm]) (auto simp: set_update_memI)
    next
      case False
      with j have "ss ! j \<in> set (ss[i := sm])" by (metis length_list_update nth_list_update_neq nth_mem)
      with j show ?thesis by blast
    qed
  qed
  moreover have "list_all (\<lambda>x. sm_queue x < length (queues b')) (ss[i := sm])"
    using hub_turn.prems hub_turn(1) r(1,2) by (auto simp: hub_ok_def list_all_length nth_list_update)
  ultimately show ?case using ids d by (simp add: hub_ok_def)
qed (auto simp: hub_ok_def offer_def close_begin_def put_end_def split: if_splits)

text \<open>
  C30. No subscription leaks: whatever streams are opened, however their clients disconnect and
  the threads interleave, every registered subscription belongs to a stream that is still
  open, and no two streams share a queue.
\<close>

theorem subscriptions_released:
  assumes "hub_step\<^sup>*\<^sup>* hub_init h"
  shows "set (subscribers (hub_events h)) \<subseteq> sm_queue ` {sm \<in> set (hub_streams h). sm_open sm} \<and>
    distinct (map sm_queue (hub_streams h))"
proof -
  have "hub_ok hub_init" by (simp add: hub_ok_def hub_init_def broadcaster_init_def)
  with assms have "hub_ok h" by (induction rule: rtranclp_induct) (auto intro: hub_step_ok)
  then show ?thesis by (fastforce simp: hub_ok_def)
qed

theorem subscriptions_released_witness:
  "\<exists>h. hub_step\<^sup>*\<^sup>* hub_init h \<and> length (hub_streams h) = 1 \<and> subscribers (hub_events h) = [0] \<and>
     set (subscribers (hub_events h)) \<subseteq> sm_queue ` {sm \<in> set (hub_streams h). sm_open sm}"
proof -
  let ?h = "\<lparr>hub_events = snd (subscribe broadcaster_init),
    hub_streams = [] @ [\<lparr>sm_queue = 0, sm_aliases = False, sm_out = [], sm_open = True\<rparr>]\<rparr>"
  have "subscribe broadcaster_init = (0, snd (subscribe broadcaster_init))"
    by (simp add: subscribe_def broadcaster_init_def Let_def)
  then have "hub_step\<^sup>*\<^sup>* hub_init ?h" unfolding hub_init_def by (intro r_into_rtranclp hub_open)
  moreover have "subscribers (hub_events ?h) = [0]" by (simp add: subscribe_def broadcaster_init_def Let_def)
  ultimately show ?thesis using subscriptions_released [of ?h] by (intro exI [of _ ?h]) simp
qed

section \<open>Streams end\<close>

definition plain_event :: "envelope \<Rightarrow> bool" where
  "plain_event e \<longleftrightarrow> list_all (\<lambda>c. c < 128) (env_type e) \<and> wf_json (JDict (envelope_dict (aliased True e))) \<and>
     wf_json (JDict (envelope_dict e))"

lemma frame_encodes: "plain_event e \<Longrightarrow> utf8_encode (format_sse_frame t e a) = Inr (format_sse_frame t e a)"
proof (rule utf8_encode_ascii, rule ballI)
  fix c assume e: "plain_event e" and "c \<in> set (format_sse_frame t e a)"
  then consider "c \<in> set (env_type (aliased a e))" | "c \<in> set (show_nat t)"
    | "c \<in> set (json_dumps (JDict (envelope_dict (aliased a e))))" | "c \<in> set (lit ''event: id: data: '')" | "c = 10"
    by (auto simp: format_sse_frame_def Let_def lit_def)
  then show "c < 128"
  proof cases
    case 1
    then show ?thesis using e
      by (auto simp: plain_event_def aliased_def list_all_iff STANDARD_EVENT_ALIASES_def lit_def split: if_splits)
  next
    case 3
    have "wf_json (JDict (envelope_dict (aliased a e)))"
      using e by (cases a) (auto simp: plain_event_def aliased_def split: option.split)
    then show ?thesis using 3 dumps_ascii by blast
  qed (auto simp: lit_def dest: show_nat_digits)
qed

lemma stream_turns_end:
  assumes "sm_open sm" "sm_queue sm < length (queues b)" "queues b ! sm_queue sm = map Some es @ None # rest"
    and "list_all plain_event es" "length es < length ts"
  shows "\<exists>b'. stream_turns ts sm b = (sm\<lparr>sm_open := False, sm_out := sm_out sm @
      concat (map2 (\<lambda>t e. format_sse_frame t e (sm_aliases sm)) ts es)\<rparr>, b') \<and> sm_queue sm \<notin> set (subscribers b')"
  using assms
proof (induction es arbitrary: sm b ts)
  case Nil
  then obtain t ts' where ts: "ts = t # ts'" by (cases ts) auto
  let ?b = "unsubscribe (sm_queue sm) (b\<lparr>queues := (queues b)[sm_queue sm := rest]\<rparr>)"
  have "stream_turn t True sm b = (sm\<lparr>sm_open := False\<rparr>, ?b)"
    using Nil by (simp add: stream_turn_def get_event_def stream_end_def)
  moreover have "stream_turns ts' (sm\<lparr>sm_open := False\<rparr>) ?b = (sm\<lparr>sm_open := False\<rparr>, ?b)" by (cases ts') simp_all
  ultimately show ?case using Nil(1) ts by (simp add: unsubscribe_def)
next
  case (Cons e es)
  then obtain t ts' where ts: "ts = t # ts'" by (cases ts) auto
  let ?f = "format_sse_frame t e (sm_aliases sm)"
  let ?sm = "sm\<lparr>sm_out := sm_out sm @ ?f\<rparr>" and ?b = "b\<lparr>queues := (queues b)[sm_queue sm := map Some es @ None # rest]\<rparr>"
  have "stream_turn t True sm b = (?sm, ?b)"
    using Cons.prems frame_encodes [of e t "sm_aliases sm"]
    by (simp add: stream_turn_def get_event_def stream_write_def)
  moreover have "\<exists>b'. stream_turns ts' ?sm ?b = (?sm\<lparr>sm_open := False, sm_out := sm_out ?sm @
      concat (map2 (\<lambda>t e. format_sse_frame t e (sm_aliases ?sm)) ts' es)\<rparr>, b') \<and> sm_queue ?sm \<notin> set (subscribers b')"
    using Cons.prems ts by (intro Cons.IH) simp_all
  ultimately show ?case using Cons.prems(1) ts by auto
qed

text \<open>
  C31. Shutting down ends every event stream: once the broadcaster is closed, a subscriber that had
  events waiting writes the frames of all of them, in order, and then its loop ends and
  its subscription is gone.
\<close>

theorem close_ends_streams:
  assumes "bounded b" "close b = Some b1" "sm_open sm" "sm_queue sm \<in> set (subscribers b)"
    and "queues b ! sm_queue sm = map Some es" "list_all plain_event es" "length es < length ts"
  shows "\<exists>b2. stream_turns ts sm b1 = (sm\<lparr>sm_open := False, sm_out := sm_out sm @
      concat (map2 (\<lambda>t e. format_sse_frame t e (sm_aliases sm)) ts es)\<rparr>, b2) \<and> sm_queue sm \<notin> set (subscribers b2)"
proof -
  have q: "sm_queue sm < length (queues b)" using assms(1,4) by (auto simp: bounded_def list_all_iff)
  have n: "length (queues b1) = length (queues b)"
    using assms(1,2) put_ends_result [of "subscribers b" "b\<lparr>bc_closed := True, subscribers := []\<rparr>"]
    by (auto simp: close_def close_begin_def bounded_def split: if_splits)
  have "queues b1 ! sm_queue sm = map Some es @ None # []"
    using close_result [OF assms(1)] assms(2,4,5) q by simp
  from stream_turns_end [OF assms(3) _ this assms(6,7)] q n show ?thesis by simp
qed

theorem close_ends_streams_witness:
  "\<exists>sm b2. stream_turns [1, 2] \<lparr>sm_queue = 0, sm_aliases = False, sm_out = [], sm_open = True\<rparr>
       (the (close (offer 0 \<lparr>env_type = lit ''e'', env_rest = []\<rparr> (snd (subscribe broadcaster_init))))) = (sm, b2) \<and>
     \<not> sm_open sm \<and> 0 \<notin> set (subscribers b2) \<and>
     sm_out sm = format_sse_frame 1 \<lparr>env_type = lit ''e'', env_rest = []\<rparr> False"
proof -
  let ?e = "\<lparr>env_type = lit ''e'', env_rest = []\<rparr>" and ?sm = "\<lparr>sm_queue = 0, sm_aliases = False, sm_out = [], sm_open = True\<rparr>"
  let ?b = "offer 0 ?e (snd (subscribe broadcaster_init))"
  have b: "bounded ?b" "subscribers ?b = [0]" "queues ?b = [[Some ?e]]"
    by (simp_all add: offer_def subscribe_def broadcaster_init_def Let_def bounded_def SSE_QUEUE_SIZE_def)
  then have "close ?b = Some (the (close ?b))"
    by (simp add: close_def close_begin_def put_end_def SSE_QUEUE_SIZE_def)
  moreover have "plain_event ?e" by code_simp
  ultimately show ?thesis
    using close_ends_streams [of ?b "the (close ?b)" ?sm "[?e]" "[1, 2]"] b by auto
qed

section \<open>Stopping\<close>

lemma close_closed: "bc_closed b \<Longrightarrow> subscribers b = [] \<Longrightarrow> close b = Some b"
  by (simp add: close_def close_begin_def)

lemma stop_stopped:
  assumes "bounded (ds_events s)"
  shows "(case stop s of
      None \<Rightarrow> \<exists>q \<in> set (subscribers (ds_events s)). length (queues (ds_events s) ! q) = 128
    | Some s' \<Rightarrow> stopped s' \<and> stop s' = Some s' \<and>
        \<not> (\<exists>q \<in> set (subscribers (ds_events s)). length (queues (ds_events s) ! q) = 128))"
proof (cases "close (ds_events s)")
  case None
  then show ?thesis using close_result [OF assms] by (simp add: stop_def)
next
  case (Some b)
  with close_result [OF assms] have b: "bc_closed b" "subscribers b = []"
      "\<forall>q \<in> set (subscribers (ds_events s)). length (queues (ds_events s) ! q) < 128" by simp_all
  obtain s' where s': "stop s = Some s'" "stopped s'" "ds_events s' = b"
    using Some b by (simp add: stop_def stopped_def dev_journal_close_def Let_def)
  have "stop s' = Some s'"
    using s'(2,3) close_closed [OF b(1,2)] by (auto simp: stop_def stopped_def dev_journal_close_def Let_def)
  with s' b(3) show ?thesis by fastforce
qed

text \<open>
  C32. \<^verbatim>\<open>stop\<close> releases everything the server holds, and stopping it again changes nothing. It
  returns unless a subscriber has left 128 events unread, and then it blocks.
\<close>

theorem stop_releases:
  assumes "bounded (ds_events s)"
  shows "(case stop s of
      None \<Rightarrow> \<exists>q \<in> set (subscribers (ds_events s)). length (queues (ds_events s) ! q) = 128
    | Some s' \<Rightarrow> stopped s' \<and> stop s' = Some s' \<and>
        \<not> (\<exists>q \<in> set (subscribers (ds_events s)). length (queues (ds_events s) ! q) = 128))"
  by (rule stop_stopped [OF assms])

definition sample_server :: dev_server where
  "sample_server = \<lparr>ds_auto_approve = False, ds_journal = dev_journal_init (lit '':memory:'') (lit ''ab''),
     ds_events = snd (subscribe broadcaster_init), ds_config = sample_config, ds_listening = True,
     ds_url = lit ''http://127.0.0.1:8080'', ds_thread = True, ds_serving = True\<rparr>"

theorem stop_releases_witness: "\<exists>s. stop sample_server = Some s \<and> stopped s \<and> stop s = Some s"
proof -
  have b: "bounded (ds_events sample_server)" "subscribers (ds_events sample_server) = [0]" "queues (ds_events sample_server) = [[]]"
    by (simp_all add: sample_server_def subscribe_def broadcaster_init_def Let_def bounded_def)
  then show ?thesis using stop_releases [OF b(1)] by (auto split: option.splits)
qed

section \<open>The command line\<close>

lemma main_exits_stopped:
  assumes "main env parse loop argv = (Exit 0, so)" "\<And>b. bounded b \<Longrightarrow> bounded (snd (loop b))"
  shows "\<exists>s. so = Some s \<and> stopped s"
proof -
  obtain a s where a: "parse (with_command argv) = Inr a"
    "dev_server_init env (arg_host a) (arg_port a) (arg_db a) (arg_irreversible a) (arg_auto_approve a) = Inr s"
    using assms(1) by (auto simp: main_def split: sum.splits start_error.splits)
  have "ds_events s = broadcaster_init"
    using a(2) by (auto simp: dev_server_init_def Let_def split: option.splits sum.splits)
  then have "bounded (snd (loop (ds_events s)))" by (intro assms(2)) (simp add: bounded_def broadcaster_init_def)
  then have b: "bounded (ds_events (snd (serve_forever loop s)))" by (simp add: serve_forever_def split_def Let_def)
  from assms(1) a obtain s2 where "stop (snd (serve_forever loop s)) = Some s2" "so = Some s2"
    by (auto simp: main_def split: option.splits prod.splits)
  with stop_stopped [OF b] show ?thesis by auto
qed

text \<open>A port that is no port is refused by the socket with \<^verbatim>\<open>OverflowError\<close>, which is not caught.\<close>

lemma main_bad_port:
  assumes "parse (with_command argv) = Inr a" "env_sqlite env (dj_dsn (dev_journal_init (arg_db a) (env_hex env))) = None"
    and "env_bind env (arg_host a) (arg_port a) = Inl (OtherError OverflowError)"
  shows "main env parse loop argv = (Raises (OtherError OverflowError), None)"
  using assms by (simp add: main_def dev_server_init_def Let_def)

section \<open>Attributes that outlive a request\<close>

text \<open>
  A second request on a kept connection, for a path that does not exist and with a body: the flag
  of the first request says that its body was read. The answer leaves the connection
  open before the unread body, and carries the identifier of the first request.
\<close>

definition first_answer :: conn where
  "first_answer = fst (fst (hrun sample_world (dispatch sample_runtime sample_config) sample_call empty_server))"

definition second_answer :: conn where
  "second_answer = fst (fst (hrun sample_world (dispatch sample_runtime sample_config)
     (next_request (lit ''POST'') (lit ''/nowhere'') [(lit ''Content-Length'', lit ''2'')] (lit ''{}GET /health'') first_answer)
     empty_server))"

lemma stale_body_flag:
  "c_rfile second_answer = lit ''{}GET /health'' \<and> \<not> c_close second_answer \<and> length (c_sent second_answer) = 2 \<and>
   c_request_id second_answer = c_request_id first_answer"
  by code_simp

end
