(* ===== verification/Errors.thy ===== *)
theory Errors
  imports Json
begin

text \<open>
  The model of \<^verbatim>\<open>errors.py\<close>: one definition per exception class, building the exception
  object from the arguments of its constructor. \<open>err_attrs\<close> holds the attributes a class sets
  besides those of \<^verbatim>\<open>UndoLogError\<close>. An argument that defaults to \<^verbatim>\<open>None\<close> is an option.
\<close>

section \<open>Runbook links\<close>

definition ERROR_DOCS_BASE_URL :: pystr where
  "ERROR_DOCS_BASE_URL = lit ''https://undolog.dev/docs/troubleshooting/errors''"

text \<open>\<^verbatim>\<open>re.sub(r"[_\s]+", "-", s)\<close>; the flag tells whether the last character was replaced.\<close>

fun dash_runs :: "bool \<Rightarrow> pystr \<Rightarrow> pystr" where
  "dash_runs inside [] = []"
| "dash_runs inside (c # cs) =
     (if c = 95 \<or> py_isspace c then (if inside then [] else [45]) @ dash_runs True cs
      else c # dash_runs False cs)"

definition is_slug_char :: "nat \<Rightarrow> bool" where
  "is_slug_char c \<longleftrightarrow> 97 \<le> c \<and> c \<le> 122 \<or> 48 \<le> c \<and> c \<le> 57 \<or> c = 45"

definition format_runbook_url :: "pystr \<Rightarrow> pystr" where
  "format_runbook_url code =
     (if code = [] then ERROR_DOCS_BASE_URL
      else let slug = py_lower (strip_where py_isspace code);
               slug = dash_runs False slug;
               clean_slug = filter is_slug_char slug
           in if clean_slug \<noteq> [] then ERROR_DOCS_BASE_URL @ lit ''#'' @ clean_slug
              else ERROR_DOCS_BASE_URL)"

section \<open>The base class\<close>

record undolog_error =
  err_class :: pystr
  err_message :: pystr
  err_code :: pystr
  err_details :: "json dict"
  err_runbook_url :: pystr
  err_attrs :: "json dict"

text \<open>\<^verbatim>\<open>a or b\<close> on strings, and \<^verbatim>\<open>x or default\<close> on an optional argument.\<close>

definition or_str :: "pystr \<Rightarrow> pystr \<Rightarrow> pystr" where
  "or_str a b = (if a \<noteq> [] then a else b)"

definition or_else :: "pystr option \<Rightarrow> pystr \<Rightarrow> pystr" where
  "or_else x d = (case x of None \<Rightarrow> d | Some s \<Rightarrow> or_str s d)"

definition or_empty :: "json dict option \<Rightarrow> json dict" where
  "or_empty details = (case details of None \<Rightarrow> [] | Some d \<Rightarrow> d)"

definition UndoLogError ::
  "pystr \<Rightarrow> json dict \<Rightarrow> pystr \<Rightarrow> pystr \<Rightarrow> json dict option \<Rightarrow> pystr option \<Rightarrow> undolog_error" where
  "UndoLogError cls attrs message code details runbook_url =
     \<lparr>err_class = cls, err_message = message, err_code = code, err_details = or_empty details,
      err_runbook_url = or_else runbook_url (format_runbook_url code), err_attrs = attrs\<rparr>"

text \<open>
  \<open>merged\<close> is the block every subclass starts with: a copy of the caller's details, and for
  each named argument that is truthy a \<^verbatim>\<open>setdefault\<close>.
\<close>

definition merged :: "json dict option \<Rightarrow> (string \<times> json) list \<Rightarrow> json dict" where
  "merged details extra =
     foldl (\<lambda>d (k, v). if truthy v then dict_setdefault (lit k) v d else d) (or_empty details) extra"

definition attributes :: "(string \<times> json) list \<Rightarrow> json dict" where
  "attributes as = foldl (\<lambda>d (k, v). AList.update (lit k) v d) [] as"

definition format_for_log :: "runtime \<Rightarrow> undolog_error \<Rightarrow> pystr" where
  "format_for_log rt e =
     py_join (lit '' '')
       ([lit ''['' @ err_code e @ lit ''] '' @ err_message e,
         lit ''(Runbook: '' @ err_runbook_url e @ lit '')''] @
        (if err_details e \<noteq> [] then [lit ''(Details: '' @ py_repr rt (JDict (err_details e)) @ lit '')'']
         else []))"

definition error_to_dict :: "undolog_error \<Rightarrow> json dict" where
  "error_to_dict e =
     [(lit ''name'', JStr (err_class e)), (lit ''code'', JStr (err_code e)),
      (lit ''error'', JStr (err_code e)), (lit ''message'', JStr (err_message e)),
      (lit ''details'', JDict (err_details e)), (lit ''runbook_url'', JStr (err_runbook_url e))]"

section \<open>The exception classes\<close>

definition ErrorCodes :: "pystr list" where
  "ErrorCodes = map lit
     [''AUTHENTICATION_FAILED'', ''AWAITING_APPROVAL'', ''COMPENSATION_FAILED'',
      ''CONFIGURATION_INVALID'', ''CONNECTION_FAILED'', ''EFFECT_LOG_CONCURRENCY'',
      ''EFFECT_LOG_FAILED'', ''MISSING_SESSION'', ''NOT_FOUND'', ''PERMISSION_DENIED'',
      ''RATE_LIMITED'', ''SERIALIZATION_FAILED'', ''SERVER_ERROR'', ''TIMEOUT'',
      ''TOOL_NOT_REGISTERED'', ''TOOL_REGISTRATION_FAILED'', ''INVALID_STATE_TRANSITION'',
      ''APPROVAL_NOT_FOUND'', ''VALIDATION_FAILED'']"

definition AuthenticationError ::
  "pystr \<Rightarrow> int \<Rightarrow> pystr \<Rightarrow> json dict option \<Rightarrow> pystr option \<Rightarrow> undolog_error" where
  "AuthenticationError message status_code reason details runbook_url =
     (let own = [(''status_code'', JInt status_code), (''reason'', JStr reason)]
      in UndoLogError (lit ''AuthenticationError'') (attributes own) message
           (lit ''AUTHENTICATION_FAILED'') (Some (merged details own)) runbook_url)"

definition AwaitingApprovalError ::
  "pystr \<Rightarrow> pystr \<Rightarrow> int \<Rightarrow> pystr option \<Rightarrow> pystr \<Rightarrow> pystr \<Rightarrow> json dict option \<Rightarrow> pystr option \<Rightarrow>
   undolog_error" where
  "AwaitingApprovalError message_or_approval_id tool_name step_index message approval_id call_id
     details runbook_url =
     (let (resolved_approval_id, resolved_message) =
            (if approval_id \<noteq> [] then (approval_id, or_else message message_or_approval_id)
             else if message \<noteq> None \<or> tool_name \<noteq> [] \<or> step_index \<noteq> 0
               then (message_or_approval_id, or_else message [])
             else ([], message_or_approval_id));
          msg = or_str resolved_message
            (lit [CHR ''T'', CHR ''o'', CHR ''o'', CHR ''l'', CHR '' '', CHR 0x27] @ tool_name @
             lit [CHR 0x27] @ lit '' (step '' @ show_int step_index @ lit '') requires approval. '' @
             lit ''approval_id='' @ resolved_approval_id);
          own = [(''approval_id'', JStr resolved_approval_id), (''tool_name'', JStr tool_name),
                 (''step_index'', JInt step_index), (''call_id'', JStr call_id)]
      in UndoLogError (lit ''AwaitingApprovalError'') (attributes own) msg
           (lit ''AWAITING_APPROVAL'') (Some (merged details own)) runbook_url)"

definition CompensationError ::
  "pystr \<Rightarrow> pystr \<Rightarrow> int \<Rightarrow> pystr \<Rightarrow> int \<Rightarrow> json dict option \<Rightarrow> pystr option \<Rightarrow> undolog_error" where
  "CompensationError message effect_id step_index fn_name retries details runbook_url =
     (let own = [(''effect_id'', JStr effect_id), (''step_index'', JInt step_index),
                 (''fn_name'', JStr fn_name), (''retries'', JInt retries)]
      in UndoLogError (lit ''CompensationError'') (attributes own) message
           (lit ''COMPENSATION_FAILED'') (Some (merged details own)) runbook_url)"

definition ConfigurationError ::
  "pystr \<Rightarrow> pystr \<Rightarrow> pystr \<Rightarrow> json dict option \<Rightarrow> pystr option \<Rightarrow> undolog_error" where
  "ConfigurationError message key setting details runbook_url =
     (let own = [(''key'', JStr (or_str key setting)), (''setting'', JStr (or_str setting key))]
      in UndoLogError (lit ''ConfigurationError'') (attributes own) message
           (lit ''CONFIGURATION_INVALID'') (Some (merged details own)) runbook_url)"

definition ConnectionError ::
  "pystr \<Rightarrow> pystr \<Rightarrow> json dict option \<Rightarrow> pystr option \<Rightarrow> undolog_error" where
  "ConnectionError message url details runbook_url =
     (let own = [(''url'', JStr url)]
      in UndoLogError (lit ''ConnectionError'') (attributes own) message
           (lit ''CONNECTION_FAILED'') (Some (merged details own)) runbook_url)"

text \<open>
  \<open>EffectLogError\<close> has a subclass, so its constructor takes the class and the attributes the
  subclass has set already.
\<close>

definition EffectLogError_init ::
  "pystr \<Rightarrow> (string \<times> json) list \<Rightarrow> pystr \<Rightarrow> pystr \<Rightarrow> pystr \<Rightarrow> pystr \<Rightarrow> pystr \<Rightarrow> json dict option \<Rightarrow>
   pystr option \<Rightarrow> undolog_error" where
  "EffectLogError_init cls attrs message effect_id session_id operation code details runbook_url =
     (let own = [(''effect_id'', JStr effect_id), (''session_id'', JStr session_id),
                 (''operation'', JStr operation)]
      in UndoLogError cls (attributes (attrs @ own)) message code (Some (merged details own)) runbook_url)"

definition EffectLogError ::
  "pystr \<Rightarrow> pystr \<Rightarrow> pystr \<Rightarrow> pystr \<Rightarrow> pystr \<Rightarrow> json dict option \<Rightarrow> pystr option \<Rightarrow> undolog_error" where
  "EffectLogError = EffectLogError_init (lit ''EffectLogError'') []"

definition EffectLogConcurrencyError ::
  "pystr \<Rightarrow> pystr \<Rightarrow> int \<Rightarrow> pystr \<Rightarrow> int \<Rightarrow> int \<Rightarrow> json dict option \<Rightarrow> pystr option \<Rightarrow> undolog_error" where
  "EffectLogConcurrencyError message session_id step_index operation expected_version actual_version
     details runbook_url =
     (let own = [(''session_id'', JStr session_id), (''step_index'', JInt step_index),
                 (''expected_version'', JInt expected_version),
                 (''actual_version'', JInt actual_version)]
      in EffectLogError_init (lit ''EffectLogConcurrencyError'') own message [] session_id operation
           (lit ''EFFECT_LOG_CONCURRENCY'') (Some (merged details own)) runbook_url)"

definition MissingSessionError ::
  "pystr \<Rightarrow> pystr \<Rightarrow> json dict option \<Rightarrow> pystr option \<Rightarrow> undolog_error" where
  "MissingSessionError message tool_name details runbook_url =
     (let own = [(''tool_name'', JStr tool_name)]
      in UndoLogError (lit ''MissingSessionError'') (attributes own) message
           (lit ''MISSING_SESSION'') (Some (merged details own)) runbook_url)"

definition NotFoundError ::
  "pystr \<Rightarrow> pystr \<Rightarrow> pystr \<Rightarrow> json dict option \<Rightarrow> pystr option \<Rightarrow> undolog_error" where
  "NotFoundError message resource_type resource_id details runbook_url =
     (let own = [(''resource_type'', JStr resource_type), (''resource_id'', JStr resource_id)]
      in UndoLogError (lit ''NotFoundError'') (attributes own) message
           (lit ''NOT_FOUND'') (Some (merged details own)) runbook_url)"

definition PermissionError ::
  "pystr \<Rightarrow> pystr \<Rightarrow> pystr \<Rightarrow> json dict option \<Rightarrow> pystr option \<Rightarrow> undolog_error" where
  "PermissionError message permission required_scope details runbook_url =
     (let own = [(''permission'', JStr (or_str permission required_scope)),
                 (''required_scope'', JStr (or_str required_scope permission))]
      in UndoLogError (lit ''PermissionError'') (attributes own) message
           (lit ''PERMISSION_DENIED'') (Some (merged details own)) runbook_url)"

text \<open>
  \<open>RateLimitError\<close> derives the seconds from the milliseconds or the milliseconds from the
  seconds. The float operations may raise: an infinity has no integer value.
\<close>

definition RateLimitError ::
  "runtime \<Rightarrow> pystr \<Rightarrow> pyfloat \<Rightarrow> pyfloat \<Rightarrow> int \<Rightarrow> int option \<Rightarrow> int option \<Rightarrow> json dict option \<Rightarrow>
   pystr option \<Rightarrow> py_exc + undolog_error" where
  "RateLimitError rt message retry_after retry_after_seconds retry_after_ms limit remaining details
     runbook_url =
     (let secs0 = (if \<not> float_is_zero retry_after then retry_after else retry_after_seconds)
      in rbind
           (if retry_after_ms \<noteq> 0 \<and> float_is_zero secs0
              then rbind (div_1000 rt retry_after_ms) (\<lambda>secs. Inr (secs, retry_after_ms))
            else if \<not> float_is_zero secs0 \<and> retry_after_ms = 1000 \<and>
                    (\<not> float_is_zero retry_after \<or> \<not> float_is_zero retry_after_seconds)
              then rbind (times_1000 rt secs0) (\<lambda>ms. Inr (secs0, ms))
            else Inr (secs0, retry_after_ms))
           (\<lambda>(secs, ms).
             let d = merged details [(''retry_after'', JFloat secs), (''retry_after_seconds'', JFloat secs),
                       (''retry_after_ms'', JInt ms)];
                 d = (case limit of None \<Rightarrow> d | Some n \<Rightarrow> dict_setdefault (lit ''limit'') (JInt n) d);
                 d = (case remaining of None \<Rightarrow> d
                      | Some n \<Rightarrow> dict_setdefault (lit ''remaining'') (JInt n) d);
                 own = [(''retry_after'', JFloat secs), (''retry_after_seconds'', JFloat secs),
                        (''retry_after_ms'', JInt ms),
                        (''limit'', JInt (case limit of None \<Rightarrow> 0 | Some n \<Rightarrow> n)),
                        (''remaining'', JInt (case remaining of None \<Rightarrow> 0 | Some n \<Rightarrow> n))]
             in Inr (UndoLogError (lit ''RateLimitError'') (attributes own) message
                  (lit ''RATE_LIMITED'') (Some d) runbook_url)))"

definition SerializationError ::
  "pystr \<Rightarrow> pystr \<Rightarrow> json dict option \<Rightarrow> pystr option \<Rightarrow> undolog_error" where
  "SerializationError message fmt details runbook_url =
     (let own = [(''format'', JStr fmt)]
      in UndoLogError (lit ''SerializationError'') (attributes own) message
           (lit ''SERIALIZATION_FAILED'') (Some (merged details own)) runbook_url)"

definition ServerError ::
  "pystr \<Rightarrow> int \<Rightarrow> pystr \<Rightarrow> json dict option \<Rightarrow> pystr option \<Rightarrow> undolog_error" where
  "ServerError message status_code url details runbook_url =
     (let own = [(''status_code'', JInt status_code), (''url'', JStr url)]
      in UndoLogError (lit ''ServerError'') (attributes own) message
           (lit ''SERVER_ERROR'') (Some (merged details own)) runbook_url)"

definition TimeoutError ::
  "pystr \<Rightarrow> pystr \<Rightarrow> pyfloat \<Rightarrow> pystr \<Rightarrow> json dict option \<Rightarrow> pystr option \<Rightarrow> undolog_error" where
  "TimeoutError message url timeout operation details runbook_url =
     (let own = [(''url'', JStr url), (''timeout'', JFloat timeout), (''operation'', JStr operation)]
      in UndoLogError (lit ''TimeoutError'') (attributes own) message
           (lit ''TIMEOUT'') (Some (merged details own)) runbook_url)"

definition ToolNotRegisteredError ::
  "pystr \<Rightarrow> pystr \<Rightarrow> json dict option \<Rightarrow> pystr option \<Rightarrow> undolog_error" where
  "ToolNotRegisteredError message tool_name details runbook_url =
     (let own = [(''tool_name'', JStr tool_name)]
      in UndoLogError (lit ''ToolNotRegisteredError'') (attributes own) message
           (lit ''TOOL_NOT_REGISTERED'') (Some (merged details own)) runbook_url)"

definition ToolRegistrationError ::
  "pystr \<Rightarrow> pystr \<Rightarrow> pystr \<Rightarrow> json dict option \<Rightarrow> pystr option \<Rightarrow> undolog_error" where
  "ToolRegistrationError message tool_name reason details runbook_url =
     (let own = [(''tool_name'', JStr tool_name), (''reason'', JStr reason)]
      in UndoLogError (lit ''ToolRegistrationError'') (attributes own) message
           (lit ''TOOL_REGISTRATION_FAILED'') (Some (merged details own)) runbook_url)"

definition InvalidStateTransitionError ::
  "pystr \<Rightarrow> pystr \<Rightarrow> pystr \<Rightarrow> json dict option \<Rightarrow> pystr option \<Rightarrow> undolog_error" where
  "InvalidStateTransitionError message current_state target_state details runbook_url =
     (let own = [(''current_state'', JStr current_state), (''target_state'', JStr target_state)]
      in UndoLogError (lit ''InvalidStateTransitionError'') (attributes own) message
           (lit ''INVALID_STATE_TRANSITION'') (Some (merged details own)) runbook_url)"

definition ApprovalNotFoundError ::
  "pystr \<Rightarrow> pystr \<Rightarrow> json dict option \<Rightarrow> pystr option \<Rightarrow> undolog_error" where
  "ApprovalNotFoundError message approval_id details runbook_url =
     (let own = [(''approval_id'', JStr approval_id)]
      in UndoLogError (lit ''ApprovalNotFoundError'') (attributes own) message
           (lit ''APPROVAL_NOT_FOUND'') (Some (merged details own)) runbook_url)"

definition ValidationError ::
  "pystr \<Rightarrow> pystr \<Rightarrow> pystr \<Rightarrow> json dict option \<Rightarrow> pystr option \<Rightarrow> undolog_error" where
  "ValidationError message field constraint details runbook_url =
     (let own = [(''field'', JStr field), (''constraint'', JStr constraint)]
      in UndoLogError (lit ''ValidationError'') (attributes own) message
           (lit ''VALIDATION_FAILED'') (Some (merged details own)) runbook_url)"

definition ERROR_CLASSES :: "pystr list" where
  "ERROR_CLASSES = map lit
     [''AuthenticationError'', ''AwaitingApprovalError'', ''CompensationError'', ''ConfigurationError'',
      ''EffectLogConcurrencyError'', ''EffectLogError'', ''MissingSessionError'', ''NotFoundError'',
      ''PermissionError'', ''RateLimitError'', ''SerializationError'', ''ServerError'', ''TimeoutError'']"

section \<open>Every exception of the SDK\<close>

text \<open>An argument of a call, or the default of the parameter.\<close>

definition given_or :: "pystr option \<Rightarrow> pystr \<Rightarrow> pystr" where
  "given_or arg d = (case arg of None \<Rightarrow> d | Some s \<Rightarrow> s)"

text \<open>
  \<open>sdk_error rt details runbook_url code e\<close>: some class of the module, called with these details,
  this link and this code and with any other arguments, builds \<open>e\<close>. Only the base class and
  \<open>EffectLogError\<close> take a code, and each has a default for it.
\<close>

inductive sdk_error :: "runtime \<Rightarrow> json dict option \<Rightarrow> pystr option \<Rightarrow> pystr option \<Rightarrow> undolog_error \<Rightarrow> bool"
  for rt details runbook_url
where
  "sdk_error rt details runbook_url code (UndoLogError (lit ''UndoLogError'') [] m (given_or code (lit ''UNDOLOG_ERROR'')) details runbook_url)"
| "sdk_error rt details runbook_url None (AuthenticationError m sc r details runbook_url)"
| "sdk_error rt details runbook_url None (AwaitingApprovalError a t n m i c details runbook_url)"
| "sdk_error rt details runbook_url None (CompensationError m i n f r details runbook_url)"
| "sdk_error rt details runbook_url None (ConfigurationError m k s details runbook_url)"
| "sdk_error rt details runbook_url None (ConnectionError m u details runbook_url)"
| "sdk_error rt details runbook_url code (EffectLogError m i s oper (given_or code (lit ''EFFECT_LOG_FAILED'')) details runbook_url)"
| "sdk_error rt details runbook_url None (EffectLogConcurrencyError m s n oper ev av details runbook_url)"
| "sdk_error rt details runbook_url None (MissingSessionError m t details runbook_url)"
| "sdk_error rt details runbook_url None (NotFoundError m ty i details runbook_url)"
| "sdk_error rt details runbook_url None (PermissionError m p s details runbook_url)"
| "RateLimitError rt m ra rs ms l rem details runbook_url = Inr e \<Longrightarrow> sdk_error rt details runbook_url None e"
| "sdk_error rt details runbook_url None (SerializationError m f details runbook_url)"
| "sdk_error rt details runbook_url None (ServerError m sc u details runbook_url)"
| "sdk_error rt details runbook_url None (TimeoutError m u t oper details runbook_url)"
| "sdk_error rt details runbook_url None (ToolNotRegisteredError m t details runbook_url)"
| "sdk_error rt details runbook_url None (ToolRegistrationError m t r details runbook_url)"
| "sdk_error rt details runbook_url None (InvalidStateTransitionError m c t details runbook_url)"
| "sdk_error rt details runbook_url None (ApprovalNotFoundError m i details runbook_url)"
| "sdk_error rt details runbook_url None (ValidationError m f c details runbook_url)"

lemmas error_class_defs = AuthenticationError_def AwaitingApprovalError_def CompensationError_def
  ConfigurationError_def ConnectionError_def EffectLogError_def EffectLogError_init_def
  EffectLogConcurrencyError_def MissingSessionError_def NotFoundError_def PermissionError_def
  SerializationError_def ServerError_def TimeoutError_def ToolNotRegisteredError_def
  ToolRegistrationError_def InvalidStateTransitionError_def ApprovalNotFoundError_def
  ValidationError_def UndoLogError_def Let_def

lemma merged_keeps: "map_of (or_empty details) k = Some w \<Longrightarrow> map_of (merged details extra) k = Some w"
proof -
  have "map_of d k = Some w \<Longrightarrow>
      map_of (foldl (\<lambda>d (k, v). if truthy v then dict_setdefault (lit k) v d else d) d extra) k = Some w" for d
    by (induction extra arbitrary: d) (auto simp: setdefault_keeps)
  then show "map_of (or_empty details) k = Some w \<Longrightarrow> map_of (merged details extra) k = Some w"
    by (simp add: merged_def)
qed

lemma merged_keys_ok: "dict_keys_ok (or_empty details) \<Longrightarrow> dict_keys_ok (merged details extra)"
proof -
  have "dict_keys_ok d \<Longrightarrow>
      dict_keys_ok (foldl (\<lambda>d (k, v). if truthy v then dict_setdefault (lit k) v d else d) d extra)" for d
    by (induction extra arbitrary: d) (auto simp: setdefault_keys_ok)
  then show "dict_keys_ok (or_empty details) \<Longrightarrow> dict_keys_ok (merged details extra)"
    by (simp add: merged_def)
qed

lemma or_empty_Some [simp]: "or_empty (Some d) = d"
  by (simp add: or_empty_def)

text \<open>What each constructor makes of its details, link and code.\<close>

definition error_contract :: "json dict option \<Rightarrow> pystr option \<Rightarrow> pystr option \<Rightarrow> undolog_error \<Rightarrow> bool" where
  "error_contract details runbook_url code e \<longleftrightarrow>
     (\<forall>k w. map_of (or_empty details) k = Some w \<longrightarrow> map_of (err_details e) k = Some w) \<and>
     (dict_keys_ok (or_empty details) \<longrightarrow> dict_keys_ok (err_details e)) \<and>
     (case code of
        Some c \<Rightarrow> err_code e = c \<and> err_class e \<in> {lit ''UndoLogError'', lit ''EffectLogError''}
      | None \<Rightarrow> err_code e \<in> set ErrorCodes \<or> err_class e = lit ''UndoLogError'' \<and> err_code e = lit ''UNDOLOG_ERROR'') \<and>
     err_runbook_url e = or_else runbook_url (format_runbook_url (err_code e))"

lemma error_codes [simp]:
  "lit ''AUTHENTICATION_FAILED'' \<in> set ErrorCodes" "lit ''AWAITING_APPROVAL'' \<in> set ErrorCodes"
  "lit ''COMPENSATION_FAILED'' \<in> set ErrorCodes" "lit ''CONFIGURATION_INVALID'' \<in> set ErrorCodes"
  "lit ''CONNECTION_FAILED'' \<in> set ErrorCodes" "lit ''EFFECT_LOG_CONCURRENCY'' \<in> set ErrorCodes"
  "lit ''EFFECT_LOG_FAILED'' \<in> set ErrorCodes" "lit ''MISSING_SESSION'' \<in> set ErrorCodes"
  "lit ''NOT_FOUND'' \<in> set ErrorCodes" "lit ''PERMISSION_DENIED'' \<in> set ErrorCodes"
  "lit ''RATE_LIMITED'' \<in> set ErrorCodes" "lit ''SERIALIZATION_FAILED'' \<in> set ErrorCodes"
  "lit ''SERVER_ERROR'' \<in> set ErrorCodes" "lit ''TIMEOUT'' \<in> set ErrorCodes"
  "lit ''TOOL_NOT_REGISTERED'' \<in> set ErrorCodes" "lit ''TOOL_REGISTRATION_FAILED'' \<in> set ErrorCodes"
  "lit ''INVALID_STATE_TRANSITION'' \<in> set ErrorCodes" "lit ''APPROVAL_NOT_FOUND'' \<in> set ErrorCodes"
  "lit ''VALIDATION_FAILED'' \<in> set ErrorCodes"
  unfolding ErrorCodes_def set_map by (rule imageI, simp)+

lemma contractI:
  assumes "\<And>k w. map_of (or_empty details) k = Some w \<Longrightarrow> map_of d k = Some w"
    and "dict_keys_ok (or_empty details) \<Longrightarrow> dict_keys_ok d" "code \<in> set ErrorCodes"
  shows "error_contract details runbook_url None (UndoLogError cls attrs message code (Some d) runbook_url)"
  using assms by (simp add: error_contract_def UndoLogError_def)

lemma rate_limit_details:
  assumes "RateLimitError rt m ra rs ms l rem details runbook_url = Inr e"
  obtains secs ms' d attrs where
    "d = merged details [(''retry_after'', JFloat secs), (''retry_after_seconds'', JFloat secs), (''retry_after_ms'', JInt ms')]"
    "e = UndoLogError (lit ''RateLimitError'') attrs m (lit ''RATE_LIMITED'')
       (Some ((case rem of None \<Rightarrow> id | Some n \<Rightarrow> dict_setdefault (lit ''remaining'') (JInt n))
         ((case l of None \<Rightarrow> id | Some n \<Rightarrow> dict_setdefault (lit ''limit'') (JInt n)) d))) runbook_url"
  using assms unfolding RateLimitError_def Let_def rbind_eq_Inr_iff
  by (cases l; cases rem) (auto split: prod.splits)

lemma rate_limit_contract:
  assumes "RateLimitError rt m ra rs ms l rem details runbook_url = Inr e"
  shows "error_contract details runbook_url None e"
  using assms
  by (elim rate_limit_details, hypsubst) (rule contractI;
    auto simp: merged_keeps merged_keys_ok setdefault_keeps setdefault_keys_ok split: option.splits)

lemma sdk_error_contract:
  assumes "sdk_error rt details runbook_url code e"
  shows "error_contract details runbook_url code e"
  using assms
proof (cases rule: sdk_error.cases)
  case (12 m ra rs ms l rem)
  then show ?thesis using rate_limit_contract by blast
qed (simp_all add: error_class_defs error_contract_def merged_keeps merged_keys_ok split_beta given_or_def split: option.splits)

text \<open>
  C18. Whatever class of the SDK is raised and whatever its arguments, the details the caller
  passed survive unchanged in the exception, the details stay a dictionary, and the runbook link
  is the caller's or the one of the code. A code that the caller passes is kept, and only the
  base class and \<open>EffectLogError\<close> take one. Without it the code is one of the standard codes,
  except for the base class, whose default is a code of its own, \<open>UNDOLOG_ERROR\<close>.
\<close>

theorem error_details_kept:
  assumes "sdk_error rt details runbook_url code e"
  shows "(map_of (or_empty details) k = Some w \<longrightarrow> map_of (err_details e) k = Some w) \<and>
    (dict_keys_ok (or_empty details) \<longrightarrow> dict_keys_ok (err_details e)) \<and>
    (case code of
       Some c \<Rightarrow> err_code e = c \<and> err_class e \<in> {lit ''UndoLogError'', lit ''EffectLogError''}
     | None \<Rightarrow> err_code e \<in> set ErrorCodes \<or> err_class e = lit ''UndoLogError'' \<and> err_code e = lit ''UNDOLOG_ERROR'') \<and>
    err_runbook_url e = or_else runbook_url (format_runbook_url (err_code e))"
  using sdk_error_contract [OF assms] by (simp add: error_contract_def)

theorem error_details_kept_witness:
  "map_of (err_details (ConnectionError (lit ''m'') (lit ''http://b'') (Some [(lit ''url'', JStr (lit ''http://a''))]) None))
     (lit ''url'') = Some (JStr (lit ''http://a'')) \<and>
   err_code (ConnectionError (lit ''m'') (lit ''http://b'') (Some [(lit ''url'', JStr (lit ''http://a''))]) None) \<in> set ErrorCodes \<and>
   err_code (EffectLogError (lit ''m'') [] [] [] (lit ''MY_CODE'') None None) = lit ''MY_CODE''"
proof -
  let ?d = "Some [(lit ''url'', JStr (lit ''http://a''))]"
  let ?rt = "no_runtime"
  have "sdk_error ?rt ?d None None (ConnectionError (lit ''m'') (lit ''http://b'') ?d None)"
    by (rule sdk_error.intros)
  from error_details_kept [OF this, of "lit ''url''" "JStr (lit ''http://a'')"]
  have "map_of (err_details (ConnectionError (lit ''m'') (lit ''http://b'') ?d None)) (lit ''url'') = Some (JStr (lit ''http://a'')) \<and>
      err_code (ConnectionError (lit ''m'') (lit ''http://b'') ?d None) \<in> set ErrorCodes"
    by (auto simp: ConnectionError_def UndoLogError_def Let_def)
  moreover have "sdk_error ?rt None None (Some (lit ''MY_CODE''))
      (EffectLogError (lit ''m'') [] [] [] (given_or (Some (lit ''MY_CODE'')) (lit ''EFFECT_LOG_FAILED'')) None None)"
    by (rule sdk_error.intros)
  from error_details_kept [OF this] have "err_code (EffectLogError (lit ''m'') [] [] [] (lit ''MY_CODE'') None None) = lit ''MY_CODE''"
    by (simp add: given_or_def)
  ultimately show ?thesis by blast
qed

lemma runbook_slug:
  "\<exists>slug. list_all is_slug_char slug \<and>
     format_runbook_url code = ERROR_DOCS_BASE_URL @ (if slug = [] then [] else lit ''#'' @ slug)"
proof (cases "code = []")
  case True
  then show ?thesis by (intro exI [of _ "[]"]) (simp add: format_runbook_url_def)
next
  case False
  then show ?thesis
    by (intro exI [of _ "filter is_slug_char (dash_runs False (py_lower (strip_where py_isspace code)))"])
      (simp add: format_runbook_url_def Let_def list_all_iff)
qed

text \<open>
   Any error code gives a well-formed link: the documentation page, with an anchor of lower
  case letters, digits and dashes unless none is left; and the standard codes have pairwise
  different anchors.
\<close>

theorem runbook_url_wellformed:
  "(\<exists>slug. list_all is_slug_char slug \<and>
      format_runbook_url code = ERROR_DOCS_BASE_URL @ (if slug = [] then [] else lit ''#'' @ slug)) \<and>
   distinct (map format_runbook_url ErrorCodes)"
proof -
  have "distinct (map format_runbook_url ErrorCodes)" by code_simp
  with runbook_slug [of code] show ?thesis by blast
qed

end
