(* ===== verification/Tier.thy ===== *)
theory Tier
  imports Json
begin

text \<open>
  The models of \<^verbatim>\<open>tier.py\<close> and \<^verbatim>\<open>session.py\<close>: the tool tiers, the compensation
  descriptor, and the session with its step counter.
\<close>

section \<open>Tiers\<close>

datatype ToolTier = SAFE | COMPENSABLE | IRREVERSIBLE

definition is_safe :: "ToolTier \<Rightarrow> bool" where
  "is_safe t \<longleftrightarrow> t = SAFE"

definition is_compensable :: "ToolTier \<Rightarrow> bool" where
  "is_compensable t \<longleftrightarrow> t = COMPENSABLE"

definition requires_approval :: "ToolTier \<Rightarrow> bool" where
  "requires_approval t \<longleftrightarrow> t = IRREVERSIBLE"

fun tier_value :: "ToolTier \<Rightarrow> pystr" where
  "tier_value SAFE = lit ''safe''"
| "tier_value COMPENSABLE = lit ''compensable''"
| "tier_value IRREVERSIBLE = lit ''irreversible''"

definition TIER_LABELS :: "(ToolTier \<times> pystr) list" where
  "TIER_LABELS = [(SAFE, lit ''safe''), (COMPENSABLE, lit ''compensable''),
     (IRREVERSIBLE, lit ''irreversible'')]"

record CompensationDescriptor =
  fn_name :: pystr
  fn_version :: pystr
  comp_args :: "json dict"
  max_retries :: int
  retry_backoff_ms :: int

definition descriptor_new :: "pystr \<Rightarrow> json dict option \<Rightarrow> CompensationDescriptor" where
  "descriptor_new name args =
     \<lparr>fn_name = name, fn_version = lit ''1.0.0'',
      comp_args = (case args of None \<Rightarrow> [] | Some a \<Rightarrow> a), max_retries = 3, retry_backoff_ms = 1000\<rparr>"

section \<open>Sessions\<close>

record UndoLogSession =
  org_id :: pystr
  session_id :: pystr
  step_index :: int

text \<open>\<^verbatim>\<open>UndoLogSession(org_id)\<close>; the random UUID is an argument.\<close>

definition new_session :: "pystr \<Rightarrow> pystr \<Rightarrow> UndoLogSession" where
  "new_session org uuid4 = \<lparr>org_id = org, session_id = uuid4, step_index = 0\<rparr>"

definition next_step :: "UndoLogSession \<Rightarrow> int \<times> UndoLogSession" where
  "next_step s = (let n = step_index s + 1 in (n, s\<lparr>step_index := n\<rparr>))"

text \<open>
  The calls of any number of threads and tasks: the lock makes each call one step, so a run is
  the sequence of callers in the order in which they took the lock. The result lists which
  caller got which step.
\<close>

fun run_steps :: "'t list \<Rightarrow> UndoLogSession \<Rightarrow> ('t \<times> int) list \<times> UndoLogSession" where
  "run_steps [] s = ([], s)"
| "run_steps (t # ts) s =
     (let (n, s') = next_step s; (rs, s'') = run_steps ts s' in ((t, n) # rs, s''))"

lemma run_steps_result:
  "run_steps ts s = (zip ts (map (\<lambda>i. step_index s + 1 + int i) [0..<length ts]),
     s\<lparr>step_index := step_index s + int (length ts)\<rparr>)"
proof (induction ts arbitrary: s)
  case (Cons t ts)
  have "map (\<lambda>i. step_index s + 1 + int i) [0..<Suc (length ts)] =
      (step_index s + 1) # map (\<lambda>i. step_index s + 2 + int i) [0..<length ts]"
    by (simp add: upt_rec [of 0] map_Suc_upt [symmetric] comp_def del: upt_Suc)
  with Cons show ?case
    by (simp add: next_step_def Let_def algebra_simps del: upt_Suc)
qed simp

text \<open>
   The steps a session hands out are 1, 2, 3, ... in the order of the calls, without gaps
  or repeats, whichever threads and tasks make them, and the session keeps its identity.
\<close>

theorem session_steps_consecutive:
  "map snd (fst (run_steps ts (new_session org uuid4))) = map int [1..<Suc (length ts)] \<and>
   map fst (fst (run_steps ts (new_session org uuid4))) = ts \<and>
   snd (run_steps ts (new_session org uuid4)) = (new_session org uuid4)\<lparr>step_index := int (length ts)\<rparr>"
  by (simp add: run_steps_result new_session_def map_Suc_upt [symmetric] del: upt_Suc)

end
