(* ===== verification/Client.thy ===== *)
theory Client
  imports WebText Errors Tier
begin

text \<open>
  The HTTP client of the SDK (\<^verbatim>\<open>client.py\<close>). The transport, \<^verbatim>\<open>httpx\<close>, is a parameter: a function
  from a request and the state \<open>'w\<close> of everything behind it to a result and the next state. The
  operations are functions on that state whose results carry every exception that the methods
  let out.
\<close>

section \<open>The transport\<close>

record request =
  rq_method :: pystr
  rq_url :: pystr
  rq_headers :: "(pystr \<times> pystr) list"
  rq_json :: json

text \<open>A response, with the URL of its request.\<close>

record http_response =
  rp_status :: nat
  rp_content :: bytes
  rp_url :: pystr

text \<open>
  The exceptions of \<^verbatim>\<open>httpx\<close> that the code tells apart, each below \<^verbatim>\<open>HTTPError\<close>, with the text
  of the exception and the URL of its request if it has one.
\<close>

datatype httpx_kind = TimeoutException | ConnectError | OtherHTTPError

record httpx_error =
  hx_kind :: httpx_kind
  hx_text :: pystr
  hx_url :: "pystr option"

text \<open>What sending gives: a response, an error of the transport, or an exception from encoding the body.\<close>

datatype sent = Responded http_response | TransportFailed httpx_error | EncodeFailed py_exc

type_synonym 'w transport = "request \<Rightarrow> 'w \<Rightarrow> sent \<times> 'w"

text \<open>The exceptions of the client's methods.\<close>

datatype client_exc =
    SdkError undolog_error
  | HTTPStatusError nat
  | AttributeError
  | TypeError
  | PyError py_exc

section \<open>Clients\<close>

text \<open>\<open>cl_http\<close> names the connection pool.\<close>

record undolog_client =
  cl_base_url :: pystr
  cl_api_key :: pystr
  cl_http :: nat

definition default_proxy_url :: "(pystr \<Rightarrow> pystr option) \<Rightarrow> pystr" where
  "default_proxy_url environ =
     (case environ (lit ''UNDOLOG_PROXY_URL'') of None \<Rightarrow> lit ''http://localhost:8080'' | Some u \<Rightarrow> u)"

definition rstrip_slash :: "pystr \<Rightarrow> pystr" where
  "rstrip_slash s = rev (dropWhile (\<lambda>c. c = 47) (rev s))"

definition client_init :: "(pystr \<Rightarrow> pystr option) \<Rightarrow> nat \<Rightarrow> pystr option \<Rightarrow> pystr option \<Rightarrow> undolog_client" where
  "client_init environ http proxy_url api_key =
     \<lparr>cl_base_url = rstrip_slash (or_else proxy_url (default_proxy_url environ)),
      cl_api_key = or_else api_key (case environ (lit ''UNDOLOG_API_KEY'') of None \<Rightarrow> [] | Some k \<Rightarrow> k),
      cl_http = http\<rparr>"

definition client_headers :: "undolog_client \<Rightarrow> pystr \<Rightarrow> pystr \<Rightarrow> (pystr \<times> pystr) list" where
  "client_headers cl org ses =
     [(lit ''X-UndoLog-Org-Id'', org), (lit ''X-UndoLog-Session-Id'', ses)] @
     (if cl_api_key cl \<noteq> [] then [(lit ''X-Api-Key'', cl_api_key cl)] else [])"

section \<open>Errors of a request\<close>

definition safe_request_url :: "httpx_error \<Rightarrow> pystr" where
  "safe_request_url e = (case hx_url e of None \<Rightarrow> [] | Some u \<Rightarrow> u)"

text \<open>The three \<^verbatim>\<open>except\<close> clauses that every method has, with the method's name in its messages.\<close>

definition transport_error :: "string \<Rightarrow> string \<Rightarrow> httpx_error \<Rightarrow> undolog_error" where
  "transport_error title name e =
     (case hx_kind e of
        TimeoutException \<Rightarrow>
          TimeoutError (lit title @ lit '' request timed out: '' @ hx_text e) (safe_request_url e) (Finite False [0] 1) [] None None
      | ConnectError \<Rightarrow>
          ConnectionError (lit ''Cannot connect to proxy: '' @ hx_text e) (safe_request_url e) None None
      | OtherHTTPError \<Rightarrow>
          ConnectionError (lit ''HTTP error during '' @ lit name @ lit '': '' @ hx_text e) (safe_request_url e) None None)"

text \<open>The status checks of every method, and \<^verbatim>\<open>raise_for_status\<close>, which refuses what is no success.\<close>

definition status_error :: "http_response \<Rightarrow> client_exc option" where
  "status_error r =
     (let st = rp_status r in
      if st = 401 \<or> st = 403 then
        Some (SdkError (AuthenticationError (lit ''Authentication failed: '' @ show_nat st) (int st) [] None None))
      else if st \<ge> 500 then
        Some (SdkError (ServerError (lit ''Proxy server error: '' @ show_nat st) (int st) (rp_url r) None None))
      else if st < 200 \<or> 300 \<le> st then Some (HTTPStatusError st)
      else None)"

definition response_json :: "runtime \<Rightarrow> http_response \<Rightarrow> client_exc + json" where
  "response_json rt r = (case json_loads_bytes rt (rp_content r) of Inl e \<Rightarrow> Inl (PyError e) | Inr v \<Rightarrow> Inr v)"

section \<open>Intercepting a call\<close>

datatype outcome = Execute | Replay | AwaitingApproval

text \<open>The values of the response as they were sent; \<open>JNull\<close> is also a key that is missing.\<close>

record InterceptResponse =
  ir_outcome :: outcome
  ir_effect_id :: json
  ir_approval_id :: json
  ir_cached_result :: json

definition outcome_map :: "(pystr \<times> outcome) list" where
  "outcome_map = [(lit ''executed'', Execute), (lit ''replayed'', Replay), (lit ''pending_approval'', AwaitingApproval)]"

definition dict_get :: "json dict \<Rightarrow> string \<Rightarrow> json \<Rightarrow> json" where
  "dict_get d k dflt = (case map_of d (lit k) of None \<Rightarrow> dflt | Some v \<Rightarrow> v)"

text \<open>A status that is a list or an object cannot be looked up: \<^verbatim>\<open>TypeError\<close>.\<close>

definition intercept_response :: "runtime \<Rightarrow> json \<Rightarrow> client_exc + InterceptResponse" where
  "intercept_response rt body =
     (case body of
        JDict d \<Rightarrow>
          (let status = dict_get d ''status'' (JStr (lit ''executed''));
               unexpected = Inl (PyError (ValueError (lit ''Unexpected proxy status: '' @ py_repr rt status)))
           in case status of
                JList _ \<Rightarrow> Inl TypeError
              | JDict _ \<Rightarrow> Inl TypeError
              | JStr s \<Rightarrow>
                  (case map_of outcome_map s of
                     None \<Rightarrow> unexpected
                   | Some oc \<Rightarrow>
                       Inr \<lparr>ir_outcome = oc, ir_effect_id = dict_get d ''effect_id'' JNull,
                         ir_approval_id = dict_get d ''approval_id'' JNull,
                         ir_cached_result = dict_get d ''cached_result'' (dict_get d ''result'' JNull)\<rparr>)
              | _ \<Rightarrow> unexpected)
      | _ \<Rightarrow> Inl AttributeError)"

definition intercept_request :: "undolog_client \<Rightarrow> pystr \<Rightarrow> pystr \<Rightarrow> pystr \<Rightarrow> int \<Rightarrow> json dict \<Rightarrow> request" where
  "intercept_request cl org ses tool step args =
     \<lparr>rq_method = lit ''POST'', rq_url = lit ''/mcp/tool_call'', rq_headers = client_headers cl org ses,
      rq_json = JDict [(lit ''session_id'', JStr ses), (lit ''tool_name'', JStr tool),
        (lit ''tool_version'', JStr (lit ''1.0.0'')), (lit ''step_index'', JInt step), (lit ''args'', JDict args)]\<rparr>"

definition intercept ::
  "runtime \<Rightarrow> 'w transport \<Rightarrow> undolog_client \<Rightarrow> pystr \<Rightarrow> pystr \<Rightarrow> pystr \<Rightarrow> int \<Rightarrow> json dict \<Rightarrow> 'w \<Rightarrow>
     (client_exc + InterceptResponse) \<times> 'w" where
  "intercept rt http cl org ses tool step args w =
     (case http (intercept_request cl org ses tool step args) w of
        (TransportFailed e, w') \<Rightarrow> (Inl (SdkError (transport_error ''Intercept'' ''intercept'' e)), w')
      | (EncodeFailed e, w') \<Rightarrow> (Inl (PyError e), w')
      | (Responded r, w') \<Rightarrow>
          ((case status_error r of
              Some e \<Rightarrow> Inl e
            | None \<Rightarrow> rbind (response_json rt r) (intercept_response rt)), w'))"

section \<open>Reports and decisions\<close>

definition commit ::
  "runtime \<Rightarrow> 'w transport \<Rightarrow> undolog_client \<Rightarrow> pystr \<Rightarrow> pystr \<Rightarrow> json \<Rightarrow> json \<Rightarrow> 'w \<Rightarrow> (client_exc + json) \<times> 'w" where
  "commit rt http cl org ses effect_id res w =
     (case http \<lparr>rq_method = lit ''PUT'', rq_url = lit ''/effects/'' @ py_str rt effect_id @ lit ''/commit'',
         rq_headers = client_headers cl org ses, rq_json = JDict [(lit ''session_id'', JStr ses), (lit ''result'', res)]\<rparr> w of
        (TransportFailed e, w') \<Rightarrow> (Inl (SdkError (transport_error ''Commit'' ''commit'' e)), w')
      | (EncodeFailed e, w') \<Rightarrow> (Inl (PyError e), w')
      | (Responded r, w') \<Rightarrow>
          (if rp_status r = 404 then Inr (JDict [])
           else case status_error r of Some e \<Rightarrow> Inl e | None \<Rightarrow> response_json rt r, w'))"

definition fail ::
  "runtime \<Rightarrow> 'w transport \<Rightarrow> undolog_client \<Rightarrow> pystr \<Rightarrow> pystr \<Rightarrow> json \<Rightarrow> pystr \<Rightarrow> 'w \<Rightarrow> (client_exc + json) \<times> 'w" where
  "fail rt http cl org ses effect_id error w =
     (case http \<lparr>rq_method = lit ''PUT'', rq_url = lit ''/effects/'' @ py_str rt effect_id @ lit ''/fail'',
         rq_headers = client_headers cl org ses, rq_json = JDict [(lit ''session_id'', JStr ses), (lit ''error'', JStr error)]\<rparr> w of
        (TransportFailed e, w') \<Rightarrow> (Inl (SdkError (transport_error ''Fail'' ''fail'' e)), w')
      | (EncodeFailed e, w') \<Rightarrow> (Inl (PyError e), w')
      | (Responded r, w') \<Rightarrow>
          (if rp_status r = 404 then Inr (JDict [])
           else case status_error r of Some e \<Rightarrow> Inl e | None \<Rightarrow> response_json rt r, w'))"

definition approve :: "runtime \<Rightarrow> 'w transport \<Rightarrow> undolog_client \<Rightarrow> pystr \<Rightarrow> pystr \<Rightarrow> 'w \<Rightarrow> (client_exc + json) \<times> 'w" where
  "approve rt http cl org approval_id w =
     (case http \<lparr>rq_method = lit ''POST'', rq_url = lit ''/approvals/'' @ approval_id @ lit ''/approve'',
         rq_headers = client_headers cl org [], rq_json = JDict []\<rparr> w of
        (TransportFailed e, w') \<Rightarrow> (Inl (SdkError (transport_error ''Approve'' ''approve'' e)), w')
      | (EncodeFailed e, w') \<Rightarrow> (Inl (PyError e), w')
      | (Responded r, w') \<Rightarrow> (case status_error r of Some e \<Rightarrow> Inl e | None \<Rightarrow> response_json rt r, w'))"

definition reject :: "runtime \<Rightarrow> 'w transport \<Rightarrow> undolog_client \<Rightarrow> pystr \<Rightarrow> pystr \<Rightarrow> 'w \<Rightarrow> (client_exc + json) \<times> 'w" where
  "reject rt http cl org approval_id w =
     (case http \<lparr>rq_method = lit ''POST'', rq_url = lit ''/approvals/'' @ approval_id @ lit ''/reject'',
         rq_headers = client_headers cl org [], rq_json = JDict []\<rparr> w of
        (TransportFailed e, w') \<Rightarrow> (Inl (SdkError (transport_error ''Reject'' ''reject'' e)), w')
      | (EncodeFailed e, w') \<Rightarrow> (Inl (PyError e), w')
      | (Responded r, w') \<Rightarrow> (case status_error r of Some e \<Rightarrow> Inl e | None \<Rightarrow> response_json rt r, w'))"

section \<open>The default client\<close>

text \<open>
  The module's globals: the default client, the pools that are closed, the pools whose closing
  is a task of the event loop, and the number of pools made so far.
\<close>

record client_module =
  cm_default :: "undolog_client option"
  cm_closed :: "nat list"
  cm_tasks :: "nat list"
  cm_next :: nat

definition module_init :: client_module where
  "module_init = \<lparr>cm_default = None, cm_closed = [], cm_tasks = [], cm_next = 0\<rparr>"

definition get_default_client :: "(pystr \<Rightarrow> pystr option) \<Rightarrow> client_module \<Rightarrow> undolog_client \<times> client_module" where
  "get_default_client environ m =
     (case cm_default m of
        Some cl \<Rightarrow> (cl, m)
      | None \<Rightarrow>
          (let cl = client_init environ (cm_next m) None None
           in (cl, m\<lparr>cm_default := Some cl, cm_next := Suc (cm_next m)\<rparr>)))"

definition close_default_client :: "bool \<Rightarrow> client_module \<Rightarrow> client_module" where
  "close_default_client running_loop m =
     (case cm_default m of
        None \<Rightarrow> m
      | Some cl \<Rightarrow>
          (let m' = m\<lparr>cm_default := None\<rparr> in
           if cl_http cl \<notin> set (cm_closed m) \<and> running_loop then m'\<lparr>cm_tasks := cm_tasks m' @ [cl_http cl]\<rparr> else m'))"

text \<open>A background task runs \<^verbatim>\<open>aclose\<close> and is discarded.\<close>

definition aclose :: "undolog_client \<Rightarrow> client_module \<Rightarrow> client_module" where
  "aclose cl m = m\<lparr>cm_closed := cl_http cl # cm_closed m\<rparr>"

definition run_task :: "nat \<Rightarrow> client_module \<Rightarrow> client_module" where
  "run_task http m =
     (if http \<in> set (cm_tasks m) then m\<lparr>cm_closed := http # cm_closed m, cm_tasks := remove1 http (cm_tasks m)\<rparr> else m)"

section \<open>Which error a method raises\<close>

definition raises :: "(client_exc + 'r) \<times> 'w \<Rightarrow> client_exc option" where
  "raises r = (case fst r of Inl e \<Rightarrow> Some e | Inr _ \<Rightarrow> None)"

text \<open>The code of the SDK's error for an answer of the transport, if it has one.\<close>

definition failure_code :: "sent \<Rightarrow> pystr option" where
  "failure_code a =
     (case a of
        TransportFailed e \<Rightarrow> Some (if hx_kind e = TimeoutException then lit ''TIMEOUT'' else lit ''CONNECTION_FAILED'')
      | EncodeFailed _ \<Rightarrow> None
      | Responded r \<Rightarrow>
          (if rp_status r \<in> {401, 403} then Some (lit ''AUTHENTICATION_FAILED'')
           else if 500 \<le> rp_status r then Some (lit ''SERVER_ERROR'') else None))"

definition refused :: "sent \<Rightarrow> nat \<Rightarrow> bool" where
  "refused a st \<longleftrightarrow> (case a of Responded r \<Rightarrow> rp_status r = st | _ \<Rightarrow> False) \<and> failure_code a = None \<and> \<not> (200 \<le> st \<and> st < 300)"

definition classified :: "sent \<Rightarrow> bool \<Rightarrow> client_exc option \<Rightarrow> bool" where
  "classified a missing_ok r \<longleftrightarrow>
     (case r of Some (SdkError e) \<Rightarrow> Some (err_code e) | _ \<Rightarrow> None) = failure_code a \<and>
     (\<forall>st. r = Some (HTTPStatusError st) \<longleftrightarrow> refused a st \<and> \<not> (missing_ok \<and> st = 404)) \<and>
     (missing_ok \<and> refused a 404 \<longrightarrow> r = None)"

lemma transport_code:
  "err_code (transport_error title name e) =
     (if hx_kind e = TimeoutException then lit ''TIMEOUT'' else lit ''CONNECTION_FAILED'')"
  by (cases "hx_kind e") (simp_all add: transport_error_def TimeoutError_def ConnectionError_def UndoLogError_def Let_def)

lemma status_code:
  "(case status_error r of Some (SdkError e) \<Rightarrow> Some (err_code e) | _ \<Rightarrow> None) = failure_code (Responded r)"
  "status_error r = Some (HTTPStatusError st) \<longleftrightarrow> refused (Responded r) st"
  by (auto simp: status_error_def failure_code_def refused_def AuthenticationError_def ServerError_def UndoLogError_def Let_def)

lemma status_error_None: "status_error r = None \<Longrightarrow> failure_code (Responded r) = None \<and> \<not> refused (Responded r) st"
  using status_code [of r] by simp

lemma classified_body:
  assumes "\<And>e. q = Inl e \<Longrightarrow> (\<forall>x. e \<noteq> SdkError x) \<and> (\<forall>st. e \<noteq> HTTPStatusError st)"
  shows "classified (Responded r) False
      (case (case status_error r of Some e \<Rightarrow> Inl e | None \<Rightarrow> q) of Inl e \<Rightarrow> Some e | Inr _ \<Rightarrow> None)"
    "classified (Responded r) True
      (case (if rp_status r = 404 then Inr z else case status_error r of Some e \<Rightarrow> Inl e | None \<Rightarrow> q) of Inl e \<Rightarrow> Some e | Inr _ \<Rightarrow> None)"
  using assms status_code [of r] status_error_None [of r]
  by (cases q; cases "status_error r"; auto simp: classified_def refused_def failure_code_def split: client_exc.splits)+

lemma body_errors:
  "response_json rt r = Inl e \<Longrightarrow> (\<forall>x. e \<noteq> SdkError x) \<and> (\<forall>st. e \<noteq> HTTPStatusError st)"
  "rbind (response_json rt r) (intercept_response rt) = Inl e \<Longrightarrow> (\<forall>x. e \<noteq> SdkError x) \<and> (\<forall>st. e \<noteq> HTTPStatusError st)"
  by (auto simp: response_json_def intercept_response_def rbind_def Let_def split: sum.splits json.splits option.splits)

lemma classified_failed:
  "classified (TransportFailed e) m (Some (SdkError (transport_error title name e)))"
  "classified (EncodeFailed x) m (Some (PyError x))"
  by (auto simp: classified_def failure_code_def refused_def transport_code)

text \<open>
  C33. Each method of the client raises the error that fits the answer of its one request: a
  timeout, any other failure of the transport, a refused authentication and a failing server
  have the SDK's error with their own code, and nothing else has an error of the SDK. Every
  other status that is no success leaves the method as the raw \<^verbatim>\<open>httpx.HTTPStatusError\<close>,
  except that a commit or a failure report of an unknown effect succeeds.
\<close>

theorem client_errors_classified:
  assumes "http = (\<lambda>rq w. (answer, f w))"
  shows "classified answer False (raises (intercept rt http cl org ses tool step args w)) \<and>
    classified answer True (raises (commit rt http cl org ses i v w)) \<and>
    classified answer True (raises (fail rt http cl org ses i m w)) \<and>
    classified answer False (raises (approve rt http cl org a w)) \<and>
    classified answer False (raises (reject rt http cl org a w))"
proof (cases answer)
  case (Responded r)
  note b = classified_body [OF body_errors(1)] classified_body [OF body_errors(2)]
  show ?thesis
    unfolding assms raises_def intercept_def commit_def fail_def approve_def reject_def Responded prod.case sent.case fst_conv
    by (intro conjI b)
qed (simp_all add: assms raises_def intercept_def commit_def fail_def approve_def reject_def classified_failed)

theorem client_errors_classified_witness:
  "\<exists>r. r = raises (approve no_runtime
       (\<lambda>rq w. (Responded \<lparr>rp_status = 409, rp_content = [], rp_url = []\<rparr>, w))
       \<lparr>cl_base_url = [], cl_api_key = [], cl_http = 0\<rparr> [] (lit ''a1'') ()) \<and> r = Some (HTTPStatusError 409)"
proof -
  let ?rt = "no_runtime"
  have "refused (Responded \<lparr>rp_status = 409, rp_content = [], rp_url = []\<rparr>) 409" by (simp add: refused_def failure_code_def)
  with client_errors_classified [where answer = "Responded \<lparr>rp_status = 409, rp_content = [], rp_url = []\<rparr>" and rt = ?rt and
      f = "\<lambda>w. w" and cl = "\<lparr>cl_base_url = [], cl_api_key = [], cl_http = 0\<rparr>" and org = "[]" and w = "()" and a = "lit ''a1''",
      OF refl]
  show ?thesis unfolding classified_def by auto
qed

end
