(* ===== verification/SessionContext.thy ===== *)
theory SessionContext
  imports Client
begin

text \<open>
  The current session (\<^verbatim>\<open>context.py\<close>): a context variable and the context managers that set and
  reset it. Sessions and managers are objects, so both are named by references.
\<close>

section \<open>State\<close>

text \<open>A token keeps the value that the variable had when it was set.\<close>

record run_with =
  rw_session :: nat
  rw_token :: "nat option option"

record session_context =
  cx_session :: "nat option"
  cx_managers :: "nat \<Rightarrow> run_with"
  cx_module :: client_module

definition get_current_session :: "session_context \<Rightarrow> nat option" where
  "get_current_session x = cx_session x"

definition require_current_session :: "session_context \<Rightarrow> undolog_error + nat" where
  "require_current_session x =
     (case cx_session x of
        None \<Rightarrow> Inl (MissingSessionError (lit ''No UndoLog session in context; requires a session. '' @
          lit ''Wrap your code with `async with run_with_session(session):` '' @
          lit ''or pass _session=session explicitly.'') [] None None)
      | Some s \<Rightarrow> Inr s)"

definition run_with_session :: "nat \<Rightarrow> run_with" where
  "run_with_session ses = \<lparr>rw_session = ses, rw_token = None\<rparr>"

definition aenter :: "nat \<Rightarrow> session_context \<Rightarrow> session_context" where
  "aenter i x =
     (let m = cx_managers x i in
      x\<lparr>cx_managers := (cx_managers x)(i := m\<lparr>rw_token := Some (cx_session x)\<rparr>), cx_session := Some (rw_session m)\<rparr>)"

text \<open>The manager is left inside the event loop, so closing the default client finds it running.\<close>

definition aexit :: "nat \<Rightarrow> session_context \<Rightarrow> session_context" where
  "aexit i x =
     (let m = cx_managers x i in
      case rw_token m of
        None \<Rightarrow> x
      | Some old \<Rightarrow>
          x\<lparr>cx_session := old, cx_managers := (cx_managers x)(i := m\<lparr>rw_token := None\<rparr>),
            cx_module := close_default_client True (cx_module x)\<rparr>)"

datatype cx_event = Enter nat | Exit nat

fun cx_run :: "cx_event list \<Rightarrow> session_context \<Rightarrow> session_context" where
  "cx_run [] x = x"
| "cx_run (Enter i # es) x = cx_run es (aenter i x)"
| "cx_run (Exit i # es) x = cx_run es (aexit i x)"

section \<open>Nested blocks\<close>

text \<open>
  Blocks of \<^verbatim>\<open>async with\<close> in one context: properly nested, and no manager entered again while it
  is active. \<open>S\<close> is the set of the managers that are used.
\<close>

inductive nested :: "nat set \<Rightarrow> cx_event list \<Rightarrow> bool" where
  nested_none: "nested S []"
| nested_block: "nested (S - {i}) body \<Longrightarrow> nested S rest \<Longrightarrow> i \<in> S \<Longrightarrow> nested S (Enter i # body @ Exit i # rest)"

lemma cx_run_append [simp]: "cx_run (es @ fs) x = cx_run fs (cx_run es x)"
  by (induction es x rule: cx_run.induct) simp_all

lemma nested_run:
  assumes "nested S es"
  shows "cx_session (cx_run es x) = cx_session x \<and> (\<forall>j. j \<notin> S \<longrightarrow> cx_managers (cx_run es x) j = cx_managers x j) \<and>
    (\<forall>j. rw_session (cx_managers (cx_run es x) j) = rw_session (cx_managers x j))"
  using assms
proof (induction arbitrary: x rule: nested.induct)
  case (nested_block S i body rest)
  let ?y = "cx_run body (aenter i x)" and ?z = "aexit i (cx_run body (aenter i x))"
  have i: "cx_managers ?y i = (cx_managers x i)\<lparr>rw_token := Some (cx_session x)\<rparr>"
    using nested_block.IH(1) [of "aenter i x"] by (simp add: aenter_def Let_def)
  then have s: "cx_session ?z = cx_session x" by (simp add: aexit_def Let_def)
  have "cx_managers ?z j = cx_managers x j" if "j \<notin> S" for j
  proof -
    have "j \<noteq> i" using that nested_block.hyps by blast
    with that nested_block.IH(1) [of "aenter i x"] i show ?thesis by (simp add: aexit_def aenter_def Let_def)
  qed
  moreover have "rw_session (cx_managers ?z j) = rw_session (cx_managers x j)" for j
    using nested_block.IH(1) [of "aenter i x"] i by (simp add: aexit_def aenter_def Let_def)
  ultimately show ?case using s nested_block.IH(2) [of ?z] by simp
qed simp

text \<open>
  C34. Session blocks nest: inside a block its own session is current, whatever blocks were entered
  and left before at the same level, and after the block the session of the surrounding
  code is current again.
\<close>

theorem session_blocks_nest:
  assumes "nested (S - {i}) inner" "nested S rest" "i \<in> S"
  shows "cx_session (cx_run (Enter i # inner) x) = Some (rw_session (cx_managers x i)) \<and>
    cx_session (cx_run (Enter i # inner @ Exit i # rest) x) = cx_session x"
proof -
  have "cx_session (cx_run (Enter i # inner) x) = Some (rw_session (cx_managers x i))"
    using nested_run [OF assms(1), of "aenter i x"] by (simp add: aenter_def Let_def)
  then show ?thesis using nested_run [OF nested_block [OF assms], of x] by simp
qed

theorem session_blocks_nest_witness:
  "\<exists>x. cx_session x = None \<and> cx_session (cx_run [Enter 0, Enter 1, Exit 1] x) = Some 7 \<and>
     cx_session (cx_run [Enter 0, Enter 1, Exit 1, Exit 0] x) = None"
proof -
  let ?x = "\<lparr>cx_session = None, cx_managers = (\<lambda>i. run_with_session (if i = 0 then 7 else 8)), cx_module = module_init\<rparr>"
  have "nested ({0, 1} - {0}) (Enter 1 # [] @ Exit 1 # [])" by (intro nested_block nested_none) simp
  then show ?thesis
    using session_blocks_nest [of "{0, 1}" 0 "[Enter 1, Exit 1]" "[]" ?x] nested_none
    by (intro exI [of _ ?x]) (simp add: run_with_session_def)
qed

text \<open>A manager that is entered again while it is active forgets the surrounding session.\<close>

lemma reentered_manager_leaks:
  "cx_session (cx_run [Enter i, Enter i, Exit i, Exit i] x) = Some (rw_session (cx_managers x i))"
  by (simp add: aenter_def aexit_def Let_def)

section \<open>Connection pools\<close>

text \<open>Every pool that was made is closed, about to be closed, or that of the default client.\<close>

definition pools_tracked :: "client_module \<Rightarrow> bool" where
  "pools_tracked m \<longleftrightarrow> {..<cm_next m} \<subseteq> set (cm_closed m) \<union> set (cm_tasks m) \<union>
     (case cm_default m of None \<Rightarrow> {} | Some cl \<Rightarrow> {cl_http cl})"

lemma pools_tracked_steps:
  "pools_tracked module_init"
  "pools_tracked m \<Longrightarrow> pools_tracked (snd (get_default_client environ m))"
  "pools_tracked m \<Longrightarrow> pools_tracked (close_default_client True m)"
  "pools_tracked m \<Longrightarrow> pools_tracked (run_task http m)"
  by (auto simp: pools_tracked_def module_init_def get_default_client_def close_default_client_def run_task_def
      client_init_def Let_def lessThan_Suc in_set_remove1 split: option.splits)

end
