(* ===== verification/Decorator.thy ===== *)
theory Decorator
  imports SessionContext
begin

text \<open>
  Intercepted tools (\<^verbatim>\<open>decorators.py\<close>): what a call of a decorated function does, from finding
  its session to reporting its outcome. The function itself is a parameter that acts on the
  state \<open>'w\<close> of the world outside, as the transport does.
\<close>

section \<open>Signatures\<close>

datatype param_kind = POSITIONAL_ONLY | POSITIONAL_OR_KEYWORD | VAR_POSITIONAL | KEYWORD_ONLY | VAR_KEYWORD

record param =
  pm_name :: pystr
  pm_kind :: param_kind
  pm_default :: "json option"

text \<open>
  \<^verbatim>\<open>sig.bind(*args, **kwargs)\<close> followed by \<^verbatim>\<open>apply_defaults()\<close>: the value of every parameter in
  the order of the signature; \<open>None\<close> is \<^verbatim>\<open>TypeError\<close>.
\<close>

fun bind_arguments :: "param list \<Rightarrow> json list \<Rightarrow> json dict \<Rightarrow> json dict option" where
  "bind_arguments [] as ks = (if as = [] \<and> ks = [] then Some [] else None)"
| "bind_arguments (p # ps) as ks =
     (let n = pm_name p;
          by_keyword =
            (case map_of ks n of
               Some v \<Rightarrow> map_option ((#) (n, v)) (bind_arguments ps as (filter (\<lambda>kv. fst kv \<noteq> n) ks))
             | None \<Rightarrow>
                 (case pm_default p of
                    Some v \<Rightarrow> map_option ((#) (n, v)) (bind_arguments ps as ks)
                  | None \<Rightarrow> None))
      in case pm_kind p of
           POSITIONAL_ONLY \<Rightarrow>
             (case as of
                [] \<Rightarrow>
                  (case pm_default p of
                     Some v \<Rightarrow> map_option ((#) (n, v)) (bind_arguments ps as ks)
                   | None \<Rightarrow> None)
              | a # as' \<Rightarrow> map_option ((#) (n, a)) (bind_arguments ps as' ks))
         | POSITIONAL_OR_KEYWORD \<Rightarrow>
             (case as of
                [] \<Rightarrow> by_keyword
              | a # as' \<Rightarrow>
                  if map_of ks n = None then map_option ((#) (n, a)) (bind_arguments ps as' ks) else None)
         | VAR_POSITIONAL \<Rightarrow> map_option ((#) (n, JList as)) (bind_arguments ps [] ks)
         | KEYWORD_ONLY \<Rightarrow> by_keyword
         | VAR_KEYWORD \<Rightarrow> map_option ((#) (n, JDict ks)) (bind_arguments ps as []))"

section \<open>Decorated tools\<close>

record tool =
  tl_name :: pystr
  tl_tier :: ToolTier
  tl_compensation :: "CompensationDescriptor option"
  tl_client :: "undolog_client option"
  tl_session_param :: pystr
  tl_params :: "param list"

definition undolog_tool ::
  "ToolTier \<Rightarrow> CompensationDescriptor option \<Rightarrow> undolog_client option \<Rightarrow> pystr \<Rightarrow> pystr \<Rightarrow> param list \<Rightarrow> py_exc + tool" where
  "undolog_tool tier compensation client session_param name params =
     (if tier = COMPENSABLE \<and> compensation = None then
        Inl (ValueError (lit ''Compensable tools require a compensation descriptor. '' @
          lit ''Pass compensation=CompensationDescriptor.new(...)''))
      else Inr \<lparr>tl_name = name, tl_tier = tier, tl_compensation = compensation, tl_client = client,
        tl_session_param = session_param, tl_params = params\<rparr>)"

definition unwrap_replay_result :: "json \<Rightarrow> json" where
  "unwrap_replay_result cached =
     (case cached of
        JDict d \<Rightarrow> (case map_of d (lit ''output'') of Some v \<Rightarrow> v | None \<Rightarrow> cached)
      | _ \<Rightarrow> cached)"

text \<open>
  What a function raises: an \<^verbatim>\<open>Exception\<close> with its text, or a \<^verbatim>\<open>BaseException\<close> such as the
  cancellation of its task, which \<^verbatim>\<open>except Exception\<close> does not catch.
\<close>

datatype body_exc = Exn pystr | BaseExn

datatype call_exc = Raised client_exc | BodyRaised body_exc

type_synonym 'w body = "json list \<Rightarrow> json dict \<Rightarrow> 'w \<Rightarrow> (body_exc + json) \<times> 'w"

text \<open>The SDK's own state: the sessions, the context variable, and the globals of the client module.\<close>

record sdk =
  sk_sessions :: "nat \<Rightarrow> UndoLogSession"
  sk_context :: session_context

definition missing_session :: "tool \<Rightarrow> undolog_error" where
  "missing_session t =
     MissingSessionError
       (lit [CHR ''T'', CHR ''o'', CHR ''o'', CHR ''l'', CHR '' '', CHR 0x27] @ tl_name t @ lit [CHR 0x27] @
        lit '' was called without an active UndoLogSession; requires a session. '' @
        lit ''Pass '' @ tl_session_param t @ lit ''=session to the call or wrap with run_with_session(session).'')
       (tl_name t) None None"

text \<open>
  The part of the wrapper from the decision on: \<open>ic\<close>, \<open>cm\<close> and \<open>fl\<close> are the client's methods with
  the client, the organisation and the session filled in. Importing the package replaces the
  module's own \<^verbatim>\<open>AwaitingApprovalError\<close> with the class of \<^verbatim>\<open>errors.py\<close>.
\<close>

definition run_intercepted ::
  "runtime \<Rightarrow> tool \<Rightarrow> int \<Rightarrow> ('w \<Rightarrow> (client_exc + InterceptResponse) \<times> 'w) \<Rightarrow>
     (json \<Rightarrow> json \<Rightarrow> 'w \<Rightarrow> (client_exc + json) \<times> 'w) \<Rightarrow> (json \<Rightarrow> pystr \<Rightarrow> 'w \<Rightarrow> (client_exc + json) \<times> 'w) \<Rightarrow>
     ('w \<Rightarrow> (body_exc + json) \<times> 'w) \<Rightarrow> 'w \<Rightarrow> (call_exc + json) \<times> 'w" where
  "run_intercepted rt t step ic cm fl func w =
     (case ic w of
        (Inl e, w1) \<Rightarrow> (Inl (Raised e), w1)
      | (Inr r, w1) \<Rightarrow>
          (case ir_outcome r of
             Replay \<Rightarrow> (Inr (unwrap_replay_result (ir_cached_result r)), w1)
           | AwaitingApproval \<Rightarrow>
               (Inl (Raised (SdkError (AwaitingApprovalError [] (tl_name t) step None
                  (if truthy (ir_approval_id r) then py_str rt (ir_approval_id r) else []) [] None None))), w1)
           | Execute \<Rightarrow>
               (case func w1 of
                  (Inl BaseExn, w2) \<Rightarrow> (Inl (BodyRaised BaseExn), w2)
                | (Inl (Exn m), w2) \<Rightarrow>
                    (Inl (BodyRaised (Exn m)), if truthy (ir_effect_id r) then snd (fl (ir_effect_id r) m w2) else w2)
                | (Inr v, w2) \<Rightarrow>
                    if truthy (ir_effect_id r) then
                      (case cm (ir_effect_id r) (JDict [(lit ''success'', JBool True), (lit ''output'', v)]) w2 of
                         (Inl e, w3) \<Rightarrow> (Inl (Raised e), w3)
                       | (Inr _, w3) \<Rightarrow> (Inr v, w3))
                    else (Inr v, w2))))"

definition wrapper ::
  "runtime \<Rightarrow> (pystr \<Rightarrow> pystr option) \<Rightarrow> (undolog_client \<Rightarrow> 'w transport) \<Rightarrow> tool \<Rightarrow> 'w body \<Rightarrow>
     nat option \<Rightarrow> json list \<Rightarrow> json dict \<Rightarrow> sdk \<Rightarrow> 'w \<Rightarrow> (call_exc + json) \<times> sdk \<times> 'w" where
  "wrapper rt environ http t func explicit as ks k w =
     (case (case explicit of Some s \<Rightarrow> Some s | None \<Rightarrow> get_current_session (sk_context k)) of
        None \<Rightarrow> (Inl (Raised (SdkError (missing_session t))), k, w)
      | Some s \<Rightarrow>
          (let (cl, m) = (case tl_client t of Some cl \<Rightarrow> (cl, cx_module (sk_context k))
                          | None \<Rightarrow> get_default_client environ (cx_module (sk_context k)));
               k1 = k\<lparr>sk_context := (sk_context k)\<lparr>cx_module := m\<rparr>\<rparr>
           in if tl_tier t = SAFE then
                (case func as ks w of
                   (Inl e, w1) \<Rightarrow> (Inl (BodyRaised e), k1, w1)
                 | (Inr v, w1) \<Rightarrow> (Inr v, k1, w1))
              else
                (let (step, ses) = next_step (sk_sessions k1 s);
                     k2 = k1\<lparr>sk_sessions := (sk_sessions k1)(s := ses)\<rparr>
                 in case bind_arguments (tl_params t) as ks of
                      None \<Rightarrow> (Inl (Raised TypeError), k2, w)
                    | Some arguments \<Rightarrow>
                        (let call_args = filter (\<lambda>kv. fst kv \<noteq> tl_session_param t) arguments;
                             (r, w1) = run_intercepted rt t step
                               (intercept rt (http cl) cl (org_id ses) (session_id ses) (tl_name t) step call_args)
                               (commit rt (http cl) cl (org_id ses) (session_id ses))
                               (fail rt (http cl) cl (org_id ses) (session_id ses)) (func as ks) w
                         in (r, k2, w1)))))"

section \<open>What the wrapper relies on\<close>

text \<open>
  The contract between the wrapper and the service behind the client: a call that was not
  decided yet is to be run under an effect, reporting a result settles the call, and a settled
  call is answered with its result. \<open>Held\<close> is every other state. The service does not touch
  \<open>out\<close>, the world of the tools.
\<close>

datatype entry = Free | Running pystr | Settled json | Held

definition envelope_of :: "json \<Rightarrow> json" where
  "envelope_of v = JDict [(lit ''success'', JBool True), (lit ''output'', v)]"

lemma unwrap_envelope [simp]: "unwrap_replay_result (envelope_of v) = v"
  by (simp add: unwrap_replay_result_def envelope_of_def)

locale effect_service =
  fixes ok :: "'w \<Rightarrow> bool" and key_ok :: "'k \<Rightarrow> bool" and entry :: "'w \<Rightarrow> 'k \<Rightarrow> entry"
    and result_ok :: "'k \<Rightarrow> json \<Rightarrow> bool" and error_ok :: "'k \<Rightarrow> pystr \<Rightarrow> bool"
    and ic :: "'k \<Rightarrow> 'w \<Rightarrow> (client_exc + InterceptResponse) \<times> 'w"
    and cm :: "'k \<Rightarrow> json \<Rightarrow> json \<Rightarrow> 'w \<Rightarrow> (client_exc + json) \<times> 'w"
    and fl :: "'k \<Rightarrow> json \<Rightarrow> pystr \<Rightarrow> 'w \<Rightarrow> (client_exc + json) \<times> 'w"
    and out :: "'w \<Rightarrow> 'o"
  assumes ic_open: "ok w \<Longrightarrow> key_ok k \<Longrightarrow> entry w k = Free \<or> entry w k = Running i \<Longrightarrow>
      \<exists>j r w'. ic k w = (Inr r, w') \<and> ir_outcome r = Execute \<and> ir_effect_id r = JStr j \<and> j \<noteq> [] \<and>
        ok w' \<and> entry w' k = Running j"
    and ic_settled: "ok w \<Longrightarrow> key_ok k \<Longrightarrow> entry w k = Settled v \<Longrightarrow>
      \<exists>r w'. ic k w = (Inr r, w') \<and> ir_outcome r = Replay \<and> ir_cached_result r = v \<and> ok w' \<and> entry w' k = Settled v"
    and cm_running: "ok w \<Longrightarrow> key_ok k \<Longrightarrow> entry w k = Running i \<Longrightarrow> result_ok k v \<Longrightarrow>
      \<exists>r w'. cm k (JStr i) v w = (Inr r, w') \<and> ok w' \<and> entry w' k = Settled v"
    and fl_running: "ok w \<Longrightarrow> key_ok k \<Longrightarrow> entry w k = Running i \<Longrightarrow> error_ok k m \<Longrightarrow>
      \<exists>r w'. fl k (JStr i) m w = (r, w') \<and> ok w' \<and> entry w' k = Free"
    and ic_out: "out (snd (ic k w)) = out w"
    and cm_out: "out (snd (cm k x v w)) = out w"
    and fl_out: "out (snd (fl k x m w)) = out w"
begin

text \<open>A function that does not interfere with the service.\<close>

definition harmless :: "('w \<Rightarrow> (body_exc + json) \<times> 'w) \<Rightarrow> bool" where
  "harmless func \<longleftrightarrow> (\<forall>w. ok w \<longrightarrow> ok (snd (func w)) \<and> entry (snd (func w)) = entry w)"

abbreviation call :: "runtime \<Rightarrow> tool \<Rightarrow> int \<Rightarrow> 'k \<Rightarrow> ('w \<Rightarrow> (body_exc + json) \<times> 'w) \<Rightarrow> 'w \<Rightarrow> (call_exc + json) \<times> 'w" where
  "call rt t step k \<equiv> run_intercepted rt t step (ic k) (cm k) (fl k)"

text \<open>An open call runs its function once, and what it returns or raises is what the caller sees.\<close>

lemma open_call:
  assumes "ok w" "key_ok k" "entry w k = Free \<or> entry w k = Running i" "harmless func"
  shows "\<exists>w1. ok w1 \<and> out w1 = out w \<and> (case func w1 of
      (Inr v, w2) \<Rightarrow> result_ok k (envelope_of v) \<longrightarrow>
        (\<exists>w3. call rt t step k func w = (Inr v, w3) \<and> ok w3 \<and> entry w3 k = Settled (envelope_of v) \<and> out w3 = out w2)
    | (Inl (Exn m), w2) \<Rightarrow> error_ok k m \<longrightarrow>
        (\<exists>w3. call rt t step k func w = (Inl (BodyRaised (Exn m)), w3) \<and> ok w3 \<and> entry w3 k = Free \<and> out w3 = out w2)
    | (Inl BaseExn, w2) \<Rightarrow> call rt t step k func w = (Inl (BodyRaised BaseExn), w2) \<and> ok w2 \<and> (\<exists>j. entry w2 k = Running j))"
proof -
  from ic_open [OF assms(1-3)] obtain j r w1 where r: "ic k w = (Inr r, w1)" "ir_outcome r = Execute"
    "ir_effect_id r = JStr j" "j \<noteq> []" "ok w1" "entry w1 k = Running j" by blast
  have o: "out w1 = out w" using ic_out [of k w] r(1) by simp
  obtain b w2 where b: "func w1 = (b, w2)" by force
  with assms(4) r(5,6) have w2: "ok w2" "entry w2 k = Running j" by (force simp: harmless_def)+
  show ?thesis
  proof (cases b)
    case (Inr v)
    have "\<exists>w3. call rt t step k func w = (Inr v, w3) \<and> ok w3 \<and> entry w3 k = Settled (envelope_of v) \<and> out w3 = out w2"
      if "result_ok k (envelope_of v)"
      using cm_running [OF w2(1) assms(2) w2(2) that] cm_out [of k "JStr j" "envelope_of v" w2] r b Inr
      by (auto simp: run_intercepted_def envelope_of_def)
    with Inr b r(5) o show ?thesis by (intro exI [of _ w1]) simp
  next
    case (Inl e)
    show ?thesis
    proof (cases e)
      case (Exn m)
      have "\<exists>w3. call rt t step k func w = (Inl (BodyRaised (Exn m)), w3) \<and> ok w3 \<and> entry w3 k = Free \<and> out w3 = out w2"
        if "error_ok k m"
        using fl_running [OF w2(1) assms(2) w2(2) that] fl_out [of k "JStr j" m w2] r b Inl Exn
        by (auto simp: run_intercepted_def)
      with Inl Exn b r(5) o show ?thesis by (intro exI [of _ w1]) simp
    next
      case BaseExn
      with Inl b r w2 o show ?thesis by (intro exI [of _ w1]) (simp add: run_intercepted_def)
    qed
  qed
qed

text \<open>A settled call returns what was reported, whatever the function would do.\<close>

lemma settled_call:
  assumes "ok w" "key_ok k" "entry w k = Settled (envelope_of v)"
  shows "\<exists>w'. ok w' \<and> entry w' k = Settled (envelope_of v) \<and> out w' = out w \<and> (\<forall>func. call rt t step k func w = (Inr v, w'))"
  using ic_settled [OF assms] ic_out [of k w] by (fastforce simp: run_intercepted_def)

end

end
