(* ===== verification/Compensation.thy ===== *)
theory Compensation
  imports Decorator
begin

text \<open>
  The test harness for single compensation functions (\<^verbatim>\<open>test_harness.py\<close>): calls that are
  recorded, retries, the backoff between them, and the check that running a compensation twice
  gives the same result. A compensation is a function on the world outside, like the body of a
  tool. The equality of the caller's values is a parameter, because their classes define it;
  the texts of assertion errors are left out.
\<close>

section \<open>Equality of arguments\<close>

definition tuple_eq :: "('a \<Rightarrow> 'a \<Rightarrow> bool) \<Rightarrow> 'a list \<Rightarrow> 'a list \<Rightarrow> bool" where
  "tuple_eq eq xs ys = list_all2 eq xs ys"

definition dict_eq :: "('a \<Rightarrow> 'a \<Rightarrow> bool) \<Rightarrow> 'a dict \<Rightarrow> 'a dict \<Rightarrow> bool" where
  "dict_eq eq d e \<longleftrightarrow> length d = length e \<and>
     list_all (\<lambda>(k, v). case map_of e k of None \<Rightarrow> False | Some v' \<Rightarrow> eq v v') d"

lemma tuple_eq_refl: "(\<And>v. v \<in> set xs \<Longrightarrow> eq v v) \<Longrightarrow> tuple_eq eq xs xs"
  by (simp add: tuple_eq_def list_all2_same)

lemma dict_eq_refl: "distinct (map fst d) \<Longrightarrow> (\<And>v. v \<in> snd ` set d \<Longrightarrow> eq v v) \<Longrightarrow> dict_eq eq d d"
  by (fastforce simp: dict_eq_def list_all_iff)

section \<open>Recorded calls\<close>

text \<open>\<^verbatim>\<open>CompensationTestHarness\<close> without its function, which every operation takes as an argument.\<close>

record comp_harness =
  ch_max_retries :: int
  ch_call_count :: nat
  ch_calls :: "(json list \<times> json dict) list"
  ch_results :: "json list"
  ch_errors :: "(nat \<times> pystr) list"

datatype harness_exc = FromBody body_exc | AssertionError | PyException py_exc | RuntimeError pystr

definition new_harness :: "int \<Rightarrow> comp_harness" where
  "new_harness retries =
     \<lparr>ch_max_retries = retries, ch_call_count = 0, ch_calls = [], ch_results = [], ch_errors = []\<rparr>"

definition execute :: "'w body \<Rightarrow> json list \<Rightarrow> json dict \<Rightarrow> comp_harness \<Rightarrow> 'w \<Rightarrow> (body_exc + json) \<times> comp_harness \<times> 'w" where
  "execute fn as ks h w =
     (let call_index = length (ch_calls h); h1 = h\<lparr>ch_calls := ch_calls h @ [(as, ks)]\<rparr>
      in case fn as ks w of
           (Inr v, w1) \<Rightarrow> (Inr v, h1\<lparr>ch_call_count := ch_call_count h1 + 1, ch_results := ch_results h1 @ [v]\<rparr>, w1)
         | (Inl (Exn m), w1) \<Rightarrow> (Inl (Exn m), h1\<lparr>ch_errors := ch_errors h1 @ [(call_index, m)]\<rparr>, w1)
         | (Inl BaseExn, w1) \<Rightarrow> (Inl BaseExn, h1, w1))"

fun retry_loop ::
  "'w body \<Rightarrow> json list \<Rightarrow> json dict \<Rightarrow> nat \<Rightarrow> pystr option \<Rightarrow> comp_harness \<Rightarrow> 'w \<Rightarrow> (harness_exc + json) \<times> comp_harness \<times> 'w" where
  "retry_loop fn as ks 0 last_exc h w =
     (Inl (case last_exc of None \<Rightarrow> AssertionError | Some m \<Rightarrow> FromBody (Exn m)), h, w)"
| "retry_loop fn as ks (Suc n) last_exc h w =
     (case execute fn as ks h w of
        (Inr v, h1, w1) \<Rightarrow> (Inr v, h1, w1)
      | (Inl (Exn m), h1, w1) \<Rightarrow> retry_loop fn as ks n (Some m) h1 w1
      | (Inl BaseExn, h1, w1) \<Rightarrow> (Inl (FromBody BaseExn), h1, w1))"

definition execute_with_retry ::
  "'w body \<Rightarrow> json list \<Rightarrow> json dict \<Rightarrow> comp_harness \<Rightarrow> 'w \<Rightarrow> (harness_exc + json) \<times> comp_harness \<times> 'w" where
  "execute_with_retry fn as ks h w = retry_loop fn as ks (nat (ch_max_retries h)) None h w"

definition assert_called_once :: "comp_harness \<Rightarrow> harness_exc + unit" where
  "assert_called_once h = (if ch_call_count h = 1 then Inr () else Inl AssertionError)"

definition assert_called_with ::
  "(json \<Rightarrow> json \<Rightarrow> bool) \<Rightarrow> json list \<Rightarrow> json dict \<Rightarrow> comp_harness \<Rightarrow> harness_exc + unit" where
  "assert_called_with eq as ks h =
     (if ch_calls h = [] then Inl AssertionError
      else let (actual_args, actual_kwargs) = last (ch_calls h)
           in if \<not> tuple_eq eq actual_args as then Inl AssertionError
              else if \<not> dict_eq eq actual_kwargs ks then Inl AssertionError
              else Inr ())"

definition assert_idempotent ::
  "(json \<Rightarrow> json \<Rightarrow> bool) \<Rightarrow> 'w body \<Rightarrow> json list \<Rightarrow> json dict \<Rightarrow> comp_harness \<Rightarrow> 'w \<Rightarrow>
     (harness_exc + unit) \<times> comp_harness \<times> 'w" where
  "assert_idempotent eq fn as ks h w =
     (case execute fn as ks h w of
        (Inl e, h1, w1) \<Rightarrow> (Inl (FromBody e), h1, w1)
      | (Inr r1, h1, w1) \<Rightarrow>
          (case execute fn as ks h1 w1 of
             (Inl e, h2, w2) \<Rightarrow> (Inl (FromBody e), h2, w2)
           | (Inr r2, h2, w2) \<Rightarrow> (if eq r1 r2 then Inr () else Inl AssertionError, h2, w2)))"

definition reset :: "comp_harness \<Rightarrow> comp_harness" where
  "reset h = h\<lparr>ch_call_count := 0, ch_calls := [], ch_results := [], ch_errors := []\<rparr>"

section \<open>Backoff\<close>

text \<open>
  \<open>scaled base multiplier n\<close> is \<^verbatim>\<open>int(base * multiplier ** n)\<close> in floating point, which raises
  \<^verbatim>\<open>OverflowError\<close> when the power or the product is too large.
\<close>

type_synonym scaling = "int \<Rightarrow> pyfloat \<Rightarrow> int \<Rightarrow> py_exc + int"

definition calculate_backoff :: "scaling \<Rightarrow> int \<Rightarrow> int \<Rightarrow> pyfloat \<Rightarrow> int \<Rightarrow> py_exc + int" where
  "calculate_backoff scaled attempt base_backoff_ms multiplier max_backoff_ms =
     (if base_backoff_ms \<le> 0 \<or> attempt < 0 then Inr 0
      else rbind (scaled base_backoff_ms multiplier attempt) (\<lambda>calculated. Inr (min calculated max_backoff_ms)))"

section \<open>Testing one compensation\<close>

record test_options =
  to_retries :: "int option"
  to_fail_count :: int
  to_backoff_ms :: int
  to_multiplier :: pyfloat
  to_max_backoff_ms :: int
  to_failure_exception :: "pystr option"

record CompensationReport =
  cr_fn_name :: pystr
  cr_execution_count :: nat
  cr_retry_count :: nat
  cr_final_state :: pystr
  cr_result :: json
  cr_error :: "pystr option"
  cr_dead_letter :: bool
  cr_backoff_intervals_ms :: "int list"

text \<open>The local variables of the loop.\<close>

record comp_test =
  ct_attempts :: nat
  ct_injected :: nat
  ct_error :: "pystr option"
  ct_intervals :: "int list"
  ct_harness :: comp_harness

definition effective_retries :: "test_options \<Rightarrow> int" where
  "effective_retries t = (case to_retries t of None \<Rightarrow> max 1 (to_fail_count t) | Some r \<Rightarrow> r)"

text \<open>What follows a failed attempt: an interval, unless it was the last one.\<close>

definition back_off :: "scaling \<Rightarrow> test_options \<Rightarrow> nat \<Rightarrow> comp_test \<Rightarrow> py_exc + comp_test" where
  "back_off scaled t max_attempts c =
     (if ct_attempts c < max_attempts
      then rbind (calculate_backoff scaled (int (ct_attempts c) - 1) (to_backoff_ms t) (to_multiplier t) (to_max_backoff_ms t))
             (\<lambda>interval. Inr (c\<lparr>ct_intervals := ct_intervals c @ [interval]\<rparr>))
      else Inr c)"

fun attempt_loop ::
  "scaling \<Rightarrow> test_options \<Rightarrow> nat \<Rightarrow> ('w \<Rightarrow> comp_harness \<Rightarrow> (body_exc + json) \<times> comp_harness \<times> 'w) \<Rightarrow> nat \<Rightarrow> comp_test \<Rightarrow> 'w \<Rightarrow>
     (harness_exc + json option \<times> comp_test) \<times> 'w" where
  "attempt_loop scaled t max_attempts exe 0 c w = (Inr (None, c), w)"
| "attempt_loop scaled t max_attempts exe (Suc n) c w =
     (let c = c\<lparr>ct_attempts := ct_attempts c + 1\<rparr> in
      if int (ct_injected c) < to_fail_count t then
        (let text = (case to_failure_exception t of
                       Some m \<Rightarrow> m
                     | None \<Rightarrow> lit ''Simulated transient network failure (attempt '' @ show_nat (ct_attempts c) @ lit ''/'' @
                         show_nat max_attempts @ lit '')'');
             c = c\<lparr>ct_injected := ct_injected c + 1, ct_error := Some text\<rparr>
         in case back_off scaled t max_attempts c of
              Inl e \<Rightarrow> (Inl (PyException e), w)
            | Inr c \<Rightarrow> attempt_loop scaled t max_attempts exe n c w)
      else
        (case exe w (ct_harness c) of
           (Inr v, h, w1) \<Rightarrow> (Inr (Some v, c\<lparr>ct_harness := h\<rparr>), w1)
         | (Inl (Exn m), h, w1) \<Rightarrow>
             (case back_off scaled t max_attempts (c\<lparr>ct_harness := h, ct_error := Some m\<rparr>) of
                Inl e \<Rightarrow> (Inl (PyException e), w1)
              | Inr c \<Rightarrow> attempt_loop scaled t max_attempts exe n c w1)
         | (Inl BaseExn, h, w1) \<Rightarrow> (Inl (FromBody BaseExn), w1)))"

text \<open>The second call, which must agree with the first: the final state, the error and the number of calls.\<close>

definition second_call ::
  "runtime \<Rightarrow> (json \<Rightarrow> json \<Rightarrow> bool) \<Rightarrow> ('w \<Rightarrow> comp_harness \<Rightarrow> (body_exc + json) \<times> comp_harness \<times> 'w) \<Rightarrow> json \<Rightarrow> comp_test \<Rightarrow> 'w \<Rightarrow>
     (harness_exc + bool \<times> pystr option \<times> comp_harness) \<times> 'w" where
  "second_call rt eq exe first c w =
     (case exe w (ct_harness c) of
        (Inl (Exn m), h, w1) \<Rightarrow> (Inr (False, Some m, h), w1)
      | (Inl BaseExn, h, w1) \<Rightarrow> (Inl (FromBody BaseExn), w1)
      | (Inr v, h, w1) \<Rightarrow>
          (Inr (if eq v first then (True, ct_error c, h)
                else (False, Some (lit ''idempotency violation: first='' @ py_repr rt first @ lit '', second='' @ py_repr rt v), h)), w1))"

definition test_compensation ::
  "runtime \<Rightarrow> (json \<Rightarrow> json \<Rightarrow> bool) \<Rightarrow> scaling \<Rightarrow> pystr \<Rightarrow> 'w body \<Rightarrow> json list \<Rightarrow> json dict \<Rightarrow> test_options \<Rightarrow> 'w \<Rightarrow>
     (harness_exc + CompensationReport) \<times> 'w" where
  "test_compensation rt eq scaled name fn as ks t w =
     (let retries = effective_retries t; max_attempts = nat (retries + 1);
          exe = (\<lambda>w h. execute fn as ks h w);
          start = \<lparr>ct_attempts = 0, ct_injected = 0, ct_error = None, ct_intervals = [], ct_harness = new_harness 3\<rparr>;
          report = (\<lambda>c h ok result error.
            \<lparr>cr_fn_name = name, cr_execution_count = ch_call_count h, cr_retry_count = ct_attempts c - 1,
             cr_final_state = (if ok then lit ''compensated'' else lit ''failed''), cr_result = result, cr_error = error,
             cr_dead_letter = (\<not> ok), cr_backoff_intervals_ms = ct_intervals c\<rparr>)
      in case attempt_loop scaled t max_attempts exe max_attempts start w of
           (Inl e, w1) \<Rightarrow> (Inl e, w1)
         | (Inr (None, c), w1) \<Rightarrow> (Inr (report c (ct_harness c) False JNull (ct_error c)), w1)
         | (Inr (Some v, c), w1) \<Rightarrow>
             (if retries > 0 then
                (case second_call rt eq exe v c w1 of
                   (Inl e, w2) \<Rightarrow> (Inl e, w2)
                 | (Inr (ok, error, h), w2) \<Rightarrow> (Inr (report c h ok v error), w2))
              else (Inr (report c (ct_harness c) True v (ct_error c)), w1)))"

section \<open>Injected failures\<close>

text \<open>The interval after failed attempt number \<open>i\<close>, counted from 0.\<close>

definition interval :: "scaling \<Rightarrow> test_options \<Rightarrow> nat \<Rightarrow> int" where
  "interval scaled t i = projr (calculate_backoff scaled (int i) (to_backoff_ms t) (to_multiplier t) (to_max_backoff_ms t))"

definition scales :: "scaling \<Rightarrow> test_options \<Rightarrow> nat \<Rightarrow> bool" where
  "scales scaled t m \<longleftrightarrow> (\<forall>i < m. \<exists>x. scaled (to_backoff_ms t) (to_multiplier t) (int i) = Inr x)"

lemma calculate_interval:
  "scales scaled t m \<Longrightarrow> i < m \<Longrightarrow>
     calculate_backoff scaled (int i) (to_backoff_ms t) (to_multiplier t) (to_max_backoff_ms t) = Inr (interval scaled t i)"
  by (auto simp: interval_def calculate_backoff_def scales_def)

lemma interval_le: "scales scaled t m \<Longrightarrow> i < m \<Longrightarrow> 0 \<le> to_max_backoff_ms t \<Longrightarrow> interval scaled t i \<le> to_max_backoff_ms t"
  by (auto simp: interval_def calculate_backoff_def scales_def)

text \<open>The loop while failures are injected: \<open>k\<close> of them are done, \<open>n\<close> attempts are left.\<close>

lemma injected_loop:
  assumes "scales scaled t (m - 1)" "to_fail_count t = int f" "exe w h0 = (Inr v, h, w1)"
    and "ct_attempts c = k" "ct_injected c = k" "ct_intervals c = map (interval scaled t) [0..<min k (m - 1)]"
    and "ct_harness c = h0" "k + n = m" "k \<le> f"
  shows "\<exists>e. attempt_loop scaled t m exe n c w =
    (if f < m
     then (Inr (Some v, \<lparr>ct_attempts = Suc f, ct_injected = f, ct_error = e, ct_intervals = map (interval scaled t) [0..<f],
        ct_harness = h\<rparr>), w1)
     else (Inr (None, \<lparr>ct_attempts = m, ct_injected = m, ct_error = e, ct_intervals = map (interval scaled t) [0..<m - 1],
        ct_harness = h0\<rparr>), w))"
  using assms(4-9)
proof (induction n arbitrary: c k)
  case 0
  then show ?case by (cases c) (auto simp: comp_test.defs)
next
  case (Suc n)
  let ?c = "c\<lparr>ct_attempts := Suc k\<rparr>"
  show ?case
  proof (cases "k < f")
    case True
    define msg where "msg = (case to_failure_exception t of Some x \<Rightarrow> x
      | None \<Rightarrow> lit ''Simulated transient network failure (attempt '' @ show_nat (ct_attempts ?c) @ lit ''/'' @ show_nat m @ lit '')'')"
    let ?d = "?c\<lparr>ct_injected := Suc k, ct_error := Some msg\<rparr>"
    obtain d where d: "back_off scaled t m ?d = Inr d" "ct_attempts d = Suc k" "ct_injected d = Suc k" "ct_harness d = h0"
        "ct_intervals d = map (interval scaled t) [0..<min (Suc k) (m - 1)]"
    proof (cases "Suc k < m")
      case True
      then have "calculate_backoff scaled (int k) (to_backoff_ms t) (to_multiplier t) (to_max_backoff_ms t) = Inr (interval scaled t k)"
        by (intro calculate_interval [OF assms(1)]) simp
      with True Suc.prems show ?thesis
        by (intro that [of "?d\<lparr>ct_intervals := ct_intervals c @ [interval scaled t k]\<rparr>"]) (auto simp: back_off_def min_def)
    next
      case False
      with Suc.prems show ?thesis by (intro that [of ?d]) (auto simp: back_off_def min_def)
    qed
    have "attempt_loop scaled t m exe (Suc n) c w = attempt_loop scaled t m exe n d w"
      using True Suc.prems(1,2) assms(2) d(1) by (simp add: msg_def Let_def)
    then show ?thesis using Suc.IH [OF d(2,3,5,4)] Suc.prems(5) True by simp
  next
    case False
    with Suc.prems have k: "k = f" "f < m" by simp_all
    then show ?thesis using Suc.prems assms(2,3) by (cases c) (auto simp: comp_test.defs Let_def)
  qed
qed

text \<open>
  C37. Retries absorb exactly the failures they allow. A compensation that works and gives the
  same result twice is reported as compensated if and only if the injected failures do not
  exceed the retries; otherwise it is a dead letter and was not called at all. There is one
  interval for each retry that was used, and none exceeds the ceiling.
\<close>

theorem compensation_retries:
  assumes "to_fail_count t = int f" "effective_retries t = int r" "scales scaled t r" "0 \<le> to_max_backoff_ms t"
    and "fn as ks w = (Inr v, w1)" "fn as ks w1 = (Inr v', w2)" "eq v' v"
  shows "\<exists>rep. fst (test_compensation rt eq scaled name fn as ks t w) = Inr rep \<and>
    cr_final_state rep = (if f \<le> r then lit ''compensated'' else lit ''failed'') \<and> cr_dead_letter rep = (r < f) \<and>
    cr_retry_count rep = min f r \<and> cr_execution_count rep = (if f \<le> r then if r = 0 then 1 else 2 else 0) \<and>
    cr_backoff_intervals_ms rep = map (interval scaled t) [0..<min f r] \<and>
    (\<forall>i \<in> set (cr_backoff_intervals_ms rep). i \<le> to_max_backoff_ms t)"
proof -
  let ?h = "new_harness 3" and ?exe = "\<lambda>w h. execute fn as ks h w"
  let ?start = "\<lparr>ct_attempts = 0, ct_injected = 0, ct_error = None, ct_intervals = [], ct_harness = ?h\<rparr>"
  obtain h1 h2 where x: "?exe w ?h = (Inr v, h1, w1)" "ch_call_count h1 = 1" "?exe w1 h1 = (Inr v', h2, w2)" "ch_call_count h2 = 2"
    using assms(5,6) by (simp add: execute_def new_harness_def Let_def)
  have m: "nat (effective_retries t + 1) = Suc r" using assms(2) by simp
  from injected_loop [where n = "Suc r" and c = ?start and m = "Suc r" and exe = ?exe and scaled = scaled and k = 0, OF _ assms(1) x(1)] assms(3)
  obtain e where l: "attempt_loop scaled t (Suc r) ?exe (Suc r) ?start w =
    (if f \<le> r
     then (Inr (Some v, \<lparr>ct_attempts = Suc f, ct_injected = f, ct_error = e, ct_intervals = map (interval scaled t) [0..<f],
        ct_harness = h1\<rparr>), w1)
     else (Inr (None, \<lparr>ct_attempts = Suc r, ct_injected = Suc r, ct_error = e, ct_intervals = map (interval scaled t) [0..<r],
        ct_harness = ?h\<rparr>), w))"
    by (auto simp: less_Suc_eq_le diff_Suc_1 simp del: attempt_loop.simps upt_Suc)
  have b: "interval scaled t i \<le> to_max_backoff_ms t" if "i < min f r" for i using interval_le [OF assms(3) _ assms(4)] that by simp
  have h: "ch_call_count ?h = 0" by (simp add: new_harness_def)
  show ?thesis
    unfolding test_compensation_def Let_def m l using x assms(2,7) b h by (auto simp: second_call_def)
qed

definition doubling :: scaling where
  "doubling base multiplier n = Inr (base * 2 ^ nat n)"

theorem compensation_retries_witness:
  "\<exists>rep. fst (test_compensation no_runtime (=) doubling (lit ''undo'')
      (\<lambda>as ks n. (Inr (JInt 7), Suc n)) [] []
      \<lparr>to_retries = Some 2, to_fail_count = 2, to_backoff_ms = 100, to_multiplier = Finite False [2] 1, to_max_backoff_ms = 150,
       to_failure_exception = None\<rparr> (0 :: nat)) = Inr rep \<and>
    cr_final_state rep = lit ''compensated'' \<and> cr_retry_count rep = 2 \<and> cr_backoff_intervals_ms rep = [100, 150]"
proof -
  let ?t = "\<lparr>to_retries = Some 2, to_fail_count = 2, to_backoff_ms = 100, to_multiplier = Finite False [2] 1, to_max_backoff_ms = 150,
    to_failure_exception = None\<rparr>"
  let ?fn = "\<lambda>(as :: json list) (ks :: json dict) n. (Inr (JInt 7), Suc n)"
  have i: "interval doubling ?t 0 = 100" "interval doubling ?t (Suc 0) = 150"
    by (simp_all add: interval_def calculate_backoff_def doubling_def)
  have "scales doubling ?t 2" by (simp add: scales_def doubling_def)
  then show ?thesis
    using compensation_retries [where t = ?t and f = 2 and r = 2 and scaled = doubling and fn = ?fn and eq = "(=)" and as = "[]" and
      ks = "[]" and w = "0 :: nat" and v = "JInt 7" and v' = "JInt 7"] i
    by (fastforce simp: effective_retries_def numeral_2_eq_2)
qed

end
