(* ===== verification/Saga.thy ===== *)
theory Saga
  imports Compensation
begin

text \<open>
  The simulated rollback of a session (\<^verbatim>\<open>SagaTestHarness\<close> of \<^verbatim>\<open>test_harness.py\<close>) and the
  assertion that checks its report. Effects are compensated in last-in first-out order, each
  with its own budget of attempts, and the pass stops at the first that fails for good.
\<close>

section \<open>Effects and reports\<close>

record 'w EffectDescriptor =
  ed_tool_name :: pystr
  ed_compensation :: "'w body"
  ed_stack_position :: int
  ed_max_retries :: int
  ed_args :: "json list"
  ed_kwargs :: "json dict"

definition effect_descriptor ::
  "pystr \<Rightarrow> 'w body \<Rightarrow> int \<Rightarrow> int \<Rightarrow> json list \<Rightarrow> json dict option \<Rightarrow> py_exc + 'w EffectDescriptor" where
  "effect_descriptor tool_name compensation stack_position retries as ks =
     (if stack_position < 0 then
        Inl (ValueError (lit ''stack_position must be non-negative, got '' @ show_int stack_position))
      else Inr \<lparr>ed_tool_name = tool_name, ed_compensation = compensation, ed_stack_position = stack_position,
        ed_max_retries = retries, ed_args = as, ed_kwargs = or_empty ks\<rparr>)"

text \<open>A value among the recorded arguments of a step: the caller's, or the tuple of positional arguments.\<close>

datatype arg_val = Val json | Tuple "json list"

record StepResult =
  sr_tool_name :: pystr
  sr_stack_position :: int
  sr_attempts :: nat
  sr_state :: pystr
  sr_error :: "pystr option"
  sr_args :: "arg_val dict"
  sr_dead_letter :: bool

record SagaReport =
  sg_session_result :: pystr
  sg_steps :: "StepResult list"
  sg_compensation_order :: "pystr list"
  sg_dead_letters :: "StepResult list"

record 'w SagaTestHarness =
  sh_effects :: "'w EffectDescriptor list"
  sh_last_report :: "SagaReport option"

section \<open>Rolling back\<close>

definition saga_init :: "runtime \<Rightarrow> 'w EffectDescriptor list \<Rightarrow> py_exc + 'w SagaTestHarness" where
  "saga_init rt session_effects =
     (let positions = map ed_stack_position session_effects in
      if session_effects = [] then Inl (ValueError (lit ''session_effects must not be empty''))
      else if \<not> distinct positions then
        Inl (ValueError (lit ''duplicate stack_position values: '' @
          py_repr rt (JList (map JInt (sort (remdups (filter (\<lambda>p. count_list positions p > 1) positions)))))))
      else Inr \<lparr>sh_effects = session_effects, sh_last_report = None\<rparr>)"

definition budget :: "'w EffectDescriptor \<Rightarrow> nat" where
  "budget e = (if ed_max_retries e > 0 then nat (ed_max_retries e) else 3)"

definition as_vals :: "json dict \<Rightarrow> arg_val dict" where
  "as_vals d = map (\<lambda>(k, v). (k, Val v)) d"

definition step_args :: "'w EffectDescriptor \<Rightarrow> arg_val dict" where
  "step_args e =
     (let d = dict_update [] (as_vals (ed_kwargs e)) in
      case ed_args e of
        [] \<Rightarrow> d
      | [JDict x] \<Rightarrow> dict_update d (as_vals x)
      | as \<Rightarrow> AList.update (if ed_kwargs e = [] then lit ''args'' else lit ''_args'') (Tuple as) d)"

text \<open>The attempts on one effect: whether one succeeded, how many were made, and the last error.\<close>

fun compensate ::
  "('w \<Rightarrow> (body_exc + json) \<times> 'w) \<Rightarrow> nat \<Rightarrow> nat \<Rightarrow> pystr option \<Rightarrow> 'w \<Rightarrow> (body_exc + bool \<times> nat \<times> pystr option) \<times> 'w" where
  "compensate f 0 attempts error w = (Inr (False, attempts, error), w)"
| "compensate f (Suc n) attempts error w =
     (case f w of
        (Inr _, w1) \<Rightarrow> (Inr (True, Suc attempts, error), w1)
      | (Inl (Exn m), w1) \<Rightarrow> compensate f n (Suc attempts) (Some m) w1
      | (Inl BaseExn, w1) \<Rightarrow> (Inl BaseExn, w1))"

text \<open>The pass over the ordered effects, with the steps and names so far and whether it halted.\<close>

fun roll ::
  "'w EffectDescriptor list \<Rightarrow> StepResult list \<Rightarrow> pystr list \<Rightarrow> 'w \<Rightarrow>
     (body_exc + StepResult list \<times> pystr list \<times> bool) \<times> 'w" where
  "roll [] steps order w = (Inr (steps, order, False), w)"
| "roll (e # es) steps order w =
     (case compensate (ed_compensation e (ed_args e) (ed_kwargs e)) (budget e) 0 None w of
        (Inl x, w1) \<Rightarrow> (Inl x, w1)
      | (Inr (True, attempts, _), w1) \<Rightarrow>
          roll es (steps @ [\<lparr>sr_tool_name = ed_tool_name e, sr_stack_position = ed_stack_position e, sr_attempts = attempts,
              sr_state = lit ''compensated'', sr_error = None, sr_args = step_args e, sr_dead_letter = False\<rparr>])
            (order @ [ed_tool_name e]) w1
      | (Inr (False, attempts, error), w1) \<Rightarrow>
          (Inr (steps @ [\<lparr>sr_tool_name = ed_tool_name e, sr_stack_position = ed_stack_position e, sr_attempts = attempts,
              sr_state = lit ''failed'', sr_error = error, sr_args = step_args e, sr_dead_letter = True\<rparr>], order, True), w1))"

text \<open>\<^verbatim>\<open>sorted(..., reverse=True)\<close> keeps the order of equal keys.\<close>

definition lifo :: "'w EffectDescriptor list \<Rightarrow> 'w EffectDescriptor list" where
  "lifo es = rev (sort_key ed_stack_position (rev es))"

definition rollback :: "'w SagaTestHarness \<Rightarrow> 'w \<Rightarrow> (body_exc + SagaReport) \<times> 'w SagaTestHarness \<times> 'w" where
  "rollback h w =
     (case roll (lifo (sh_effects h)) [] [] w of
        (Inl x, w1) \<Rightarrow> (Inl x, h, w1)
      | (Inr (steps, order, halted), w1) \<Rightarrow>
          (let report = \<lparr>sg_session_result = (if halted then lit ''halted'' else lit ''compensated''), sg_steps = steps,
                 sg_compensation_order = order, sg_dead_letters = filter sr_dead_letter steps\<rparr>
           in (Inr report, h\<lparr>sh_last_report := Some report\<rparr>, w1)))"

definition saga_report :: "'w SagaTestHarness \<Rightarrow> harness_exc + SagaReport" where
  "saga_report h =
     (case sh_last_report h of
        None \<Rightarrow> Inl (RuntimeError (lit ''rollback() has not run; no report available''))
      | Some r \<Rightarrow> Inr r)"

definition test_saga :: "runtime \<Rightarrow> 'w EffectDescriptor list \<Rightarrow> 'w \<Rightarrow> (harness_exc + SagaReport) \<times> 'w" where
  "test_saga rt session_effects w =
     (case saga_init rt session_effects of
        Inl e \<Rightarrow> (Inl (PyException e), w)
      | Inr h \<Rightarrow>
          (case rollback h w of
             (Inl x, _, w1) \<Rightarrow> (Inl (FromBody x), w1)
           | (Inr r, _, w1) \<Rightarrow> (Inr r, w1)))"

section \<open>Checking a report\<close>

datatype payload = PDict "arg_val dict" | PSeq "json list" | PVal json

definition payload_of :: "json \<Rightarrow> payload" where
  "payload_of v = (case v of JDict d \<Rightarrow> PDict (as_vals d) | JList xs \<Rightarrow> PSeq xs | _ \<Rightarrow> PVal v)"

text \<open>An expected compensation, by the shapes that the assertion tells apart.\<close>

datatype expected =
    ByName pystr
  | BySequence "json list"
  | ByDict "json dict"
  | ByDescriptor pystr "json list"
  | ByStep StepResult
  | Unsupported

text \<open>Which assertion failed, with the number of its step.\<close>

datatype saga_assertion =
    NotCompensated
  | DeadLetters
  | StepCount
  | LifoOrder nat
  | UnsupportedSpec nat
  | UnboundTool nat
  | WrongTool nat
  | StepFailed nat
  | PayloadMismatch nat

definition arg_eq :: "(json \<Rightarrow> json \<Rightarrow> bool) \<Rightarrow> arg_val \<Rightarrow> arg_val \<Rightarrow> bool" where
  "arg_eq eq a b =
     (case (a, b) of
        (Val v, Val v') \<Rightarrow> eq v v'
      | (Tuple xs, Tuple ys) \<Rightarrow> tuple_eq eq xs ys
      | _ \<Rightarrow> False)"

definition arg_get :: "arg_val dict \<Rightarrow> pystr \<Rightarrow> arg_val" where
  "arg_get d k = (case map_of d k of None \<Rightarrow> Val JNull | Some v \<Rightarrow> v)"

definition payload_parity :: "(json \<Rightarrow> json \<Rightarrow> bool) \<Rightarrow> arg_val dict \<Rightarrow> payload \<Rightarrow> bool" where
  "payload_parity eq actual p =
     (case p of
        PDict d \<Rightarrow> dict_eq (arg_eq eq) actual d \<or> list_all (\<lambda>(k, v). arg_eq eq (arg_get actual k) v) d
      | PSeq xs \<Rightarrow>
          arg_eq eq (arg_get actual (lit ''args'')) (Tuple xs) \<or> arg_eq eq (arg_get actual (lit ''_args'')) (Tuple xs) \<or>
          tuple_eq (arg_eq eq) (map snd actual) (map Val xs) \<or>
          (case xs of [JDict d] \<Rightarrow> dict_eq (arg_eq eq) (as_vals d) actual | _ \<Rightarrow> False)
      | PVal v \<Rightarrow>
          (case actual of [(_, a)] \<Rightarrow> arg_eq eq a (Val v) | _ \<Rightarrow> False) \<or> arg_eq eq (arg_get actual (lit ''args'')) (Tuple [v]))"

text \<open>
  The tool and the payload an entry stands for. The variable for the tool is not reset between
  entries, so an empty sequence takes the tool of the entry before it, \<open>prev\<close>.
\<close>

definition expected_of :: "runtime \<Rightarrow> pystr option \<Rightarrow> expected \<Rightarrow> pystr option \<times> payload option" where
  "expected_of rt prev x =
     (case x of
        ByName s \<Rightarrow> (Some s, None)
      | BySequence xs \<Rightarrow>
          (case xs of [] \<Rightarrow> prev | v # _ \<Rightarrow> Some (py_str rt v), case xs of _ # v # _ \<Rightarrow> Some (payload_of v) | _ \<Rightarrow> None)
      | ByDict d \<Rightarrow>
          (let a = dict_get d ''tool_name'' JNull; b = dict_get d ''name'' JNull
           in (Some (if truthy a then py_str rt a else if truthy b then py_str rt b else []),
               map_option payload_of (map_of d (lit ''args''))))
      | ByDescriptor s as \<Rightarrow> (Some s, Some (PSeq as))
      | ByStep r \<Rightarrow> (Some (sr_tool_name r), Some (PDict (sr_args r)))
      | Unsupported \<Rightarrow> (None, None))"

fun check_steps ::
  "runtime \<Rightarrow> (json \<Rightarrow> json \<Rightarrow> bool) \<Rightarrow> nat \<Rightarrow> StepResult option \<Rightarrow> pystr option \<Rightarrow> (StepResult \<times> expected) list \<Rightarrow> saga_assertion + unit" where
  "check_steps rt eq idx before prev [] = Inr ()"
| "check_steps rt eq idx before prev ((step, x) # rest) =
     (if (case before of None \<Rightarrow> False | Some b \<Rightarrow> sr_stack_position step \<ge> sr_stack_position b) then Inl (LifoOrder idx)
      else if x = Unsupported then Inl (UnsupportedSpec idx)
      else
        (case expected_of rt prev x of
           (None, _) \<Rightarrow> Inl (UnboundTool idx)
         | (Some tool, p) \<Rightarrow>
             if sr_tool_name step \<noteq> tool then Inl (WrongTool idx)
             else if sr_state step \<noteq> lit ''compensated'' then Inl (StepFailed idx)
             else if (case p of None \<Rightarrow> False | Some p \<Rightarrow> \<not> payload_parity eq (sr_args step) p) then Inl (PayloadMismatch idx)
             else check_steps rt eq (Suc idx) (Some step) (Some tool) rest))"

definition assert_saga_rolled_back ::
  "runtime \<Rightarrow> (json \<Rightarrow> json \<Rightarrow> bool) \<Rightarrow> SagaReport \<Rightarrow> expected list \<Rightarrow> saga_assertion + unit" where
  "assert_saga_rolled_back rt eq report expected_compensations =
     (if sg_session_result report \<noteq> lit ''compensated'' then Inl NotCompensated
      else if sg_dead_letters report \<noteq> [] then Inl DeadLetters
      else if length (sg_steps report) \<noteq> length expected_compensations then Inl StepCount
      else check_steps rt eq 0 None None (zip (sg_steps report) expected_compensations))"

section \<open>Last in, first out\<close>

text \<open>What the report says of an effect that was tried.\<close>

definition reports :: "'w EffectDescriptor \<Rightarrow> StepResult \<Rightarrow> bool" where
  "reports e r \<longleftrightarrow> sr_tool_name r = ed_tool_name e \<and> sr_stack_position r = ed_stack_position e \<and> sr_args r = step_args e \<and>
     1 \<le> sr_attempts r \<and> sr_attempts r \<le> budget e \<and>
     (if sr_dead_letter r then sr_state r = lit ''failed'' else sr_state r = lit ''compensated'' \<and> sr_error r = None)"

text \<open>Calls of a compensation that raise one after the other, with the texts of the exceptions.\<close>

inductive failing :: "('w \<Rightarrow> (body_exc + json) \<times> 'w) \<Rightarrow> 'w \<Rightarrow> pystr list \<Rightarrow> 'w \<Rightarrow> bool" for f where
  failing_Nil: "failing f w [] w"
| failing_Cons: "f w = (Inl (Exn m), w1) \<Longrightarrow> failing f w1 ms w2 \<Longrightarrow> failing f w (m # ms) w2"

text \<open>
  What was done for one step of a report: the compensation was called with the arguments of the
  effect, as often as the step says. All calls but the last raised; the last call succeeded, or it
  raised too and used up the budget, and then the step has the text of its exception.
\<close>

definition undone :: "'w \<Rightarrow> 'w EffectDescriptor \<times> StepResult \<Rightarrow> 'w \<Rightarrow> bool" where
  "undone = (\<lambda>w (e, r) w'. let call = ed_compensation e (ed_args e) (ed_kwargs e) in
     \<exists>ms w1. failing call w ms w1 \<and>
       (if sr_dead_letter r then length ms = budget e \<and> sr_attempts r = length ms \<and> sr_error r = Some (last ms) \<and> w' = w1
        else length ms < budget e \<and> sr_attempts r = Suc (length ms) \<and> (\<exists>v. call w1 = (Inr v, w'))))"

lemma budget_pos: "0 < budget e"
  by (simp add: budget_def)

lemma compensate_calls:
  assumes "compensate f n a err w = (Inr (b, a', err'), w')"
  shows "\<exists>ms w1. failing f w ms w1 \<and>
    (if b then length ms < n \<and> a' = a + Suc (length ms) \<and> (\<exists>v. f w1 = (Inr v, w'))
     else length ms = n \<and> a' = a + n \<and> err' = (if ms = [] then err else Some (last ms)) \<and> w' = w1)"
  using assms
proof (induction n arbitrary: a err w)
  case 0
  then show ?case by (auto intro: failing_Nil)
next
  case (Suc n)
  obtain x w1 where f: "f w = (x, w1)" by force
  show ?case
  proof (cases x)
    case (Inr v)
    then show ?thesis using Suc.prems f by (auto intro!: exI [of _ "[]"] exI [of _ w] failing_Nil)
  next
    case (Inl e)
    with Suc.prems f obtain m where m: "f w = (Inl (Exn m), w1)" "compensate f n (Suc a) (Some m) w1 = (Inr (b, a', err'), w')"
      by (cases e) auto
    from Suc.IH [OF m(2)] obtain ms w2 where ms: "failing f w1 ms w2"
        "if b then length ms < n \<and> a' = Suc a + Suc (length ms) \<and> (\<exists>v. f w2 = (Inr v, w'))
         else length ms = n \<and> a' = Suc a + n \<and> err' = (if ms = [] then Some m else Some (last ms)) \<and> w' = w2" by blast
    from failing_Cons [OF m(1) ms(1)] ms(2) show ?thesis
      by (intro exI [of _ "m # ms"] exI [of _ w2]) (auto split: if_splits)
  qed
qed

lemma compensate_undone:
  assumes "compensate (ed_compensation e (ed_args e) (ed_kwargs e)) (budget e) 0 None w = (Inr (b, a, err), w1)"
    and "r = \<lparr>sr_tool_name = ed_tool_name e, sr_stack_position = ed_stack_position e, sr_attempts = a,
      sr_state = (if b then lit ''compensated'' else lit ''failed''), sr_error = (if b then None else err), sr_args = step_args e,
      sr_dead_letter = (\<not> b)\<rparr>"
  shows "reports e r" "undone w (e, r) w1"
proof -
  obtain ms w2 where ms: "failing (ed_compensation e (ed_args e) (ed_kwargs e)) w ms w2"
      "if b then length ms < budget e \<and> a = Suc (length ms) \<and> (\<exists>v. ed_compensation e (ed_args e) (ed_kwargs e) w2 = (Inr v, w1))
       else length ms = budget e \<and> a = budget e \<and> err = (if ms = [] then None else Some (last ms)) \<and> w1 = w2"
    using compensate_calls [OF assms(1)] by auto
  show "reports e r" using ms(2) budget_pos [of e] by (auto simp: reports_def assms(2) split: if_splits)
  show "undone w (e, r) w1"
    unfolding undone_def Let_def prod.case
    by (intro exI [of _ ms] exI [of _ w2]) (use ms budget_pos [of e] in \<open>auto simp: assms(2) split: if_splits\<close>)
qed

lemma roll_steps:
  assumes "roll es steps order w = (Inr (steps', order', halted), w')"
  shows "\<exists>new. steps' = steps @ new \<and> list_all2 reports (take (length new) es) new \<and> run undone w (zip es new) w' \<and> length new \<le> length es \<and>
    (if halted then new \<noteq> [] \<and> list_all (\<lambda>r. \<not> sr_dead_letter r) (butlast new) \<and> sr_dead_letter (last new) \<and>
         order' = order @ map ed_tool_name (take (length new - 1) es)
     else length new = length es \<and> list_all (\<lambda>r. \<not> sr_dead_letter r) new \<and> order' = order @ map ed_tool_name es)"
  using assms
proof (induction es arbitrary: steps order w)
  case Nil
  then show ?case by (auto intro: run_Nil)
next
  case (Cons e es)
  obtain x w1 where c: "compensate (ed_compensation e (ed_args e) (ed_kwargs e)) (budget e) 0 None w = (x, w1)" by force
  with Cons.prems obtain b a err where x: "x = Inr (b, a, err)" by (cases x) (auto split: bool.splits)
  let ?r = "\<lparr>sr_tool_name = ed_tool_name e, sr_stack_position = ed_stack_position e, sr_attempts = a,
    sr_state = (if b then lit ''compensated'' else lit ''failed''), sr_error = (if b then None else err), sr_args = step_args e,
    sr_dead_letter = (\<not> b)\<rparr>"
  note r = compensate_undone [OF c [unfolded x] refl]
  show ?case
  proof (cases b)
    case True
    then have "roll es (steps @ [?r]) (order @ [ed_tool_name e]) w1 = (Inr (steps', order', halted), w')"
      using Cons.prems c x by simp
    from Cons.IH [OF this] obtain new where new: "steps' = steps @ ?r # new" "list_all2 reports (take (length new) es) new"
        "run undone w1 (zip es new) w'" "length new \<le> length es"
        "if halted then new \<noteq> [] \<and> list_all (\<lambda>r. \<not> sr_dead_letter r) (butlast new) \<and> sr_dead_letter (last new) \<and>
           order' = (order @ [ed_tool_name e]) @ map ed_tool_name (take (length new - 1) es)
         else length new = length es \<and> list_all (\<lambda>r. \<not> sr_dead_letter r) new \<and>
           order' = (order @ [ed_tool_name e]) @ map ed_tool_name es" by auto
    have "run undone w (zip (e # es) (?r # new)) w'" using run_Cons [where step = undone, OF r(2) new(3)] by simp
    with new r(1) True show ?thesis by (intro exI [of _ "?r # new"]) (auto simp: neq_Nil_conv split: if_splits)
  next
    case False
    then have "steps' = steps @ [?r]" "order' = order" "halted" "w' = w1" using Cons.prems c x by simp_all
    moreover have "run undone w (zip (e # es) [?r]) w1" using run_Cons [where step = undone, OF r(2) run_Nil] by simp
    ultimately show ?thesis using r(1) False by (intro exI [of _ "[?r]"]) auto
  qed
qed

text \<open>A pass that halted does not depend on the effects behind the one that failed.\<close>

lemma roll_prefix:
  assumes "roll es steps order w = (Inr (steps', order', True), w')" "take (length steps' - length steps) fs = take (length steps' - length steps) es"
  shows "roll fs steps order w = (Inr (steps', order', True), w')"
  using assms
proof (induction es arbitrary: fs steps order w)
  case (Cons e es)
  from roll_steps [OF Cons.prems(1)] obtain new where new: "steps' = steps @ new" "new \<noteq> []" by auto
  then obtain k where k: "length steps' - length steps = Suc k" by (cases new) auto
  with Cons.prems(2) obtain fs' where fs: "fs = e # fs'" "take k fs' = take k es" by (cases fs) auto
  have "length steps' - Suc (length steps) = k" using k by simp
  with Cons.prems(1) show ?case
    unfolding fs using fs(2)
    by (auto split: prod.splits sum.splits bool.splits intro!: Cons.IH)
qed simp

lemma lifo_sorted:
  assumes "distinct (map ed_stack_position es)"
  shows "sorted_wrt (>) (map ed_stack_position (lifo es))"
proof -
  have "distinct (map ed_stack_position (sort_key ed_stack_position (rev es)))"
    using assms by (simp add: distinct_map)
  then have "sorted_wrt (<) (map ed_stack_position (sort_key ed_stack_position (rev es)))"
    by (simp add: strict_sorted_iff)
  then show ?thesis by (simp add: lifo_def rev_map [symmetric] sorted_wrt_rev)
qed

lemma set_lifo [simp]: "set (lifo es) = set es" "length (lifo es) = length es"
  by (simp_all add: lifo_def)

lemma saga_init_effects:
  "saga_init rt es = Inr h \<Longrightarrow> sh_effects h = es \<and> es \<noteq> [] \<and> distinct (map ed_stack_position es)"
  by (auto simp: saga_init_def Let_def split: if_splits)

lemma rollback_steps:
  assumes "saga_init rt es = Inr h" "rollback h w = (Inr rep, h', w')"
  obtains steps order halted where "roll (lifo es) [] [] w = (Inr (steps, order, halted), w')" "saga_report h' = Inr rep"
    "rep = \<lparr>sg_session_result = (if halted then lit ''halted'' else lit ''compensated''), sg_steps = steps,
       sg_compensation_order = order, sg_dead_letters = filter sr_dead_letter steps\<rparr>"
    "list_all2 reports (take (length steps) (lifo es)) steps" "run undone w (zip (lifo es) steps) w'"
    "if halted then steps \<noteq> [] \<and> list_all (\<lambda>r. \<not> sr_dead_letter r) (butlast steps) \<and> sr_dead_letter (last steps) \<and>
       order = map ed_tool_name (take (length steps - 1) (lifo es))
     else length steps = length es \<and> list_all (\<lambda>r. \<not> sr_dead_letter r) steps \<and> order = map ed_tool_name (lifo es)"
proof -
  obtain steps order halted where r: "roll (lifo es) [] [] w = (Inr (steps, order, halted), w')"
      "rep = \<lparr>sg_session_result = (if halted then lit ''halted'' else lit ''compensated''), sg_steps = steps,
         sg_compensation_order = order, sg_dead_letters = filter sr_dead_letter steps\<rparr>" "saga_report h' = Inr rep"
    using assms(2) saga_init_effects [OF assms(1)]
    by (auto simp: rollback_def saga_report_def Let_def split: prod.splits sum.splits)
  with roll_steps [OF r(1)] show ?thesis by (intro that [OF r(1,3,2)]) auto
qed

lemma dead_letters:
  assumes "steps \<noteq> []" "list_all (\<lambda>r. \<not> sr_dead_letter r) (butlast steps)" "sr_dead_letter (last steps)"
  shows "filter sr_dead_letter steps = [last steps]"
proof -
  have "steps = butlast steps @ [last steps]" "filter sr_dead_letter (butlast steps) = []"
    using assms by (auto simp: filter_empty_conv list_all_iff)
  then show ?thesis using assms(3) by (metis append_Nil filter.simps filter_append)
qed

text \<open>
  C35. A rollback works through the effects from the highest stack position down and calls the
  compensation of each with the arguments of the effect: the report has one step for each effect
  that was tried, the calls were made in the order of the steps and as often as the steps say,
  and nothing else changed the world. An effect is tried until a call succeeds and at most as
  often as its budget allows. Either every effect is compensated, or the pass halts at the first
  whose budget is used up: that effect is the only dead letter, and the compensations of the ones
  behind it are not called; other effects in their place would give the same report.
\<close>

theorem rollback_lifo:
  assumes "saga_init rt es = Inr h" "rollback h w = (Inr rep, h', w')"
  shows "let k = length (sg_steps rep) in
    sorted_wrt (>) (map ed_stack_position (lifo es)) \<and> set (lifo es) = set es \<and>
    list_all2 reports (take k (lifo es)) (sg_steps rep) \<and> run undone w (zip (lifo es) (sg_steps rep)) w' \<and> saga_report h' = Inr rep \<and>
    (if sg_session_result rep = lit ''compensated''
     then k = length es \<and> sg_compensation_order rep = map ed_tool_name (lifo es) \<and> sg_dead_letters rep = []
     else 0 < k \<and> sg_compensation_order rep = map ed_tool_name (take (k - 1) (lifo es)) \<and>
       sg_dead_letters rep = [last (sg_steps rep)] \<and>
       (\<forall>es' h2. saga_init rt es' = Inr h2 \<longrightarrow> take k (lifo es') = take k (lifo es) \<longrightarrow>
          (\<exists>h3. rollback h2 w = (Inr rep, h3, w'))))"
proof -
  note h = saga_init_effects [OF assms(1)]
  obtain steps order halted where r: "roll (lifo es) [] [] w = (Inr (steps, order, halted), w')" "saga_report h' = Inr rep"
      "rep = \<lparr>sg_session_result = (if halted then lit ''halted'' else lit ''compensated''), sg_steps = steps,
         sg_compensation_order = order, sg_dead_letters = filter sr_dead_letter steps\<rparr>"
      "list_all2 reports (take (length steps) (lifo es)) steps" "run undone w (zip (lifo es) steps) w'"
      "if halted then steps \<noteq> [] \<and> list_all (\<lambda>r. \<not> sr_dead_letter r) (butlast steps) \<and> sr_dead_letter (last steps) \<and>
         order = map ed_tool_name (take (length steps - 1) (lifo es))
       else length steps = length es \<and> list_all (\<lambda>r. \<not> sr_dead_letter r) steps \<and> order = map ed_tool_name (lifo es)"
    using assms by (rule rollback_steps)
  have p: "\<exists>h3. rollback h2 w = (Inr rep, h3, w')"
    if "halted" "saga_init rt es' = Inr h2" "take (length steps) (lifo es') = take (length steps) (lifo es)" for es' h2
    using roll_prefix [where steps = "[]" and es = "lifo es" and fs = "lifo es'"] r(1,3) that saga_init_effects [OF that(2)]
    by (auto simp: rollback_def Let_def)
  show ?thesis
    using r(2-6) dead_letters [of steps] p lifo_sorted h unfolding Let_def by (cases halted) (auto simp: filter_empty_conv list_all_iff)
qed

definition sample_effect :: "int \<Rightarrow> (body_exc + json) \<Rightarrow> json list \<Rightarrow> json dict \<Rightarrow> int list EffectDescriptor" where
  "sample_effect p r as ks = \<lparr>ed_tool_name = show_int p, ed_compensation = (\<lambda>as ks ps. (r, p # ps)), ed_stack_position = p,
     ed_max_retries = 2, ed_args = as, ed_kwargs = ks\<rparr>"

theorem rollback_lifo_witness:
  "\<exists>h rep h' w'. saga_init no_runtime
       [sample_effect 1 (Inr JNull) [] [], sample_effect 3 (Inr JNull) [] [], sample_effect 2 (Inl (Exn [])) [] []] = Inr h \<and>
     rollback h [] = (Inr rep, h', w') \<and> w' = [2, 2, 3] \<and> sg_compensation_order rep = [show_int 3] \<and>
     map sr_stack_position (sg_dead_letters rep) = [2]"
proof -
  let ?es = "[sample_effect 1 (Inr JNull) [] [], sample_effect 3 (Inr JNull) [] [], sample_effect 2 (Inl (Exn [])) [] []]"
  let ?h = "\<lparr>sh_effects = ?es, sh_last_report = None\<rparr>"
  have i: "saga_init no_runtime ?es = Inr ?h" by (simp add: saga_init_def sample_effect_def)
  let ?s = "\<lambda>p n st e d. \<lparr>sr_tool_name = show_int p, sr_stack_position = p, sr_attempts = n, sr_state = lit st, sr_error = e,
    sr_args = [], sr_dead_letter = d\<rparr>"
  let ?rep = "\<lparr>sg_session_result = lit ''halted'', sg_steps = [?s 3 1 ''compensated'' None False, ?s 2 2 ''failed'' (Some []) True],
    sg_compensation_order = [show_int 3], sg_dead_letters = [?s 2 2 ''failed'' (Some []) True]\<rparr>"
  have r: "rollback ?h [] = (Inr ?rep, ?h\<lparr>sh_last_report := Some ?rep\<rparr>, [2, 2, 3])"
    by (simp add: rollback_def lifo_def sample_effect_def budget_def step_args_def as_vals_def dict_update_def Let_def numeral_2_eq_2)
  from rollback_lifo [OF i r] show ?thesis using i r by (auto simp: Let_def)
qed

section \<open>Accepted reports\<close>

lemma check_steps_all:
  assumes "list_all2 reports es steps" "list_all (\<lambda>r. \<not> sr_dead_letter r) steps" "sorted_wrt (>) (map ed_stack_position es)"
    and "\<And>e. e \<in> set es \<Longrightarrow> x e \<noteq> Unsupported" "\<And>e prev. e \<in> set es \<Longrightarrow> expected_of rt prev (x e) = (Some (ed_tool_name e), p e)"
    and "case before of None \<Rightarrow> True | Some b \<Rightarrow> \<forall>e \<in> set es. ed_stack_position e < sr_stack_position b"
  shows "check_steps rt eq idx before prev (zip steps (map x es)) = Inr () \<longleftrightarrow>
    (\<forall>e \<in> set es. case p e of None \<Rightarrow> True | Some q \<Rightarrow> payload_parity eq (step_args e) q)"
  using assms
proof (induction es steps arbitrary: idx before prev rule: list_all2_induct)
  case (Cons e es r rs)
  have r: "sr_tool_name r = ed_tool_name e" "sr_stack_position r = ed_stack_position e" "sr_args r = step_args e"
      "sr_state r = lit ''compensated''"
    using Cons.hyps(1) Cons.prems(1) by (auto simp: reports_def)
  have "check_steps rt eq (Suc idx) (Some r) (Some (ed_tool_name e)) (zip rs (map x es)) = Inr () \<longleftrightarrow>
      (\<forall>e \<in> set es. case p e of None \<Rightarrow> True | Some q \<Rightarrow> payload_parity eq (step_args e) q)"
    using Cons.prems r(2) by (intro Cons.IH) auto
  then show ?case
    using Cons.prems r by (auto split: option.splits)
qed simp

lemma rollback_checked:
  assumes "saga_init rt es = Inr h" "rollback h w = (Inr rep, h', w')" "sg_session_result rep = lit ''compensated''"
    and "\<And>e. e \<in> set es \<Longrightarrow> x e \<noteq> Unsupported" "\<And>e prev. e \<in> set es \<Longrightarrow> expected_of rt prev (x e) = (Some (ed_tool_name e), p e)"
  shows "assert_saga_rolled_back rt eq rep (map x (lifo es)) = Inr () \<longleftrightarrow>
    (\<forall>e \<in> set es. case p e of None \<Rightarrow> True | Some q \<Rightarrow> payload_parity eq (step_args e) q)"
proof -
  note h = saga_init_effects [OF assms(1)]
  from assms(1,2) obtain steps where s: "rep = \<lparr>sg_session_result = lit ''compensated'', sg_steps = steps,
      sg_compensation_order = map ed_tool_name (lifo es), sg_dead_letters = filter sr_dead_letter steps\<rparr>"
      "list_all2 reports (lifo es) steps" "list_all (\<lambda>r. \<not> sr_dead_letter r) steps" "length steps = length es"
    by (rule rollback_steps) (use assms(3) in \<open>auto split: if_splits\<close>)
  have "filter sr_dead_letter steps = []" using s(3) by (simp add: filter_empty_conv list_all_iff)
  then have "assert_saga_rolled_back rt eq rep (map x (lifo es)) = check_steps rt eq 0 None None (zip steps (map x (lifo es)))"
    using s(1,4) by (simp add: assert_saga_rolled_back_def)
  then show ?thesis
    using check_steps_all [OF s(2,3) lifo_sorted, where x = x and p = p and before = None] h assms(4,5) by simp
qed

lemma update_all: "distinct (map fst d) \<Longrightarrow> dict_update [] d = d"
proof -
  have "distinct (map fst (c @ d)) \<Longrightarrow> dict_update c d = c @ d" for c
  proof (induction d arbitrary: c)
    case (Cons x d)
    moreover have "AList.update (fst x) (snd x) c = c @ [x]"
      using Cons.prems by (induction c) auto
    ultimately show ?case using Cons.IH [of "c @ [x]"] by (simp add: dict_update_def split_beta)
  qed (simp add: dict_update_def)
  then show "distinct (map fst d) \<Longrightarrow> dict_update [] d = d" by (metis append_Nil)
qed

lemma as_vals_keys: "map fst (as_vals d) = map fst d" "snd ` set (as_vals d) = Val ` snd ` set d"
  by (force simp: as_vals_def)+

lemma parity_no_kwargs:
  assumes "ed_kwargs e = []" "\<And>v. eq v v" "\<And>d. ed_args e = [JDict d] \<Longrightarrow> distinct (map fst d)"
  shows "payload_parity eq (step_args e) (PSeq (ed_args e))"
proof (cases "\<exists>d. ed_args e = [JDict d]")
  case True
  then obtain d where d: "ed_args e = [JDict d]" by blast
  then have "step_args e = as_vals d"
    using assms(1,3) update_all [of "as_vals d"] by (simp add: step_args_def as_vals_keys) (simp add: as_vals_def dict_update_def)
  moreover have "dict_eq (arg_eq eq) (as_vals d) (as_vals d)"
    using assms(2,3) d by (intro dict_eq_refl) (auto simp: as_vals_keys arg_eq_def)
  ultimately show ?thesis using d by (simp add: payload_parity_def)
next
  case False
  show ?thesis
  proof (cases "ed_args e = []")
    case True
    then show ?thesis using assms(1) by (simp add: step_args_def payload_parity_def as_vals_def dict_update_def tuple_eq_def)
  next
    case nonempty: False
    then have "step_args e = [(lit ''args'', Tuple (ed_args e))]"
      using False assms(1)
      by (cases "ed_args e"; cases "tl (ed_args e)"; cases "hd (ed_args e)") (auto simp: step_args_def as_vals_def dict_update_def)
    then show ?thesis
      using tuple_eq_refl [of "ed_args e" eq] assms(2) by (simp add: payload_parity_def arg_get_def arg_eq_def)
  qed
qed

lemma parity_only_kwargs:
  assumes "ed_kwargs e \<noteq> []" "ed_args e = []" "distinct (map fst (ed_kwargs e))"
  shows "\<not> payload_parity eq (step_args e) (PSeq (ed_args e))"
proof -
  have "step_args e = as_vals (ed_kwargs e)"
    using assms(2,3) update_all [of "as_vals (ed_kwargs e)"] by (simp add: step_args_def as_vals_keys)
  moreover have "\<not> arg_eq eq (arg_get (as_vals (ed_kwargs e)) k) (Tuple [])" for k
    using as_vals_keys(2) [of "ed_kwargs e"]
    by (auto simp: arg_get_def arg_eq_def split: option.splits arg_val.splits dest!: map_of_SomeD) force
  ultimately show ?thesis
    using assms(1,2) by (simp add: payload_parity_def tuple_eq_def as_vals_def)
qed

text \<open>
  C38. After a rollback that compensated everything, the assertion accepts the tool names in last-in
  first-out order, and it accepts the effects' own descriptors if none has keyword arguments.
  But it refuses the very descriptors that were rolled back as soon as one of them has only
  keyword arguments, because a descriptor is compared by its positional arguments alone.
\<close>

theorem saga_assertion_descriptors:
  assumes "saga_init rt es = Inr h" "rollback h w = (Inr rep, h', w')" "sg_session_result rep = lit ''compensated''"
    and "\<And>v. eq v v" "\<And>e. e \<in> set es \<Longrightarrow> distinct (map fst (ed_kwargs e))"
    and "\<And>e d. e \<in> set es \<Longrightarrow> ed_args e = [JDict d] \<Longrightarrow> distinct (map fst d)"
  shows "assert_saga_rolled_back rt eq rep (map (\<lambda>e. ByName (ed_tool_name e)) (lifo es)) = Inr () \<and>
    ((\<forall>e \<in> set es. ed_kwargs e = []) \<longrightarrow>
       assert_saga_rolled_back rt eq rep (map (\<lambda>e. ByDescriptor (ed_tool_name e) (ed_args e)) (lifo es)) = Inr ()) \<and>
    ((\<exists>e \<in> set es. ed_args e = [] \<and> ed_kwargs e \<noteq> []) \<longrightarrow>
       assert_saga_rolled_back rt eq rep (map (\<lambda>e. ByDescriptor (ed_tool_name e) (ed_args e)) (lifo es)) \<noteq> Inr ())"
proof -
  have n: "assert_saga_rolled_back rt eq rep (map (\<lambda>e. ByName (ed_tool_name e)) (lifo es)) = Inr ()"
    using rollback_checked [OF assms(1-3), where x = "\<lambda>e. ByName (ed_tool_name e)" and p = "\<lambda>_. None" and eq = eq]
    by (simp add: expected_of_def)
  have d: "assert_saga_rolled_back rt eq rep (map (\<lambda>e. ByDescriptor (ed_tool_name e) (ed_args e)) (lifo es)) = Inr () \<longleftrightarrow>
      (\<forall>e \<in> set es. payload_parity eq (step_args e) (PSeq (ed_args e)))"
    using rollback_checked [OF assms(1-3), where x = "\<lambda>e. ByDescriptor (ed_tool_name e) (ed_args e)" and p = "\<lambda>e. Some (PSeq (ed_args e))"
      and eq = eq]
    by (simp add: expected_of_def)
  show ?thesis
    unfolding d using n parity_no_kwargs [where eq = eq] parity_only_kwargs [where eq = eq] assms(4-6) by blast
qed

theorem saga_assertion_descriptors_witness:
  "\<exists>h rep h' w'. saga_init no_runtime [sample_effect 1 (Inr JNull) [] [(lit ''id'', JInt 7)]] = Inr h \<and>
     rollback h [] = (Inr rep, h', w') \<and> assert_saga_rolled_back no_runtime (=) rep [ByName (show_int 1)] = Inr () \<and>
     assert_saga_rolled_back no_runtime (=) rep [ByDescriptor (show_int 1) []] \<noteq> Inr ()"
proof -
  let ?e = "sample_effect 1 (Inr JNull) [] [(lit ''id'', JInt 7)]"
  let ?h = "\<lparr>sh_effects = [?e], sh_last_report = None\<rparr>"
  have i: "saga_init no_runtime [?e] = Inr ?h" by (simp add: saga_init_def sample_effect_def)
  let ?rep = "\<lparr>sg_session_result = lit ''compensated'', sg_steps = [\<lparr>sr_tool_name = show_int 1, sr_stack_position = 1, sr_attempts = 1,
      sr_state = lit ''compensated'', sr_error = None, sr_args = [(lit ''id'', Val (JInt 7))], sr_dead_letter = False\<rparr>],
    sg_compensation_order = [show_int 1], sg_dead_letters = []\<rparr>"
  have r: "rollback ?h [] = (Inr ?rep, ?h\<lparr>sh_last_report := Some ?rep\<rparr>, [1])"
    by (simp add: rollback_def lifo_def sample_effect_def budget_def step_args_def as_vals_def dict_update_def Let_def numeral_2_eq_2)
  have "lifo [?e] = [?e]" by (simp add: lifo_def)
  then show ?thesis
    using saga_assertion_descriptors [OF i r, where eq = "(=)"] i r by (auto simp: sample_effect_def)
qed

end
