(* ===== verification/Ledger.thy ===== *)
theory Ledger
  imports JournalOps
begin

text \<open>
  What the journal promises, without its tables: a ledger that keeps for every effect its
  signature and its phase. The methods of \<^verbatim>\<open>DevJournal\<close> refine the steps of the ledger, and its
  lookup answers what the ledger holds.
\<close>

section \<open>Forward simulation\<close>

text \<open>
  A system with an invariant refines another when each of its steps is a step of the other under
  the abstraction; then each of its runs is.
\<close>

locale refinement =
  fixes inv :: "'c \<Rightarrow> bool" and abs :: "'c \<Rightarrow> 'a"
    and cstep :: "'c \<Rightarrow> 'e \<Rightarrow> 'c \<Rightarrow> bool" and astep :: "'a \<Rightarrow> 'e \<Rightarrow> 'a \<Rightarrow> bool"
  assumes inv_step: "inv c \<Longrightarrow> cstep c e c' \<Longrightarrow> inv c'"
    and sim_step: "inv c \<Longrightarrow> cstep c e c' \<Longrightarrow> astep (abs c) e (abs c')"
begin

lemma sim_run: "run cstep c es c' \<Longrightarrow> inv c \<Longrightarrow> run astep (abs c) es (abs c') \<and> inv c'"
  by (induction rule: run.induct) (auto intro: run.intros inv_step sim_step)

end

section \<open>The ledger\<close>

datatype phase = Open | Closed "pystr option" | Dead

type_synonym ledger = "pystr \<rightharpoonup> pystr \<times> phase"

definition holds :: "ledger \<Rightarrow> pystr \<Rightarrow> pystr \<Rightarrow> bool" where
  "holds m sg i \<longleftrightarrow> (\<exists>ph. m i = Some (sg, ph) \<and> ph \<noteq> Dead)"

definition put_phase :: "pystr \<Rightarrow> phase \<Rightarrow> bool \<Rightarrow> ledger \<Rightarrow> ledger \<Rightarrow> bool" where
  "put_phase i ph b m m' \<longleftrightarrow>
     (case m i of
        None \<Rightarrow> \<not> b \<and> m' = m
      | Some (sg, _) \<Rightarrow> b \<and> m' = m(i \<mapsto> (sg, ph)) \<and> (ph \<noteq> Dead \<longrightarrow> (\<forall>i'. holds m sg i' \<longrightarrow> i' = i)))"

text \<open>
  A signature is given to a new effect only while no effect holds it, and an effect takes it
  back only while no other does. A phase changes only by a report on that effect.
\<close>

fun ledger_step :: "ledger \<Rightarrow> journal_event \<Rightarrow> ledger \<Rightarrow> bool" where
  "ledger_step m (Created sg i) m' \<longleftrightarrow> m i = None \<and> (\<forall>i'. \<not> holds m sg i') \<and> m' = m(i \<mapsto> (sg, Open))"
| "ledger_step m (Refused sg) m' \<longleftrightarrow> m' = m"
| "ledger_step m (Commit i v b) m' \<longleftrightarrow> put_phase i (Closed (Some (json_dumps v))) b m m'"
| "ledger_step m (Fail i e b) m' \<longleftrightarrow> put_phase i Dead b m m'"
| "ledger_step m (Reject i b) m' \<longleftrightarrow> put_phase i Dead b m m'"
| "ledger_step m (Replay i b) m' \<longleftrightarrow> m' = m \<and> b = (m i \<noteq> None)"
| "ledger_step m (Resolve a st b) m' \<longleftrightarrow> m' = m"

section \<open>The journal as a ledger\<close>

definition phase_of :: "'z effect_row_scheme \<Rightarrow> phase" where
  "phase_of r = (if eff_status r = EFFECT_COMMITTED then Closed (eff_result r)
     else if eff_status r \<in> set LIVE_EFFECT_STATUSES then Open else Dead)"

definition ledger_of :: "journal \<Rightarrow> ledger" where
  "ledger_of j i = map_option (\<lambda>r. (eff_signature r, phase_of r)) (row_of j i)"

lemma phase_of_Dead: "phase_of r = Dead \<longleftrightarrow> \<not> is_live (r :: effect_row)"
  by (simp add: phase_of_def is_live_iff LIVE_EFFECT_STATUSES_def)

lemma row_of_iff:
  assumes "journal_ok j"
  shows "row_of j i = Some r \<longleftrightarrow> r \<in> set (effects j) \<and> eff_id r = i"
proof
  assume "r \<in> set (effects j) \<and> eff_id r = i"
  moreover from this obtain x where x: "row_of j i = Some x"
    unfolding row_of_def by (cases "List.find (\<lambda>r. eff_id r = i) (effects j)") (auto simp: find_None_iff)
  then have "x \<in> set (effects j)" "eff_id x = i" by (auto simp: row_of_def find_Some_iff)
  ultimately show "row_of j i = Some r" using journal_okD(1) [OF assms] x by (auto simp: distinct_map dest: inj_onD)
qed (auto simp: row_of_def find_Some_iff)

lemma row_of_None: "row_of j i = None \<longleftrightarrow> i \<notin> eff_id ` set (effects j)"
  by (auto simp: row_of_def find_None_iff)

lemma ledger_of_Some:
  "journal_ok j \<Longrightarrow> ledger_of j i = Some (sg, ph) \<longleftrightarrow>
     (\<exists>r \<in> set (effects j). eff_id r = i \<and> eff_signature r = sg \<and> phase_of r = ph)"
  by (auto simp: ledger_of_def row_of_iff)

lemma ledger_of_None: "ledger_of j i = None \<longleftrightarrow> i \<notin> eff_id ` set (effects j)"
  by (simp add: ledger_of_def row_of_None)

lemma holds_iff: "journal_ok j \<Longrightarrow> holds (ledger_of j) sg i \<longleftrightarrow> (\<exists>r. live_row j sg = Some r \<and> eff_id r = i)"
  by (auto simp: holds_def ledger_of_Some live_row_iff phase_of_Dead)

lemma find_map_same: "(\<And>x. P (f x) = P x) \<Longrightarrow> List.find P (map f xs) = map_option f (List.find P xs)"
  by (induction xs) auto

lemma find_snoc: "List.find P (xs @ [y]) = (case List.find P xs of None \<Rightarrow> if P y then Some y else None | Some x \<Rightarrow> Some x)"
  by (induction xs) auto

text \<open>An update of one row, as the ledger sees it.\<close>

lemma ledger_of_update:
  assumes "keeps_identity f" "effects j' = map (update_row i f) (effects j)"
  shows "ledger_of j' = (case row_of j i of None \<Rightarrow> ledger_of j | Some r \<Rightarrow> (ledger_of j)(i \<mapsto> (eff_signature r, phase_of (f r))))"
proof
  fix x
  have "row_of j' x = map_option (update_row i f) (row_of j x)"
    unfolding row_of_def assms(2) by (rule find_map_same) (simp add: update_row_keeps [OF assms(1)])
  moreover have "eff_id r = x" if "row_of j x = Some r" for r using that by (auto simp: row_of_def find_Some_iff)
  ultimately show "ledger_of j' x = (case row_of j i of None \<Rightarrow> ledger_of j | Some r \<Rightarrow> (ledger_of j)(i \<mapsto> (eff_signature r, phase_of (f r)))) x"
    using assms(1) by (cases "row_of j x"; cases "row_of j i") (auto simp: ledger_of_def update_row_def keeps_identity_def)
qed

lemma update_refines:
  assumes "journal_ok j" "update_effect now i st res er j = Inr (b, j')" "st \<noteq> EFFECT_AWAITING_APPROVAL"
    and "st \<noteq> EFFECT_COMMITTED \<Longrightarrow> st \<notin> set LIVE_EFFECT_STATUSES"
  shows "put_phase i (if st = EFFECT_COMMITTED then Closed res else Dead) b (ledger_of j) (ledger_of j')"
proof -
  let ?f = "\<lambda>r. r\<lparr>eff_status := st, eff_result := res, eff_error := er, eff_updated := now\<rparr>"
  obtain n rs where u: "update_effects i ?f [] (effects j) = Inr (n, rs)" "b = (n > 0)" "j' = j\<lparr>effects := rs\<rparr>"
    using assms(2) unfolding update_effect_Inr by blast
  have f: "keeps_identity ?f" by (rule keeps_identity_status [OF assms(3)])
  note ue = update_effects_Inr [OF assms(1) f u(1)]
  have l: "ledger_of j' = (case row_of j i of None \<Rightarrow> ledger_of j
      | Some r \<Rightarrow> (ledger_of j)(i \<mapsto> (eff_signature r, if st = EFFECT_COMMITTED then Closed res else Dead)))"
    using ledger_of_update [OF f, of j' i j] ue(1) u(3) assms(4) by (simp add: phase_of_def cong: option.case_cong)
  show ?thesis
  proof (cases "row_of j i")
    case None
    then have "\<not> b" using ue(2) u(2) by (simp add: row_of_None)
    then show ?thesis using l None by (simp add: put_phase_def ledger_of_def)
  next
    case (Some r)
    then have r: "r \<in> set (effects j)" "eff_id r = i" using row_of_iff [OF assms(1)] by auto
    have "i' = i" if "st = EFFECT_COMMITTED" "live_row j (eff_signature r) = Some r'" "eff_id r' = i'" for i' r'
      using ue(3) [OF r(1) _ r(2), of r'] that live_row_SomeD [OF that(2)] by (auto simp: is_live_iff)
    then show ?thesis
      using l ue(2) u(2) r Some by (auto simp: put_phase_def ledger_of_def holds_iff [OF assms(1)])
  qed
qed

lemma create_refines:
  assumes "journal_ok j" "create_effect i now org ses tool step args sg st aid ver tier j = Inr (x, j')"
    and "st = EFFECT_EXECUTING \<or> st = EFFECT_AWAITING_APPROVAL"
  shows "case x of None \<Rightarrow> j' = j | Some i' \<Rightarrow> ledger_step (ledger_of j) (Created sg i') (ledger_of j')"
proof -
  let ?r = "new_effect_row i now org ses tool step args sg st aid ver tier"
  have l: "is_live ?r" "phase_of ?r = Open" using assms(3) by (auto simp: is_live_iff phase_of_def LIVE_EFFECT_STATUSES_def)
  show ?thesis
  proof (cases "effect_conflict (effects j) ?r")
    case True
    then show ?thesis using create_effect_Inr [OF assms(2)] by simp
  next
    case False
    then have x: "x = Some i" "effects j' = effects j @ [?r]" using create_effect_Inr [OF assms(2)] by (auto simp: journal.defs)
    have n: "row_of j i = None" "live_row j sg = None"
      using False l(1) unfolding conflict_iff row_of_None live_row_None by auto
    have "row_of j' y = (if y = i then Some ?r else row_of j y)" for y
      using n(1) by (auto simp: row_of_def x(2) find_snoc split: option.splits)
    then have "ledger_of j' = (ledger_of j)(i \<mapsto> (sg, Open))" using l(2) by (auto simp: ledger_of_def)
    then show ?thesis using x(1) n holds_iff [OF assms(1)] by (simp add: ledger_of_def)
  qed
qed

lemma replay_refines:
  assumes "journal_ok j" "record_replay now i j = Inr (b, j')"
  shows "ledger_of j' = ledger_of j \<and> b = (ledger_of j i \<noteq> None)"
proof -
  let ?f = "\<lambda>r. r\<lparr>eff_replays := eff_replays r + 1, eff_last_replayed := Some now, eff_updated := now\<rparr>"
  obtain n rs where u: "update_effects i ?f [] (effects j) = Inr (n, rs)" "b = (n > 0)" "j' = j\<lparr>effects := rs\<rparr>"
    using assms(2) unfolding record_replay_Inr by blast
  note ue = update_effects_Inr [OF assms(1) keeps_identity_replay u(1)]
  have "ledger_of j' = (case row_of j i of None \<Rightarrow> ledger_of j | Some r \<Rightarrow> (ledger_of j)(i \<mapsto> (eff_signature r, phase_of (?f r))))"
    by (rule ledger_of_update [OF keeps_identity_replay]) (simp add: u(3) ue(1))
  moreover have "phase_of (?f r) = phase_of r" for r :: effect_row by (simp add: phase_of_def)
  ultimately have "ledger_of j' = ledger_of j" by (cases "row_of j i") (auto simp: ledger_of_def)
  then show ?thesis using u(2) ue(2) by (simp add: ledger_of_None)
qed

lemma resolve_refines: "resolve_approval now a st j = Inr (b, j') \<Longrightarrow> ledger_of j' = ledger_of j"
  by (auto simp: resolve_approval_Inr ledger_of_def row_of_def)

interpretation jr: refinement journal_ok ledger_of journal_step ledger_step
proof
  fix j ev j'
  assume ok: "journal_ok j" and st: "journal_step j ev j'"
  show "journal_ok j'" using journal_step_ok [OF st ok] .
  show "ledger_step (ledger_of j) ev (ledger_of j')"
    using st
  proof (cases rule: journal_step.cases)
    case (create i now org ses tool step args sg st aid ver tier i')
    then show ?thesis using create_refines [OF ok create(2)] by auto
  next
    case (refuse i now org ses tool step args sg st aid ver tier)
    then show ?thesis using create_effect_Inr [OF refuse(2)] by (auto split: if_splits)
  next
    case (commit now i v b)
    then show ?thesis using update_refines [OF ok commit(2) [unfolded record_commit_def]] by simp
  next
    case (fail now i e b)
    then show ?thesis
      using update_refines [OF ok fail(2) [unfolded record_fail_def]] by (simp add: LIVE_EFFECT_STATUSES_def status_defs)
  next
    case (reject now i b)
    then show ?thesis
      using update_refines [OF ok reject(2) [unfolded mark_rejected_def]] by (simp add: LIVE_EFFECT_STATUSES_def status_defs)
  next
    case (replay now i b)
    then show ?thesis using replay_refines [OF ok replay(2)] by simp
  next
    case (resolve now a st b)
    then show ?thesis using resolve_refines by simp
  qed
qed

section \<open>Refinement\<close>

text \<open>
  C6. The journal refines the ledger. Every sequence of journal calls, made by any number of
  request threads, is a sequence of ledger steps: a signature belongs to at most one effect, a
  result is set only by the report of that effect, and a failure or rejection releases the
  signature. What the journal's lookup returns is what the ledger holds: the effect that holds
  the signature with its phase, and nothing only if no effect holds it.
\<close>

theorem journal_refines_ledger:
  assumes "run journal_step empty_journal evs j" "find_live_effect rt sg j = Inr x"
  shows "run ledger_step Map.empty evs (ledger_of j) \<and>
    (case x of
       None \<Rightarrow> \<forall>i. \<not> holds (ledger_of j) sg i
     | Some e \<Rightarrow> ledger_of j (eff_id e) = Some (sg, phase_of e) \<and> (\<forall>i. holds (ledger_of j) sg i \<longleftrightarrow> i = eff_id e))"
proof -
  have e: "ledger_of empty_journal = Map.empty" by (auto simp: ledger_of_def row_of_def empty_journal_def)
  from jr.sim_run [OF assms(1) empty_journal_ok] have r: "run ledger_step Map.empty evs (ledger_of j)" and ok: "journal_ok j"
    unfolding e by blast+
  have "case x of
       None \<Rightarrow> \<forall>i. \<not> holds (ledger_of j) sg i
     | Some e \<Rightarrow> ledger_of j (eff_id e) = Some (sg, phase_of e) \<and> (\<forall>i. holds (ledger_of j) sg i \<longleftrightarrow> i = eff_id e)"
  proof (cases "live_row j sg")
    case None
    then have "x = None" using assms(2) by (auto simp: find_live_effect_def live_row_def rbind_eq_Inr_iff)
    with None show ?thesis by (simp add: holds_iff [OF ok])
  next
    case (Some r)
    then obtain e where "x = Some e" "effect_to_dict rt r = Inr e"
      using assms(2) by (auto simp: find_live_effect_def live_row_def rbind_eq_Inr_iff)
    moreover from this have "eff_id e = eff_id r" "phase_of e = phase_of r"
      by (auto simp: effect_to_dict_def rbind_eq_Inr_iff effect_row.defs phase_of_def)
    ultimately show ?thesis
      using live_row_SomeD [OF Some] Some ledger_of_Some [OF ok] by (auto simp: holds_iff [OF ok])
  qed
  with r show ?thesis by blast
qed

theorem journal_refines_ledger_witness:
  "\<exists>j m. run journal_step empty_journal [Created (lit ''sig'') (lit ''e1''), Commit (lit ''e1'') (JInt 7) True] j \<and>
     run ledger_step Map.empty [Created (lit ''sig'') (lit ''e1''), Commit (lit ''e1'') (JInt 7) True] m \<and>
     m (lit ''e1'') = Some (lit ''sig'', Closed (Some (json_dumps (JInt 7))))"
proof -
  let ?evs = "[Created (lit ''sig'') (lit ''e1''), Commit (lit ''e1'') (JInt 7) True]"
  let ?c = "create_effect (lit ''e1'') (lit ''t'') (lit ''org'') (lit ''ses'') (lit ''pay'') 1 (JDict []) (lit ''sig'')
    EFFECT_EXECUTING None (lit ''1.0.0'') None empty_journal"
  let ?j1 = "snd (projr ?c)" let ?d = "record_commit (lit ''u'') (lit ''e1'') (JInt 7) ?j1" let ?j2 = "snd (projr ?d)"
  have e: "?c = Inr (Some (lit ''e1''), ?j1)" "?d = Inr (True, ?j2)"
    "find_live_effect no_runtime (lit ''sig'') ?j2 = Inr (projr (find_live_effect no_runtime (lit ''sig'') ?j2))" by code_simp+
  then have r: "run journal_step empty_journal ?evs ?j2" by (auto intro!: run.intros intro: journal_step.intros)
  have "ledger_of ?j2 (lit ''e1'') = Some (lit ''sig'', Closed (Some (json_dumps (JInt 7))))" by code_simp
  with r journal_refines_ledger [OF r e(3)] show ?thesis by blast
qed

end
