(* ===== verification/DevService.thy ===== *)
theory DevService
  imports Decorator CallStories
begin

text \<open>
  The SDK on the dev server: a transport that delivers each request of the client to the handlers
  of \<^verbatim>\<open>dev.py\<close> over a connection of its own. The dev server then keeps the contract that the
  wrapper of \<^verbatim>\<open>decorators.py\<close> relies on.
\<close>

section \<open>The transport\<close>

definition request_conn :: "request \<Rightarrow> bytes \<Rightarrow> conn" where
  "request_conn rq bs =
     \<lparr>c_command = rq_method rq, c_path = rq_url rq,
      c_headers = (lit ''Content-Length'', show_nat (length bs)) # (lit ''Content-Type'', lit ''application/json'') # rq_headers rq,
      c_rfile = bs, c_sent = [], c_close = False, c_body_read = False, c_request_id = None\<rparr>"

text \<open>
  \<open>enc\<close> is the JSON encoder of the HTTP library. A request that is not answered is an error of
  the transport. The second half of the state is the world of the tools.
\<close>

definition dev_transport ::
  "world \<Rightarrow> config \<Rightarrow> (json \<Rightarrow> py_exc + bytes) \<Rightarrow> undolog_client \<Rightarrow> (server \<times> 'a) transport" where
  "dev_transport w cfg enc cl rq = (\<lambda>(s, a).
     case enc (rq_json rq) of
       Inl e \<Rightarrow> (EncodeFailed e, (s, a))
     | Inr bs \<Rightarrow>
         (case hrun w (dispatch (w_rt w) cfg) (request_conn rq bs) s of
            ((c, r), s') \<Rightarrow>
              (case (r, c_sent c) of
                 (Inr _, [rsp]) \<Rightarrow>
                   (Responded \<lparr>rp_status = rs_status rsp, rp_content = rs_body rsp, rp_url = cl_base_url cl @ rq_url rq\<rparr>, (s', a))
               | _ \<Rightarrow>
                   (TransportFailed \<lparr>hx_kind = OtherHTTPError, hx_text = lit ''Server disconnected without sending a response.'',
                      hx_url = Some (cl_base_url cl @ rq_url rq)\<rparr>, (s', a)))))"

text \<open>The body arrives as it was sent.\<close>

definition sends :: "runtime \<Rightarrow> (json \<Rightarrow> py_exc + bytes) \<Rightarrow> json \<Rightarrow> bool" where
  "sends rt enc v \<longleftrightarrow>
     (case enc v of
        Inl _ \<Rightarrow> False
      | Inr bs \<Rightarrow> bs \<noteq> [] \<and> length bs \<le> MAX_BODY_BYTES \<and> json_loads_bytes rt bs = Inr v)"

lemma dev_transport_reply:
  assumes "enc (rq_json rq) = Inr bs" "reply w (dispatch (w_rt w) cfg) (request_conn rq bs) s st v s'"
  shows "dev_transport w cfg enc cl rq (s, a) =
    (Responded \<lparr>rp_status = st, rp_content = json_dumps v, rp_url = cl_base_url cl @ rq_url rq\<rparr>, (s', a))"
proof -
  obtain c x rsp where "hrun w (dispatch (w_rt w) cfg) (request_conn rq bs) s = ((c, Inr x), s')"
    "c_sent c = [rsp]" "rs_status rsp = st" "rs_body rsp = json_dumps v"
    using assms(2) by (auto simp: reply_def request_conn_def)
  with assms(1) show ?thesis by (simp add: dev_transport_def)
qed

section \<open>Text that arrives\<close>

lemma utf8_decode_ascii: "\<forall>c \<in> set s. c < 128 \<Longrightarrow> utf8_decode f s = Some s"
  by (induction s) (subst utf8_decode.simps, auto)+

lemma text_of_ascii:
  assumes "list_all (\<lambda>c. 32 \<le> c \<and> c < 128) bs"
  shows "json_text_of_bytes bs = Some bs"
proof -
  have z: "bs ! i \<noteq> 0" if "i < length bs" for i using assms that by (fastforce simp: list_all_length)
  have p: "\<not> prefix (x # xs) bs" if "x < 32 \<or> 128 \<le> x" for x xs using assms that by (cases bs) auto
  have "utf8_decode errors_surrogatepass bs = Some bs"
    using assms by (intro utf8_decode_ascii) (simp add: list_all_iff)
  moreover have "\<not> (4 \<le> length bs \<and> bs ! 0 = 0)" "\<not> (4 \<le> length bs \<and> bs ! 1 = 0)"
      "\<not> (length bs = 2 \<and> bs ! 0 = 0)" "\<not> (length bs = 2 \<and> bs ! 1 = 0)"
    using z [of 0] z [of 1] by linarith+
  moreover have "\<not> prefix [0x00, 0x00, 0xFE, 0xFF] bs" "\<not> prefix [0xFF, 0xFE, 0x00, 0x00] bs" "\<not> prefix [0xFE, 0xFF] bs"
      "\<not> prefix [0xFF, 0xFE] bs" "\<not> prefix [0xEF, 0xBB, 0xBF] bs"
    using p by simp_all
  ultimately show ?thesis
    unfolding json_text_of_bytes_def Let_def by (simp only: if_False)
qed

lemma loads_bytes_dumps:
  assumes "doubles rt v" "wf_json v"
  shows "json_loads_bytes rt (json_dumps v) = Inr v"
proof -
  have "json_text_of_bytes (json_dumps v) = Some (json_dumps v)"
    using dumps_ascii [OF assms(2)] by (intro text_of_ascii) (simp add: list_all_iff)
  moreover have "json_decode rt (json_dumps v) = Some v"
    using json_loads_dumps [OF assms] dumps_no_bom [OF assms(2)] unfolding json_loads_def
    by (cases "json_decode rt (json_dumps v)") (simp_all only: option.case if_False sum.distinct sum.inject)
  ultimately show ?thesis unfolding json_loads_bytes_def by (simp only: option.case)
qed

definition plain_path :: "pystr \<Rightarrow> bool" where
  "plain_path p \<longleftrightarrow> hd p = 47 \<and> 1 < length p \<and> p ! 1 \<noteq> 47 \<and> list_all (\<lambda>c. c \<notin> {9, 10, 13, 35, 59, 63}) p"

lemma urlparse_plain:
  assumes "plain_path p"
  shows "urlparse rt p = Inr (p, [])"
proof -
  obtain c q where p: "p = 47 # c # q" "c \<noteq> 47"
    using assms by (cases p; cases "tl p") (auto simp: plain_path_def)
  have cs: "c \<notin> {9, 10, 13, 35, 59, 63}" "list_all (\<lambda>c. c \<notin> {9, 10, 13, 35, 59, 63}) q"
    using assms p by (auto simp: plain_path_def)
  have f: "filter (\<lambda>c. c \<notin> {9, 10, 13}) p = p"
    using assms by (intro filter_True) (auto simp: plain_path_def list_all_iff)
  have "35 \<notin> set p" "63 \<notin> set p" "59 \<notin> set p" using assms by (auto simp: plain_path_def list_all_iff)
  note pt = partition_none [OF this(1)] partition_none [OF this(2)] and semi = this(3)
  have "split_scheme p = ([], p)" by (simp add: split_scheme_def p ascii_alpha_def split: option.split)
  moreover have "split_params p = p"
  proof -
    let ?l = "rev (takeWhile (\<lambda>c. c \<noteq> 47) (rev p))"
    have s: "p = rev (dropWhile (\<lambda>c. c \<noteq> 47) (rev p)) @ ?l" by (metis rev_append rev_rev_ident takeWhile_dropWhile_id)
    then have "\<forall>x \<in> set ?l. x \<noteq> 59" using semi by (metis Un_iff set_append)
    then have "takeWhile (\<lambda>c. c \<noteq> 59) ?l = ?l" by (simp only: takeWhile_eq_all_conv)
    moreover have "take (length p - length ?l) p @ ?l = p" by (subst (2 4) s) (metis append_eq_conv_conj diff_add_inverse2 length_append s)
    ultimately show ?thesis unfolding split_params_def Let_def by (simp only:)
  qed
  ultimately show ?thesis using pt f by (simp add: urlparse_def Let_def p uses_params_def lit_def)
qed

section \<open>The requests of the client\<close>

definition key_org :: "pystr \<Rightarrow> pystr" where
  "key_org org = (if org = [] then DEFAULT_ORG_ID else org)"

lemma header_names:
  "py_lower (lit ''Content-Length'') = lit ''content-length''" "py_lower (lit ''Content-Type'') = lit ''content-type''"
  "py_lower (lit ''X-UndoLog-Org-Id'') = lit ''x-undolog-org-id''"
  "py_lower (lit ''X-UndoLog-Session-Id'') = lit ''x-undolog-session-id''" "py_lower (lit ''X-Api-Key'') = lit ''x-api-key''"
  "py_lower (lit ''Transfer-Encoding'') = lit ''transfer-encoding''" "py_lower (lit ''X-Org-Id'') = lit ''x-org-id''"
  by code_simp+

lemma request_headers:
  assumes "rq_headers rq = client_headers cl org ses"
  shows "\<not> chunked (request_conn rq bs)" "content_length (request_conn rq bs) = Some (int (length bs))"
    "org_id_of (request_conn rq bs) = key_org org"
proof -
  have "py_int 10 (show_nat (length bs)) = Some (int (length bs))"
    using py_int_show_int [of "int (length bs)"] by (simp add: show_int_def)
  then show "\<not> chunked (request_conn rq bs)" "content_length (request_conn rq bs) = Some (int (length bs))"
    "org_id_of (request_conn rq bs) = key_org org"
    using assms
    by (auto simp: chunked_def content_length_def org_id_of_def key_org_def header_get_def request_conn_def client_headers_def
        header_names split: list.splits)
qed

lemma request_body:
  assumes "rq_headers rq = client_headers cl org ses" "rq_json rq = JDict d" "enc (JDict d) = Inr bs" "sends rt enc (JDict d)"
  shows "snd (parse_body rt (request_conn rq bs)) = Inr d"
proof -
  have b: "bs \<noteq> []" "length bs \<le> MAX_BODY_BYTES" "json_loads_bytes rt bs = Inr (JDict d)"
    using assms(3,4) by (simp_all add: sends_def)
  have "c_rfile (request_conn rq bs) = bs" by (simp add: request_conn_def)
  then have "snd (read_raw (request_conn rq bs)) = Inr (bs, False)"
    using request_headers [OF assms(1), of bs] b(1,2) by (simp add: read_raw_def stream_read_def)
  with b show ?thesis by (auto simp: parse_body_def decode_body_def split: prod.splits)
qed

section \<open>The contract\<close>

record call_key =
  ck_org :: pystr
  ck_session :: pystr
  ck_tool :: pystr
  ck_step :: int
  ck_args :: "json dict"

definition key_call :: "call_key \<Rightarrow> tool_call" where
  "key_call k = \<lparr>tc_session = ck_session k, tc_tool = ck_tool k, tc_args = JDict (ck_args k), tc_step = ck_step k,
     tc_version = lit ''1.0.0''\<rparr>"

definition key_request :: "undolog_client \<Rightarrow> call_key \<Rightarrow> request" where
  "key_request cl k = intercept_request cl (ck_org k) (ck_session k) (ck_tool k) (ck_step k) (ck_args k)"

definition key_signature :: "runtime \<Rightarrow> call_key \<Rightarrow> py_exc + pystr" where
  "key_signature rt k = call_signature rt (ck_session k) (ck_step k) (ck_tool k) (JDict (ck_args k))"

definition dev_call_ok :: "world \<Rightarrow> (json \<Rightarrow> py_exc + bytes) \<Rightarrow> undolog_client \<Rightarrow> call_key \<Rightarrow> bool" where
  "dev_call_ok w enc cl k \<longleftrightarrow>
     sends (w_rt w) enc (rq_json (key_request cl k)) \<and> ck_session k \<noteq> [] \<and> ck_tool k \<noteq> [] \<and>
     doubles (w_rt w) (JDict (ck_args k)) \<and>
     (case key_signature (w_rt w) k of Inl _ \<Rightarrow> False | Inr sg \<Rightarrow> call_ok (key_call k) (key_org (ck_org k)) sg)"

definition dev_key_ok :: "world \<Rightarrow> config \<Rightarrow> (json \<Rightarrow> py_exc + bytes) \<Rightarrow> undolog_client \<Rightarrow> call_key \<Rightarrow> bool" where
  "dev_key_ok w cfg enc cl k \<longleftrightarrow> dev_call_ok w enc cl k \<and> \<not> tool_requires_approval cfg (ck_tool k)"

lemma dev_call_okE:
  assumes "dev_call_ok w enc cl k"
  obtains sg bs where "key_signature (w_rt w) k = Inr sg" "call_ok (key_call k) (key_org (ck_org k)) sg"
    "enc (rq_json (key_request cl k)) = Inr bs"
  using assms by (auto simp: dev_call_ok_def sends_def split: sum.splits)

text \<open>Identifiers look like those of \<^verbatim>\<open>uuid4\<close> and do not repeat.\<close>

definition id_char :: "nat \<Rightarrow> bool" where
  "id_char c \<longleftrightarrow> c = 45 \<or> 48 \<le> c \<and> c \<le> 57 \<or> 97 \<le> c \<and> c \<le> 122"

definition good_ids :: "world \<Rightarrow> bool" where
  "good_ids w \<longleftrightarrow> inj (w_uuid w) \<and> (\<forall>n. w_uuid w n \<noteq> [] \<and> list_all id_char (w_uuid w n))"

definition drawn :: "world \<Rightarrow> server \<Rightarrow> bool" where
  "drawn w s \<longleftrightarrow> set (map eff_id (effects (srv_journal s)) @ map app_id (approvals (srv_journal s))) \<subseteq> w_uuid w ` {..<srv_uuids s}"

definition dev_ok :: "world \<Rightarrow> server \<times> 'a \<Rightarrow> bool" where
  "dev_ok w st \<longleftrightarrow> good_ids w \<and> journal_ok (srv_journal (fst st)) \<and> drawn w (fst st)"

definition dev_entry :: "world \<Rightarrow> server \<times> 'a \<Rightarrow> call_key \<Rightarrow> entry" where
  "dev_entry w st k =
     (case key_signature (w_rt w) k of
        Inl _ \<Rightarrow> Held
      | Inr sg \<Rightarrow>
          (case live_row (srv_journal (fst st)) sg of
             None \<Rightarrow> Free
           | Some r \<Rightarrow>
               (case effect_to_dict (w_rt w) r of
                  Inl _ \<Rightarrow> Held
                | Inr e \<Rightarrow>
                    (let v = (case dec_result e of None \<Rightarrow> JNull | Some v \<Rightarrow> v) in
                     if eff_status r = EFFECT_COMMITTED \<and> wf_json v \<and> doubles (w_rt w) v then Settled v
                     else if eff_status r = EFFECT_EXECUTING then Running (eff_id r)
                     else Held))))"

definition dev_result_ok :: "world \<Rightarrow> (json \<Rightarrow> py_exc + bytes) \<Rightarrow> call_key \<Rightarrow> json \<Rightarrow> bool" where
  "dev_result_ok w enc k v \<longleftrightarrow> wf_json v \<and> doubles (w_rt w) v \<and> (case v of JDict _ \<Rightarrow> True | _ \<Rightarrow> False) \<and>
     sends (w_rt w) enc (JDict [(lit ''session_id'', JStr (ck_session k)), (lit ''result'', v)])"

definition dev_error_ok :: "world \<Rightarrow> (json \<Rightarrow> py_exc + bytes) \<Rightarrow> call_key \<Rightarrow> pystr \<Rightarrow> bool" where
  "dev_error_ok w enc k m \<longleftrightarrow> encodable m \<and>
     sends (w_rt w) enc (JDict [(lit ''session_id'', JStr (ck_session k)), (lit ''error'', JStr m)])"

lemma id_chars:
  assumes "list_all id_char i" "i \<noteq> []"
  shows "encodable i" "wf_str i" "47 \<notin> set i" "list_all (\<lambda>c. c \<notin> {9, 10, 13, 35, 59, 63}) i"
proof -
  show "encodable i" using assms by (auto simp: encodable_def list_ex_iff list_all_iff is_surrogate_def id_char_def)
  show "47 \<notin> set i" "list_all (\<lambda>c. c \<notin> {9, 10, 13, 35, 59, 63}) i"
    using assms by (auto simp: list_all_iff id_char_def)
  show "wf_str i"
    using assms(1) by (induction i rule: wf_str.induct) (auto simp: id_char_def is_high_def)
qed

lemma drawn_fresh:
  assumes "good_ids w" "drawn w s"
  shows "fresh_ids w s"
proof -
  have "w_uuid w n \<notin> w_uuid w ` {..<srv_uuids s}" if "srv_uuids s \<le> n" for n
    using assms(1) that by (auto simp: good_ids_def inj_eq)
  moreover have "encodable (w_uuid w n)" for n using assms(1) id_chars(1) by (simp add: good_ids_def)
  moreover have "eff_id ` set (effects (srv_journal s)) \<subseteq> w_uuid w ` {..<srv_uuids s}"
      "app_id ` set (approvals (srv_journal s)) \<subseteq> w_uuid w ` {..<srv_uuids s}"
    using assms(2) by (simp_all add: drawn_def)
  ultimately show ?thesis unfolding fresh_ids_def by blast
qed

lemma drawn_id: "good_ids w \<Longrightarrow> drawn w s \<Longrightarrow> r \<in> set (effects (srv_journal s)) \<Longrightarrow> list_all id_char (eff_id r) \<and> eff_id r \<noteq> []"
  by (auto simp: good_ids_def drawn_def)

lemma drawn_same:
  assumes "drawn w s" "same_ids s s'"
  shows "drawn w s'"
proof -
  have "w_uuid w ` {..<srv_uuids s} \<subseteq> w_uuid w ` {..<srv_uuids s'}" using assms(2) by (intro image_mono) (auto simp: same_ids_def)
  then show ?thesis using assms unfolding drawn_def same_ids_def by (auto simp del: set_map)
qed

lemma key_tool_request:
  assumes "dev_call_ok w enc cl k" "key_signature (w_rt w) k = Inr sg" "enc (rq_json (key_request cl k)) = Inr bs"
  shows "tool_request (w_rt w) (request_conn (key_request cl k) bs) (key_call k) sg"
proof -
  let ?d = "[(lit ''session_id'', JStr (ck_session k)), (lit ''tool_name'', JStr (ck_tool k)),
    (lit ''tool_version'', JStr (lit ''1.0.0'')), (lit ''step_index'', JInt (ck_step k)), (lit ''args'', JDict (ck_args k))]"
  have q: "rq_headers (key_request cl k) = client_headers cl (ck_org k) (ck_session k)" "rq_json (key_request cl k) = JDict ?d"
    by (simp_all add: key_request_def intercept_request_def)
  have b: "snd (parse_body (w_rt w) (request_conn (key_request cl k) bs)) = Inr ?d"
    using request_body [OF q, of enc bs "w_rt w"] assms(1,3) q(2) by (simp add: dev_call_ok_def)
  have "plain_path (lit ''/mcp/tool_call'')" by code_simp
  note u = urlparse_plain [OF this, of "w_rt w"]
  have k: "ck_session k \<noteq> []" "ck_tool k \<noteq> []" "0 \<le> ck_step k"
    using assms(1,2) by (auto simp: dev_call_ok_def call_ok_def key_call_def)
  have "tool_call_of_body (w_rt w) ?d = Inr (key_call k)"
    using k by (simp add: tool_call_of_body_def key_call_def Let_def)
  with b u assms(2) show ?thesis
    by (simp add: tool_request_def request_conn_def key_request_def intercept_request_def key_signature_def key_call_def)
qed

section \<open>The dev server keeps the contract\<close>

abbreviation dev_ic :: "world \<Rightarrow> config \<Rightarrow> (json \<Rightarrow> py_exc + bytes) \<Rightarrow> undolog_client \<Rightarrow> call_key \<Rightarrow> server \<times> 'a \<Rightarrow>
    (client_exc + InterceptResponse) \<times> server \<times> 'a" where
  "dev_ic w cfg enc cl k \<equiv> intercept (w_rt w) (dev_transport w cfg enc cl) cl (ck_org k) (ck_session k) (ck_tool k) (ck_step k) (ck_args k)"

abbreviation dev_cm :: "world \<Rightarrow> config \<Rightarrow> (json \<Rightarrow> py_exc + bytes) \<Rightarrow> undolog_client \<Rightarrow> call_key \<Rightarrow> json \<Rightarrow> json \<Rightarrow> server \<times> 'a \<Rightarrow>
    (client_exc + json) \<times> server \<times> 'a" where
  "dev_cm w cfg enc cl k \<equiv> commit (w_rt w) (dev_transport w cfg enc cl) cl (ck_org k) (ck_session k)"

abbreviation dev_fl :: "world \<Rightarrow> config \<Rightarrow> (json \<Rightarrow> py_exc + bytes) \<Rightarrow> undolog_client \<Rightarrow> call_key \<Rightarrow> json \<Rightarrow> pystr \<Rightarrow> server \<times> 'a \<Rightarrow>
    (client_exc + json) \<times> server \<times> 'a" where
  "dev_fl w cfg enc cl k \<equiv> fail (w_rt w) (dev_transport w cfg enc cl) cl (ck_org k) (ck_session k)"

lemma dev_entry_journal: "srv_journal s' = srv_journal s \<Longrightarrow> dev_entry w (s', b) k = dev_entry w (s, a) k"
  unfolding dev_entry_def fst_conv by (rule arg_cong)

lemma effect_to_dict_same:
  "effect_to_dict rt r = Inr e \<Longrightarrow> eff_args r' = eff_args r \<Longrightarrow> eff_result r' = eff_result r \<Longrightarrow>
     \<exists>e'. effect_to_dict rt r' = Inr e' \<and> dec_result e' = dec_result e"
  by (auto simp: effect_to_dict_def rbind_eq_Inr_iff effect_row.defs)

text \<open>A call that is settled stays settled.\<close>

definition settled_kept :: "world \<Rightarrow> server \<times> 'a \<Rightarrow> server \<times> 'a \<Rightarrow> bool" where
  "settled_kept w st st' \<longleftrightarrow> (\<forall>k v. dev_entry w st k = Settled v \<longrightarrow> dev_entry w st' k = Settled v)"

lemma settled_keptI:
  assumes "keeps_settled (srv_journal s) (srv_journal s')"
  shows "settled_kept w (s, a) (s', b)"
  unfolding settled_kept_def
proof (intro allI impI)
  fix k v assume "dev_entry w (s, a) k = Settled v"
  then obtain sg r e where r: "key_signature (w_rt w) k = Inr sg" "live_row (srv_journal s) sg = Some r" "effect_to_dict (w_rt w) r = Inr e"
      "eff_status r = EFFECT_COMMITTED" "v = (case dec_result e of None \<Rightarrow> JNull | Some v \<Rightarrow> v)" "wf_json v \<and> doubles (w_rt w) v"
    by (auto simp: dev_entry_def Let_def split: option.splits sum.splits if_splits)
  then obtain r' where r': "live_row (srv_journal s') sg = Some r'" "eff_status r' = EFFECT_COMMITTED" "eff_result r' = eff_result r"
      "eff_args r' = eff_args r"
    using assms unfolding keeps_settled_def by blast
  then show "dev_entry w (s', b) k = Settled v" using effect_to_dict_same [OF r(3) r'(4,3)] r by (auto simp: dev_entry_def)
qed

lemma status_success [simp]: "200 \<le> code \<Longrightarrow> code < 300 \<Longrightarrow> status_error \<lparr>rp_status = code, rp_content = c, rp_url = u\<rparr> = None"
  by (simp add: status_error_def)

lemma intercept_reply:
  assumes "enc (rq_json (key_request cl k)) = Inr bs" "doubles (w_rt w) v" "wf_json v"
    and "reply w (dispatch (w_rt w) cfg) (request_conn (key_request cl k) bs) s code v s'" "200 \<le> code" "code < 300"
  shows "dev_ic w cfg enc cl k (s, a) = (intercept_response (w_rt w) v, (s', a))"
  using dev_transport_reply [where enc = enc and rq = "key_request cl k", OF assms(1,4), of cl a] loads_bytes_dumps [OF assms(2,3)]
  unfolding intercept_def key_request_def [symmetric] using assms(5,6) by (simp add: response_json_def)

lemma wf_answers:
  "wf_str i \<Longrightarrow> wf_json (executed_json (Some i))"
  "wf_str i \<Longrightarrow> wf_json (case r of None \<Rightarrow> JNull | Some v \<Rightarrow> v) \<Longrightarrow> wf_json (replayed_json i r)"
  "wf_str i \<Longrightarrow> wf_json (outcome_json ''committed'' i) \<and> wf_json (outcome_json ''failed'' i)"
  "wf_str i \<Longrightarrow> wf_json (pending_json i)"
  by (simp_all add: executed_json_def pending_json_def replayed_json_def outcome_json_def opt_json_def dict_keys_ok_def)

lemma doubles_answers [simp]:
  "doubles rt (executed_json i)" "doubles rt (outcome_json st j)" "doubles rt (pending_json j)"
  "doubles rt (replayed_json j r) \<longleftrightarrow> doubles rt (case r of None \<Rightarrow> JNull | Some v \<Rightarrow> v)"
  by (simp_all add: executed_json_def pending_json_def replayed_json_def outcome_json_def opt_json_def split: option.split)

lemma executed_response:
  "\<exists>r. intercept_response rt (executed_json (Some i)) = Inr r \<and> ir_outcome r = Execute \<and> ir_effect_id r = JStr i"
  by (simp add: intercept_response_def executed_json_def dict_get_def outcome_map_def opt_json_def Let_def)

lemma replayed_response:
  "\<exists>r. intercept_response rt (replayed_json i v) = Inr r \<and> ir_outcome r = outcome.Replay \<and>
     ir_cached_result r = (case v of None \<Rightarrow> JNull | Some v \<Rightarrow> v)"
  by (simp add: intercept_response_def replayed_json_def dict_get_def outcome_map_def Let_def)

lemma pending_response:
  "\<exists>r. intercept_response rt (pending_json i) = Inr r \<and> ir_outcome r = AwaitingApproval \<and> ir_approval_id r = JStr i"
  by (simp add: intercept_response_def pending_json_def dict_get_def outcome_map_def Let_def)

lemma execute_reply:
  assumes "enc (rq_json (key_request cl k)) = Inr bs" "j \<noteq> []" "wf_str j"
    and "reply w (dispatch (w_rt w) cfg) (request_conn (key_request cl k) bs) s 200 (executed_json (Some j)) s'"
  shows "\<exists>r. dev_ic w cfg enc cl k (s, a) = (Inr r, (s', a)) \<and> ir_outcome r = Execute \<and> ir_effect_id r = JStr j \<and> j \<noteq> []"
  using intercept_reply [where enc = enc, OF assms(1) _ wf_answers(1) [OF assms(3)] assms(4), of a]
    executed_response [of "w_rt w" j] assms(2) by (elim exE) simp

text \<open>A call that is executing is told to run again under the same effect.\<close>

lemma executing_reply:
  assumes "tool_request (w_rt w) c t sg" "live_row (srv_journal s) sg = Some r" "encodable sg"
    and "effect_to_dict (w_rt w) r = Inr e" "eff_status r = EFFECT_EXECUTING"
  shows "\<exists>s'. reply w (dispatch (w_rt w) cfg) c s 200 (executed_json (Some (eff_id r))) s' \<and> later s s'"
proof -
  have e: "eff_status e = EFFECT_EXECUTING" "eff_id e = eff_id r" using effect_to_dict_fields [OF assms(4)] assms(5) by simp_all
  have "\<exists>st v s'. reply w (dispatch (w_rt w) cfg) c s st v s' \<and> (st = 200 \<and> v = executed_json (Some (eff_id r)) \<and> later s s')"
    using assms(1)
  proof (rule dispatch_tool_call)
    fix c1 s1 assume l: "later s s1"
    then have "find_live_effect (w_rt w) sg (srv_journal s1) = Inr (Some e)"
      using find_live_effect_row [OF assms(3) _ assms(4)] assms(2) by (simp add: later_def)
    moreover obtain s' where s': "reply w (send_json 200 (executed_json (Some (eff_id r)))) c1 s1 200 (executed_json (Some (eff_id r))) s'"
        "later s1 s'"
      using send_json_reply by blast
    ultimately have "reply w (decide_call cfg t (org_id_of c) sg) c1 s1 200 (executed_json (Some (eff_id r))) s'"
      using e by (auto simp: decide_call_def reply_def respond_for_live_effect_def Let_def)
    with l s'(2) show "\<exists>st v s'. reply w (decide_call cfg t (org_id_of c) sg) c1 s1 st v s' \<and>
        (st = 200 \<and> v = executed_json (Some (eff_id r)) \<and> later s s')"
      by (auto simp: later_def)
  qed
  then show ?thesis by blast
qed

lemma free_reply:
  assumes "tool_request (w_rt w) c t sg" "journal_ok (srv_journal s)" "fresh_ids w s" "call_ok t (org_id_of c) sg"
    and "live_row (srv_journal s) sg = None" "\<not> tool_requires_approval cfg (tc_tool t)"
  shows "\<exists>s' now. reply w (dispatch (w_rt w) cfg) c s 200 (executed_json (Some (w_uuid w (srv_uuids s)))) s' \<and>
    journal_ok (srv_journal s') \<and> srv_uuids s < srv_uuids s' \<and>
    live_row (srv_journal s') sg = Some (call_row cfg t (org_id_of c) sg EFFECT_EXECUTING None (w_uuid w (srv_uuids s)) now) \<and>
    map eff_id (effects (srv_journal s')) = map eff_id (effects (srv_journal s)) @ [w_uuid w (srv_uuids s)] \<and>
    approvals (srv_journal s') = approvals (srv_journal s) \<and> keeps_settled (srv_journal s) (srv_journal s')"
proof -
  let ?i = "w_uuid w (srv_uuids s)"
  let ?Q = "\<lambda>st v s'. st = 200 \<and> v = executed_json (Some ?i) \<and> journal_ok (srv_journal s') \<and> srv_uuids s < srv_uuids s' \<and>
    (\<exists>now. live_row (srv_journal s') sg = Some (call_row cfg t (org_id_of c) sg EFFECT_EXECUTING None ?i now)) \<and>
    map eff_id (effects (srv_journal s')) = map eff_id (effects (srv_journal s)) @ [?i] \<and>
    approvals (srv_journal s') = approvals (srv_journal s) \<and> keeps_settled (srv_journal s) (srv_journal s')"
  have "\<exists>st v s'. reply w (dispatch (w_rt w) cfg) c s st v s' \<and> ?Q st v s'"
    using assms(1)
  proof (rule dispatch_tool_call)
    fix c1 s1 assume "later s s1" and i: "srv_uuids s1 = srv_uuids s"
    then have j: "srv_journal s1 = srv_journal s" "fresh_ids w s1"
      using fresh_later [OF assms(3)] by (auto simp: later_def)
    from decide_run [OF _ j(2) assms(4) _ assms(6), of c1, unfolded j(1) i, OF assms(2,5)]
    show "\<exists>st v s'. reply w (decide_call cfg t (org_id_of c) sg) c1 s1 st v s' \<and> ?Q st v s'"
      unfolding Let_def by blast
  qed
  then show ?thesis by blast
qed

lemma dev_ic_open:
  assumes "dev_ok w (s, a)" "dev_key_ok w cfg enc cl k"
    and "dev_entry w (s, a) k = Free \<or> dev_entry w (s, a) k = Running i"
  shows "\<exists>j r st. dev_ic w cfg enc cl k (s, a) = (Inr r, st) \<and> ir_outcome r = Execute \<and> ir_effect_id r = JStr j \<and> j \<noteq> [] \<and>
    dev_ok w st \<and> dev_entry w st k = Running j \<and> settled_kept w (s, a) st"
proof -
  have ok: "good_ids w" "journal_ok (srv_journal s)" "drawn w s" using assms(1) by (simp_all add: dev_ok_def)
  have call: "dev_call_ok w enc cl k" using assms(2) by (simp add: dev_key_ok_def)
  then obtain sg bs where sg: "key_signature (w_rt w) k = Inr sg" "call_ok (key_call k) (key_org (ck_org k)) sg"
    and bs: "enc (rq_json (key_request cl k)) = Inr bs" by (rule dev_call_okE)
  let ?c = "request_conn (key_request cl k) bs"
  note tr = key_tool_request [OF call sg(1) bs]
  have org: "org_id_of ?c = key_org (ck_org k)"
    by (rule request_headers(3)) (simp add: key_request_def intercept_request_def)
  have enc_sg: "encodable sg" and wf: "wf_json (JDict (ck_args k))" using sg(2) by (simp_all add: call_ok_def key_call_def)
  have dbl: "doubles (w_rt w) (JDict (ck_args k))" using call by (simp add: dev_call_ok_def)
  show ?thesis
  proof (cases "live_row (srv_journal s) sg")
    case None
    let ?i = "w_uuid w (srv_uuids s)"
    have "\<not> tool_requires_approval cfg (tc_tool (key_call k))" using assms(2) by (simp add: dev_key_ok_def key_call_def)
    from free_reply [OF tr ok(2) drawn_fresh [OF ok(1,3)] sg(2) [folded org] None this] obtain s' now where
      s': "reply w (dispatch (w_rt w) cfg) ?c s 200 (executed_json (Some ?i)) s'" "journal_ok (srv_journal s')" "srv_uuids s < srv_uuids s'"
        "live_row (srv_journal s') sg = Some (call_row cfg (key_call k) (org_id_of ?c) sg EFFECT_EXECUTING None ?i now)"
        "map eff_id (effects (srv_journal s')) = map eff_id (effects (srv_journal s)) @ [?i]"
        "approvals (srv_journal s') = approvals (srv_journal s)" "keeps_settled (srv_journal s) (srv_journal s')" by blast
    have i: "?i \<noteq> []" "wf_str ?i" using ok(1) id_chars(2) by (auto simp: good_ids_def)
    have "w_uuid w ` {..<srv_uuids s} \<union> {?i} \<subseteq> w_uuid w ` {..<srv_uuids s'}" using s'(3) by auto
    moreover have "set (map eff_id (effects (srv_journal s')) @ map app_id (approvals (srv_journal s'))) \<subseteq> w_uuid w ` {..<srv_uuids s} \<union> {?i}"
      using ok(3) s'(5,6) by (auto simp: drawn_def)
    ultimately have "drawn w s'" unfolding drawn_def by (rule subset_trans [rotated])
    then have "dev_ok w (s', a)" using ok s'(2) by (simp add: dev_ok_def)
    moreover have "dev_entry w (s', a) k = Running ?i"
      using s'(4) sg(1) json_loads_dumps [OF dbl wf]
      by (simp add: dev_entry_def effect_to_dict_def key_call_def new_effect_row_simps)
    ultimately show ?thesis using settled_keptI [OF s'(7), of w a a] execute_reply [where enc = enc and a = a, OF bs i s'(1)]
      by (elim exE conjE) (intro exI conjI)
  next
    case (Some r)
    then obtain e where e: "effect_to_dict (w_rt w) r = Inr e" "eff_status r = EFFECT_EXECUTING"
      using assms(3) sg(1) by (auto simp: dev_entry_def Let_def split: sum.splits if_splits)
    have id: "eff_id r \<noteq> []" "wf_str (eff_id r)"
      using drawn_id [OF ok(1,3)] live_row_SomeD [OF Some] id_chars(2) by auto
    from executing_reply [OF tr Some enc_sg e, of cfg] obtain s' where
      s': "reply w (dispatch (w_rt w) cfg) ?c s 200 (executed_json (Some (eff_id r))) s'" "later s s'" by blast
    then have "dev_ok w (s', a)" "dev_entry w (s', a) k = dev_entry w (s, a) k" "settled_kept w (s, a) (s', a)"
      using settled_keptI [of s s' w a a] ok drawn_same [OF ok(3), of s'] dev_entry_journal [of s' s w a k a] by (simp_all add: dev_ok_def later_def same_ids_def)
    moreover have "dev_entry w (s, a) k = Running (eff_id r)"
      using Some e sg(1) by (simp add: dev_entry_def)
    ultimately show ?thesis using execute_reply [where enc = enc and a = a, OF bs id s'(1)]
      by (elim exE conjE) (intro exI conjI, simp_all)
  qed
qed

lemma dev_ic_settled:
  assumes "dev_ok w (s, a)" "dev_key_ok w cfg enc cl k" "dev_entry w (s, a) k = Settled v"
  shows "\<exists>r st. dev_ic w cfg enc cl k (s, a) = (Inr r, st) \<and> ir_outcome r = outcome.Replay \<and> ir_cached_result r = v \<and>
    dev_ok w st \<and> dev_entry w st k = Settled v \<and> settled_kept w (s, a) st"
proof -
  have ok: "good_ids w" "journal_ok (srv_journal s)" "drawn w s" using assms(1) by (simp_all add: dev_ok_def)
  have call: "dev_call_ok w enc cl k" using assms(2) by (simp add: dev_key_ok_def)
  then obtain sg bs where sg: "key_signature (w_rt w) k = Inr sg" "call_ok (key_call k) (key_org (ck_org k)) sg"
    and bs: "enc (rq_json (key_request cl k)) = Inr bs" by (rule dev_call_okE)
  let ?c = "request_conn (key_request cl k) bs"
  obtain r e where r: "live_row (srv_journal s) sg = Some r" "effect_to_dict (w_rt w) r = Inr e" "eff_status r = EFFECT_COMMITTED"
      "v = (case dec_result e of None \<Rightarrow> JNull | Some v \<Rightarrow> v)" "wf_json v \<and> doubles (w_rt w) v"
    using assms(3) sg(1) by (auto simp: dev_entry_def Let_def split: option.splits sum.splits if_splits)
  have id: "wf_str (eff_id r)" "encodable (eff_id r)" "encodable sg"
    using drawn_id [OF ok(1,3)] live_row_SomeD [OF r(1)] id_chars(1,2) sg(2) by (auto simp: call_ok_def)
  from decoded_replays [OF key_tool_request [OF call sg(1) bs] ok(2) r(1) id(3,2) r(3,2), of cfg] obtain s' r' where
    s': "reply w (dispatch (w_rt w) cfg) ?c s 200 (replayed_json (eff_id r) (dec_result e)) s'" "journal_ok (srv_journal s')"
      "same_ids s s'" "live_row (srv_journal s') sg = Some r'" "eff_status r' = eff_status r" "eff_result r' = eff_result r"
      "eff_args r' = eff_args r" "keeps_settled (srv_journal s) (srv_journal s')" by blast
  obtain e' where e': "effect_to_dict (w_rt w) r' = Inr e'" "dec_result e' = dec_result e"
    using effect_to_dict_same [OF r(2) s'(7,6)] by blast
  have "dev_entry w (s', a) k = Settled v"
    using sg(1) s'(4,5) e' r(3-5) by (simp add: dev_entry_def)
  moreover have "dev_ok w (s', a)" using ok s'(2) drawn_same [OF ok(3) s'(3)] by (simp add: dev_ok_def)
  moreover have "wf_json (replayed_json (eff_id r) (dec_result e))" "doubles (w_rt w) (replayed_json (eff_id r) (dec_result e))"
    using wf_answers(2) id(1) r(4,5) by simp_all
  ultimately show ?thesis
    using settled_keptI [OF s'(8), of w a a] intercept_reply [where enc = enc and a = a, OF bs _ _ s'(1)] replayed_response [of "w_rt w" "eff_id r" "dec_result e"] r(4)
    by (elim exE conjE) (intro exI conjI, simp_all)
qed

section \<open>Reports\<close>

definition report_request :: "undolog_client \<Rightarrow> call_key \<Rightarrow> pystr \<Rightarrow> string \<Rightarrow> string \<Rightarrow> json \<Rightarrow> request" where
  "report_request cl k i action field v =
     \<lparr>rq_method = lit ''PUT'', rq_url = lit ''/effects/'' @ i @ lit ''/'' @ lit action,
      rq_headers = client_headers cl (ck_org k) (ck_session k),
      rq_json = JDict [(lit ''session_id'', JStr (ck_session k)), (lit field, v)]\<rparr>"

lemma report_action:
  assumes "list_all id_char i" "i \<noteq> []" "action \<in> {''commit'', ''fail''}"
    and "enc (rq_json (report_request cl k i action field v)) = Inr bs" "sends rt enc (rq_json (report_request cl k i action field v))"
  shows "action_request rt ''PUT'' ''/effects/'' action (request_conn (report_request cl k i action field v) bs) i
    [(lit ''session_id'', JStr (ck_session k)), (lit field, v)]"
proof -
  let ?rq = "report_request cl k i action field v"
  have "plain_path (rq_url ?rq)"
    using id_chars(4) [OF assms(1,2)] assms(3) by (auto simp: plain_path_def report_request_def lit_def)
  moreover have "snd (parse_body rt (request_conn ?rq bs)) = Inr [(lit ''session_id'', JStr (ck_session k)), (lit field, v)]"
    using assms(4,5) by (intro request_body [where enc = enc]) (simp_all add: report_request_def)
  ultimately show ?thesis
    using id_chars(3) [OF assms(1,2)] assms(2) urlparse_plain [of "rq_url ?rq" rt]
    by (simp add: action_request_def request_conn_def report_request_def)
qed

lemma commit_sends:
  "dev_cm w cfg enc cl k (JStr i) v st =
     (case dev_transport w cfg enc cl (report_request cl k i ''commit'' ''result'' v) st of
        (TransportFailed e, st') \<Rightarrow> (Inl (SdkError (transport_error ''Commit'' ''commit'' e)), st')
      | (EncodeFailed e, st') \<Rightarrow> (Inl (PyError e), st')
      | (Responded r, st') \<Rightarrow>
          (if rp_status r = 404 then Inr (JDict [])
           else case status_error r of Some e \<Rightarrow> Inl e | None \<Rightarrow> response_json (w_rt w) r, st'))"
  by (simp add: commit_def report_request_def py_str_def lit_def)

lemma fail_sends:
  "dev_fl w cfg enc cl k (JStr i) m st =
     (case dev_transport w cfg enc cl (report_request cl k i ''fail'' ''error'' (JStr m)) st of
        (TransportFailed e, st') \<Rightarrow> (Inl (SdkError (transport_error ''Fail'' ''fail'' e)), st')
      | (EncodeFailed e, st') \<Rightarrow> (Inl (PyError e), st')
      | (Responded r, st') \<Rightarrow>
          (if rp_status r = 404 then Inr (JDict [])
           else case status_error r of Some e \<Rightarrow> Inl e | None \<Rightarrow> response_json (w_rt w) r, st'))"
  by (simp add: fail_def report_request_def py_str_def lit_def)

lemma running_row:
  assumes "dev_ok w (s, a)" "dev_entry w (s, a) k = Running i" "key_signature (w_rt w) k = Inr sg"
  shows "\<exists>r e. live_row (srv_journal s) sg = Some r \<and> eff_id r = i \<and> effect_to_dict (w_rt w) r = Inr e \<and>
    list_all id_char i \<and> i \<noteq> [] \<and> encodable i \<and> wf_str i \<and> eff_status r \<noteq> EFFECT_COMMITTED"
proof -
  obtain r e where r: "live_row (srv_journal s) sg = Some r" "eff_id r = i" "effect_to_dict (w_rt w) r = Inr e"
      "eff_status r \<noteq> EFFECT_COMMITTED"
    using assms(2,3) by (auto simp: dev_entry_def Let_def split: option.splits sum.splits if_splits)
  have "list_all id_char i" "i \<noteq> []"
    using drawn_id [of w s r] live_row_SomeD [OF r(1)] assms(1) r(2) by (auto simp: dev_ok_def)
  with r show ?thesis using id_chars(1,2) by blast
qed

lemma running_settles:
  assumes "journal_ok (srv_journal s)" "journal_step (srv_journal s) ev j'" "live_row (srv_journal s) sg = Some r"
    and "eff_status r \<noteq> EFFECT_COMMITTED" "\<And>i. settles i ev \<Longrightarrow> i = eff_id r" "srv_journal s' = j'"
  shows "settled_kept w (s, a) (s', b)"
proof -
  have "keeps_settled (srv_journal s) j'"
    by (rule keeps_settled_step [OF assms(1,2)]) (use assms(3-5) in blast)
  then show ?thesis using assms(6) by (intro settled_keptI) simp
qed

lemma dev_cm_running:
  assumes "dev_ok w (s, a)" "dev_key_ok w cfg enc cl k" "dev_entry w (s, a) k = Running i" "dev_result_ok w enc k v"
  shows "\<exists>r st. dev_cm w cfg enc cl k (JStr i) v (s, a) = (Inr r, st) \<and> dev_ok w st \<and> dev_entry w st k = Settled v \<and>
    settled_kept w (s, a) st"
proof -
  have ok: "good_ids w" "journal_ok (srv_journal s)" "drawn w s" using assms(1) by (simp_all add: dev_ok_def)
  obtain sg where sg: "key_signature (w_rt w) k = Inr sg"
    using assms(2) unfolding dev_key_ok_def by (blast elim: dev_call_okE)
  obtain r e where r: "live_row (srv_journal s) sg = Some r" "eff_id r = i" "effect_to_dict (w_rt w) r = Inr e"
      "list_all id_char i" "i \<noteq> []" "encodable i" "wf_str i" "eff_status r \<noteq> EFFECT_COMMITTED"
    using running_row [OF assms(1,3) sg] by blast
  obtain d where d: "v = JDict d" "wf_json (JDict d)" "doubles (w_rt w) (JDict d)" using assms(4) by (cases v) (auto simp: dev_result_ok_def)
  let ?rq = "report_request cl k i ''commit'' ''result'' v"
  have sends: "sends (w_rt w) enc (rq_json ?rq)" using assms(4) by (simp add: dev_result_ok_def report_request_def)
  then obtain bs where bs: "enc (rq_json ?rq) = Inr bs" by (auto simp: sends_def split: sum.splits)
  have act: "action_request (w_rt w) ''PUT'' ''/effects/'' ''commit'' (request_conn ?rq bs) i
      [(lit ''session_id'', JStr (ck_session k)), (lit ''result'', v)]"
    by (rule report_action [where enc = enc, OF r(4,5) _ bs sends]) simp
  from commit_live [OF ok(2) r(1) _ d(2), of "w_now w (srv_clock s)"] r(2,6) obtain j' r' where
    j': "record_commit (w_now w (srv_clock s)) i (JDict d) (srv_journal s) = Inr (True, j')" "journal_ok j'"
      "approvals j' = approvals (srv_journal s)" "map eff_id (effects j') = map eff_id (effects (srv_journal s))"
      "live_row j' sg = Some r'" "eff_status r' = EFFECT_COMMITTED" "eff_result r' = Some (json_dumps (JDict d))"
      "eff_args r' = eff_args r" by force
  from commit_reply [OF act _ j'(1), of cfg] d(1) obtain s' where
    s': "reply w (dispatch (w_rt w) cfg) (request_conn ?rq bs) s 200 (outcome_json ''committed'' i) s'" "srv_journal s' = j'"
      "srv_uuids s \<le> srv_uuids s'" by auto
  have "\<exists>e'. effect_to_dict (w_rt w) r' = Inr e' \<and> dec_result e' = Some v"
    using r(3) j'(7,8) json_loads_dumps [OF d(3,2)] d(1)
    by (auto simp: effect_to_dict_def rbind_eq_Inr_iff effect_row.defs)
  then have "dev_entry w (s', a) k = Settled v" using sg s'(2) j'(5,6) d by (auto simp: dev_entry_def)
  moreover have "dev_ok w (s', a)" using ok s'(2,3) j'(2-4) drawn_same [OF ok(3), of s'] by (simp add: dev_ok_def same_ids_def)
  moreover have "settled_kept w (s, a) (s', a)"
    by (rule running_settles [OF ok(2) journal_step.commit [OF j'(1)] r(1,8) _ s'(2)]) (simp add: r(2))
  ultimately show ?thesis
    using dev_transport_reply [where enc = enc and rq = ?rq and a = a, OF bs s'(1)] loads_bytes_dumps [OF doubles_answers(2)] wf_answers(3) [OF r(7)]
    by (simp add: commit_sends response_json_def)
qed

lemma dev_fl_running:
  assumes "dev_ok w (s, a)" "dev_key_ok w cfg enc cl k" "dev_entry w (s, a) k = Running i" "dev_error_ok w enc k m"
  shows "\<exists>r st. dev_fl w cfg enc cl k (JStr i) m (s, a) = (r, st) \<and> dev_ok w st \<and> dev_entry w st k = Free \<and>
    settled_kept w (s, a) st"
proof -
  have ok: "good_ids w" "journal_ok (srv_journal s)" "drawn w s" using assms(1) by (simp_all add: dev_ok_def)
  obtain sg where sg: "key_signature (w_rt w) k = Inr sg"
    using assms(2) unfolding dev_key_ok_def by (blast elim: dev_call_okE)
  obtain r e where r: "live_row (srv_journal s) sg = Some r" "eff_id r = i" "list_all id_char i" "i \<noteq> []" "encodable i" "wf_str i"
      "eff_status r \<noteq> EFFECT_COMMITTED"
    using running_row [OF assms(1,3) sg] by blast
  let ?rq = "report_request cl k i ''fail'' ''error'' (JStr m)"
  have sends: "sends (w_rt w) enc (rq_json ?rq)" and m: "encodable m" using assms(4) by (simp_all add: dev_error_ok_def report_request_def)
  then obtain bs where bs: "enc (rq_json ?rq) = Inr bs" by (auto simp: sends_def split: sum.splits)
  have act: "action_request (w_rt w) ''PUT'' ''/effects/'' ''fail'' (request_conn ?rq bs) i
      [(lit ''session_id'', JStr (ck_session k)), (lit ''error'', JStr m)]"
    by (rule report_action [where enc = enc, OF r(3,4) _ bs sends]) simp
  from fail_live [OF ok(2) r(1) _ m, of "w_now w (srv_clock s)"] r(2,5) obtain j' where
    j': "record_fail (w_now w (srv_clock s)) i m (srv_journal s) = Inr (True, j')" "journal_ok j'"
      "approvals j' = approvals (srv_journal s)" "map eff_id (effects j') = map eff_id (effects (srv_journal s))"
      "live_row j' sg = None" by auto
  from fail_reply [OF act _ j'(1), of cfg] obtain s' where
    s': "reply w (dispatch (w_rt w) cfg) (request_conn ?rq bs) s 200 (outcome_json ''failed'' i) s'" "srv_journal s' = j'"
      "srv_uuids s \<le> srv_uuids s'" by auto
  have "dev_entry w (s', a) k = Free" using sg s'(2) j'(5) by (simp add: dev_entry_def)
  moreover have "dev_ok w (s', a)" using ok s'(2,3) j'(2-4) drawn_same [OF ok(3), of s'] by (simp add: dev_ok_def same_ids_def)
  moreover have "settled_kept w (s, a) (s', a)"
    by (rule running_settles [OF ok(2) journal_step.fail [OF j'(1)] r(1,7) _ s'(2)]) (simp add: r(2))
  ultimately show ?thesis
    using dev_transport_reply [where enc = enc and rq = ?rq and a = a, OF bs s'(1)]
    by (simp add: fail_sends)
qed

lemma dev_transport_out: "snd (snd (dev_transport w cfg enc cl rq st)) = snd st"
  by (auto simp: dev_transport_def split: sum.splits prod.splits list.splits)

lemma dev_out:
  "snd (snd (dev_ic w cfg enc cl k st)) = snd st" "snd (snd (dev_cm w cfg enc cl k i v st)) = snd st"
  "snd (snd (dev_fl w cfg enc cl k i m st)) = snd st"
  unfolding intercept_def commit_def fail_def
  by (auto split: prod.split sent.split dest!: arg_cong [where f = "\<lambda>x. snd (snd x)"] simp: dev_transport_out)

interpretation dev: effect_service "dev_ok w" "dev_key_ok w cfg enc cl" "dev_entry w" "dev_result_ok w enc"
  "dev_error_ok w enc" "dev_ic w cfg enc cl" "dev_cm w cfg enc cl" "dev_fl w cfg enc cl" snd for w cfg enc cl
proof (unfold_locales, goal_cases)
  case (1 st k i)
  then show ?case using dev_ic_open [of w "fst st" "snd st" cfg enc cl k i] by (simp only: prod.collapse) blast
next
  case (2 st k v)
  then show ?case using dev_ic_settled [of w "fst st" "snd st" cfg enc cl k v] by (simp only: prod.collapse) blast
next
  case (3 st k i v)
  then show ?case using dev_cm_running [of w "fst st" "snd st" cfg enc cl k i v] by (simp only: prod.collapse) blast
next
  case (4 st k i m)
  then show ?case using dev_fl_running [of w "fst st" "snd st" cfg enc cl k i m] by (simp only: prod.collapse) blast
qed (rule dev_out)+

end
