(* ===== verification/EndToEnd.thy ===== *)
theory EndToEnd
  imports DevService
begin

text \<open>
  Decorated tools on the dev server, through the whole stack: the wrapper of \<^verbatim>\<open>decorators.py\<close>,
  the client, the HTTP handlers and the journal. A tool runs once and is replayed ever after, a
  tool that raises may run again, and a guarded tool waits for its approval.
\<close>

section \<open>Attempts\<close>

text \<open>
  An attempt is one call of a decorated tool by some process, with that process's own state of
  the SDK. The body of the tool acts on the world outside and not on the journal.
\<close>

record 'a attempt =
  at_tool :: tool
  at_body :: "'a body"
  at_session :: "nat option"
  at_args :: "json list"
  at_kwargs :: "json dict"
  at_sdk :: sdk

definition outside :: "'a body \<Rightarrow> (server \<times> 'a) body" where
  "outside f as ks st = (let (r, a) = f as ks (snd st) in (r, (fst st, a)))"

definition attempt_call ::
  "world \<Rightarrow> config \<Rightarrow> (json \<Rightarrow> py_exc + bytes) \<Rightarrow> (pystr \<Rightarrow> pystr option) \<Rightarrow> 'a attempt \<Rightarrow> server \<times> 'a \<Rightarrow>
     (call_exc + json) \<times> sdk \<times> server \<times> 'a" where
  "attempt_call w cfg enc environ x st =
     wrapper (w_rt w) environ (dev_transport w cfg enc) (at_tool x) (outside (at_body x)) (at_session x) (at_args x) (at_kwargs x)
       (at_sdk x) st"

fun attempts ::
  "world \<Rightarrow> config \<Rightarrow> (json \<Rightarrow> py_exc + bytes) \<Rightarrow> (pystr \<Rightarrow> pystr option) \<Rightarrow> 'a attempt list \<Rightarrow> server \<times> 'a \<Rightarrow>
     (call_exc + json) list \<times> server \<times> 'a" where
  "attempts w cfg enc environ [] st = ([], st)"
| "attempts w cfg enc environ (x # xs) st =
     (let (r, _, st1) = attempt_call w cfg enc environ x st; (rs, st2) = attempts w cfg enc environ xs st1 in (r # rs, st2))"

text \<open>The client of an attempt and what the gateway identifies its call by, where it makes a request.\<close>

definition attempt_key :: "(pystr \<Rightarrow> pystr option) \<Rightarrow> 'a attempt \<Rightarrow> (undolog_client \<times> call_key) option" where
  "attempt_key environ x =
     (case (case at_session x of Some s \<Rightarrow> Some s | None \<Rightarrow> get_current_session (sk_context (at_sdk x))) of
        None \<Rightarrow> None
      | Some s \<Rightarrow>
          (let t = at_tool x; ses = sk_sessions (at_sdk x) s;
               cl = (case tl_client t of Some cl \<Rightarrow> cl | None \<Rightarrow> fst (get_default_client environ (cx_module (sk_context (at_sdk x)))))
           in if tl_tier t = SAFE then None
              else map_option (\<lambda>bound. (cl, \<lparr>ck_org = org_id ses, ck_session = session_id ses, ck_tool = tl_name t,
                       ck_step = step_index ses + 1, ck_args = filter (\<lambda>kv. fst kv \<noteq> tl_session_param t) bound\<rparr>))
                     (bind_arguments (tl_params t) (at_args x) (at_kwargs x))))"

lemma attempt_call_eq:
  assumes "attempt_key environ x = Some (cl, k)"
  shows "\<exists>sk. attempt_call w cfg enc environ x st =
    (let (r, st') = dev.call w cfg enc cl (w_rt w) (at_tool x) (ck_step k) k (outside (at_body x) (at_args x) (at_kwargs x)) st
     in (r, sk, st'))"
  using assms
  by (auto simp: attempt_key_def attempt_call_def wrapper_def next_step_def Let_def split: option.splits if_splits prod.splits)

lemma outside_harmless: "dev.harmless w (outside f as ks)"
proof -
  have "dev_entry w (s, b) = dev_entry w (s, a)" for s and a b :: 'a using dev_entry_journal [of s s w b _ a] by blast
  then show ?thesis by (auto simp: dev.harmless_def outside_def dev_ok_def split: prod.split)
qed

lemma attempt_runs:
  assumes "attempt_key environ x = Some (cl, k)" "dev_ok w (s, a)" "dev_key_ok w cfg enc cl k"
    and "dev_entry w (s, a) k = Free \<or> dev_entry w (s, a) k = Running i"
    and "at_body x (at_args x) (at_kwargs x) a = (r, a')"
    and "case r of Inr v \<Rightarrow> dev_result_ok w enc k (envelope_of v) | Inl (Exn m) \<Rightarrow> dev_error_ok w enc k m | _ \<Rightarrow> True"
  shows "\<exists>sk s'. attempt_call w cfg enc environ x (s, a) = (case r of Inr v \<Rightarrow> Inr v | Inl e \<Rightarrow> Inl (BodyRaised e), sk, (s', a')) \<and>
    dev_ok w (s', a') \<and> (case r of
       Inr v \<Rightarrow> dev_entry w (s', a') k = Settled (envelope_of v)
     | Inl (Exn m) \<Rightarrow> dev_entry w (s', a') k = Free
     | Inl BaseExn \<Rightarrow> (\<exists>j. dev_entry w (s', a') k = Running j))"
proof -
  let ?f = "outside (at_body x) (at_args x) (at_kwargs x)"
  have f: "?f st = (r, (fst st, a'))" if "snd st = a" for st using assms(5) that by (simp add: outside_def)
  from attempt_call_eq [OF assms(1)] obtain sk where "attempt_call w cfg enc environ x (s, a) =
    (let (r, st') = dev.call w cfg enc cl (w_rt w) (at_tool x) (ck_step k) k ?f (s, a) in (r, sk, st'))" by blast
  then show ?thesis
    using assms(6) dev.open_call [OF assms(2-4) outside_harmless [of w "at_body x" "at_args x" "at_kwargs x"],
      where rt = "w_rt w" and t = "at_tool x" and step = "ck_step k"]
    by (elim exE conjE) (auto simp: f split: sum.splits body_exc.splits)
qed

lemma attempts_replay:
  assumes "dev_ok w (s, a)" "dev_entry w (s, a) k = Settled (envelope_of v)"
    and "\<forall>y \<in> set ys. \<exists>cl. attempt_key environ y = Some (cl, k) \<and> dev_key_ok w cfg enc cl k"
  shows "\<exists>s'. attempts w cfg enc environ ys (s, a) = (replicate (length ys) (Inr v), (s', a))"
  using assms
proof (induction ys arbitrary: s)
  case (Cons y ys)
  then obtain cl where y: "attempt_key environ y = Some (cl, k)" "dev_key_ok w cfg enc cl k" by auto
  from dev.settled_call [OF Cons.prems(1) y(2) Cons.prems(2), where rt = "w_rt w" and t = "at_tool y" and step = "ck_step k"]
  obtain s1 where s1: "dev_ok w (s1, a)" "dev_entry w (s1, a) k = Settled (envelope_of v)"
      "\<And>func. dev.call w cfg enc cl (w_rt w) (at_tool y) (ck_step k) k func (s, a) = (Inr v, (s1, a))"
    by force
  then obtain sk where "attempt_call w cfg enc environ y (s, a) = (Inr v, sk, (s1, a))"
    using attempt_call_eq [OF y(1), of w cfg enc "(s, a)"] by auto
  with Cons.IH [OF s1(1,2)] Cons.prems(3) show ?case by auto
qed simp

section \<open>A sample tool\<close>

definition sample_enc :: "json \<Rightarrow> py_exc + bytes" where
  "sample_enc v = Inr (json_dumps v)"

definition sample_client :: undolog_client where
  "sample_client = client_init (\<lambda>_. None) 0 None None"

definition sample_attempt :: "string \<Rightarrow> nat body \<Rightarrow> nat attempt" where
  "sample_attempt name f =
     \<lparr>at_tool = \<lparr>tl_name = lit name, tl_tier = IRREVERSIBLE, tl_compensation = None, tl_client = Some sample_client,
        tl_session_param = lit ''_session'', tl_params = [\<lparr>pm_name = lit ''n'', pm_kind = POSITIONAL_OR_KEYWORD, pm_default = None\<rparr>]\<rparr>,
      at_body = f, at_session = Some 0, at_args = [JInt 5], at_kwargs = [],
      at_sdk = \<lparr>sk_sessions = (\<lambda>_. new_session [] (lit ''00000000-0000-0000-0000-0000000000ab'')), sk_context =
        \<lparr>cx_session = None, cx_managers = (\<lambda>_. run_with_session 0), cx_module = module_init\<rparr>\<rparr>\<rparr>"

definition sample_key :: "string \<Rightarrow> call_key" where
  "sample_key name = \<lparr>ck_org = [], ck_session = lit ''00000000-0000-0000-0000-0000000000ab'', ck_tool = lit name, ck_step = 1, ck_args = [(lit ''n'', JInt 5)]\<rparr>"

definition counts :: "(body_exc + json) \<Rightarrow> nat body" where
  "counts r as ks n = (r, Suc n)"

lemma sample_attempt_key: "attempt_key environ (sample_attempt name f) = Some (sample_client, sample_key name)"
  by (simp add: attempt_key_def sample_attempt_def sample_key_def new_session_def lit_def)

lemma sample_good_ids: "good_ids sample_world"
  by (auto simp: good_ids_def sample_ids(1) inj_def list_all_iff id_char_def lit_def dest!: show_nat_digits)

lemma sample_sends:
  "wf_json v \<Longrightarrow> length (json_dumps v) \<le> MAX_BODY_BYTES \<Longrightarrow> json_dumps v \<noteq> [] \<Longrightarrow> sends sample_runtime sample_enc v"
  using loads_bytes_dumps [OF sample_doubles] by (simp add: sends_def sample_enc_def)

lemma sample_dev_ok: "dev_ok sample_world (empty_server, a)"
proof -
  have "journal_ok (srv_journal empty_server)" by code_simp
  moreover have "drawn sample_world empty_server" by (simp add: drawn_def empty_server_def empty_journal_def)
  ultimately show ?thesis using sample_good_ids by (simp add: dev_ok_def)
qed

lemma sample_body:
  "at_body (sample_attempt name (counts r)) (at_args (sample_attempt name (counts r))) (at_kwargs (sample_attempt name (counts r))) n =
     (r, Suc n)"
  by (simp add: sample_attempt_def counts_def)

lemma sample_request_sends:
  "sends sample_runtime sample_enc (rq_json (key_request sample_client (sample_key ''pay'')))"
  "sends sample_runtime sample_enc (rq_json (key_request sample_client (sample_key ''drop_it'')))"
  by (rule sample_sends; code_simp)+

lemma sample_signatures:
  "case key_signature sample_runtime (sample_key ''pay'') of Inl _ \<Rightarrow> False
   | Inr sg \<Rightarrow> call_ok (key_call (sample_key ''pay'')) (key_org (ck_org (sample_key ''pay''))) sg"
  "case key_signature sample_runtime (sample_key ''drop_it'') of Inl _ \<Rightarrow> False
   | Inr sg \<Rightarrow> call_ok (key_call (sample_key ''drop_it'')) (key_org (ck_org (sample_key ''drop_it''))) sg"
  by code_simp+

lemma sample_call_ok:
  assumes "name = ''pay'' \<or> name = ''drop_it''"
  shows "dev_call_ok sample_world sample_enc sample_client (sample_key name)"
proof -
  have "ck_session (sample_key name) \<noteq> []" "ck_tool (sample_key name) \<noteq> []" "doubles sample_runtime (JDict (ck_args (sample_key name)))"
    using assms by (auto simp: sample_key_def lit_def)
  then show ?thesis using assms sample_request_sends sample_signatures unfolding dev_call_ok_def sample_world_runtime by blast
qed

lemma sample_key_ok: "dev_key_ok sample_world sample_config sample_enc sample_client (sample_key ''pay'')"
proof -
  have "\<not> tool_requires_approval sample_config (ck_tool (sample_key ''pay''))" by code_simp
  then show ?thesis using sample_call_ok [of "''pay''"] by (simp add: dev_key_ok_def)
qed

lemma sample_free:
  assumes "name = ''pay'' \<or> name = ''drop_it''"
  shows "dev_entry sample_world (empty_server, a) (sample_key name) = Free"
proof -
  have "live_row (srv_journal empty_server) sg = None" for sg
    by (simp add: empty_server_def empty_journal_def live_row_def)
  then show ?thesis using assms sample_signatures by (auto simp: dev_entry_def split: sum.splits)
qed

lemma sample_result_ok: "dev_result_ok sample_world sample_enc (sample_key ''pay'') (envelope_of (JInt 7))"
proof -
  have "sends sample_runtime sample_enc (JDict [(lit ''session_id'', JStr (ck_session (sample_key ''pay''))),
      (lit ''result'', envelope_of (JInt 7))])"
    by (rule sample_sends; code_simp)
  moreover have "wf_json (envelope_of (JInt 7))" by code_simp
  ultimately show ?thesis by (simp add: dev_result_ok_def envelope_of_def)
qed

section \<open>Exactly once\<close>

text \<open>
  C1. Exactly once, through the whole stack. A decorated tool that is intercepted and needs no
  approval, and whose call the dev server does not hold yet, runs its body once and returns what
  the body returned. Every later attempt of the same call, by any process, with any body and any
  state of the world, returns that same value, and the world stays as it was: no body runs again.
\<close>

theorem tool_runs_once:
  assumes "attempt_key environ x = Some (cl, k)" "dev_ok w (s, a :: 'a)" "dev_key_ok w cfg enc cl k" "dev_entry w (s, a) k = Free"
    and "at_body x (at_args x) (at_kwargs x) a = (Inr v, a')" "dev_result_ok w enc k (envelope_of v)"
  shows "\<exists>sk s1. attempt_call w cfg enc environ x (s, a) = (Inr v, sk, (s1, a')) \<and>
    (\<forall>ys (b :: 'a). (\<forall>y \<in> set ys. \<exists>cl. attempt_key environ y = Some (cl, k) \<and> dev_key_ok w cfg enc cl k) \<longrightarrow>
       (\<exists>s2. attempts w cfg enc environ ys (s1, b) = (replicate (length ys) (Inr v), (s2, b))))"
proof -
  from attempt_runs [OF assms(1-3) _ assms(5)] assms(4,6) obtain sk s1 where
    s1: "attempt_call w cfg enc environ x (s, a) = (Inr v, sk, (s1, a'))" "dev_ok w (s1, a')"
      "dev_entry w (s1, a') k = Settled (envelope_of v)" by auto
  have "dev_ok w (s1, b)" "dev_entry w (s1, b) k = Settled (envelope_of v)" for b :: 'a
    using s1(2,3) dev_entry_journal [of s1 s1 w b k a'] by (simp_all add: dev_ok_def)
  note attempts_replay [where environ = environ and cfg = cfg and enc = enc, OF this]
  with s1(1) show ?thesis by (intro exI [of _ sk] exI [of _ s1] conjI) simp_all
qed

theorem tool_runs_once_witness:
  "\<exists>s. attempts sample_world sample_config sample_enc (\<lambda>_. None)
     [sample_attempt ''pay'' (counts (Inr (JInt 7))), sample_attempt ''pay'' (counts (Inr (JInt 8))),
      sample_attempt ''pay'' (counts (Inl BaseExn))] (empty_server, 0) = ([Inr (JInt 7), Inr (JInt 7), Inr (JInt 7)], (s, 1))"
proof -
  let ?x = "\<lambda>r. sample_attempt ''pay'' (counts r)" and ?ys = "[sample_attempt ''pay'' (counts (Inr (JInt 8))), sample_attempt ''pay'' (counts (Inl BaseExn))]"
  let ?go = "attempts sample_world sample_config sample_enc (\<lambda>_. None)"
  have y: "\<forall>y \<in> set ?ys. \<exists>cl. attempt_key (\<lambda>_. None) y = Some (cl, sample_key ''pay'') \<and>
      dev_key_ok sample_world sample_config sample_enc cl (sample_key ''pay'')"
    using sample_attempt_key sample_key_ok by simp
  obtain sk s1 s2 where "attempt_call sample_world sample_config sample_enc (\<lambda>_. None) (?x (Inr (JInt 7))) (empty_server, 0) =
      (Inr (JInt 7), sk, (s1, Suc 0))" "?go ?ys (s1, Suc 0) = (replicate (length ?ys) (Inr (JInt 7)), (s2, Suc 0))"
    using tool_runs_once [where environ = "\<lambda>_. None" and cfg = sample_config, OF sample_attempt_key sample_dev_ok sample_key_ok
      sample_free sample_body sample_result_ok, of 0] y by blast
  then show ?thesis by (simp add: attempts.simps(2) [of _ _ _ _ "?x (Inr (JInt 7))"] del: attempts.simps(2))
qed

text \<open>
  C5. A body that raises is not recorded as done. The caller sees the body's own exception, what
  the body did to the world stands, and the next attempt of the same call runs its body again;
  this holds for an exception that is reported as a failure and for a cancellation, which is
  not reported.
\<close>

theorem failed_tool_runs_again:
  assumes "attempt_key environ x = Some (cl, k)" "dev_ok w (s, a)" "dev_key_ok w cfg enc cl k" "dev_entry w (s, a) k = Free"
    and "at_body x (at_args x) (at_kwargs x) a = (Inl e, a')" "case e of Exn m \<Rightarrow> dev_error_ok w enc k m | BaseExn \<Rightarrow> True"
    and "attempt_key environ y = Some (cl', k)" "dev_key_ok w cfg enc cl' k"
    and "at_body y (at_args y) (at_kwargs y) a' = (Inr v, a'')" "dev_result_ok w enc k (envelope_of v)"
  shows "\<exists>s2. attempts w cfg enc environ [x, y] (s, a) = ([Inl (BodyRaised e), Inr v], (s2, a''))"
proof -
  from attempt_runs [OF assms(1-3) _ assms(5)] assms(4,6) obtain sk s1 where
    s1: "attempt_call w cfg enc environ x (s, a) = (Inl (BodyRaised e), sk, (s1, a'))" "dev_ok w (s1, a')"
      "dev_entry w (s1, a') k = Free \<or> (\<exists>i. dev_entry w (s1, a') k = Running i)" by (cases e) auto
  then obtain i where "dev_entry w (s1, a') k = Free \<or> dev_entry w (s1, a') k = Running i" by blast
  from attempt_runs [OF assms(7) s1(2) assms(8) this assms(9)] assms(10) s1(1) show ?thesis by auto
qed

theorem failed_tool_runs_again_witness:
  "\<exists>s. attempts sample_world sample_config sample_enc (\<lambda>_. None)
     [sample_attempt ''pay'' (counts (Inl (Exn (lit ''no'')))), sample_attempt ''pay'' (counts (Inr (JInt 7)))] (empty_server, 0) =
     ([Inl (BodyRaised (Exn (lit ''no''))), Inr (JInt 7)], (s, 2))"
proof -
  have "sends sample_runtime sample_enc (JDict [(lit ''session_id'', JStr (ck_session (sample_key ''pay''))), (lit ''error'', JStr (lit ''no''))])"
    by (rule sample_sends; code_simp)
  then have "dev_error_ok sample_world sample_enc (sample_key ''pay'') (lit ''no'')"
    by (simp add: dev_error_ok_def)
  then show ?thesis
    using sample_attempt_key sample_dev_ok sample_key_ok sample_free [of "''pay''"] sample_result_ok
    by (intro failed_tool_runs_again [where cfg = sample_config and k = "sample_key ''pay''" and cl = sample_client and
      cl' = sample_client and a' = 1]) (simp_all add: sample_body numeral_2_eq_2)
qed

section \<open>Tools that need an approval\<close>

lemma hold_reply:
  assumes "tool_request (w_rt w) c t sg" "journal_ok (srv_journal s)" "fresh_ids w s" "call_ok t (org_id_of c) sg"
    and "live_row (srv_journal s) sg = None" "tool_requires_approval cfg (tc_tool t)" "\<not> cfg_auto_approve cfg"
  shows "\<exists>s' now. reply w (dispatch (w_rt w) cfg) c s 202 (pending_json (w_uuid w (srv_uuids s))) s' \<and>
    approvals (srv_journal s') = approvals (srv_journal s) @ [new_approval_row (w_uuid w (srv_uuids s)) now (org_id_of c) (tc_session t)
      (tc_tool t) (tc_args t) (w_uuid w (Suc (srv_uuids s)))]"
proof -
  let ?Q = "\<lambda>st v s'. st = 202 \<and> v = pending_json (w_uuid w (srv_uuids s)) \<and>
    (\<exists>now. approvals (srv_journal s') = approvals (srv_journal s) @ [new_approval_row (w_uuid w (srv_uuids s)) now (org_id_of c)
      (tc_session t) (tc_tool t) (tc_args t) (w_uuid w (Suc (srv_uuids s)))])"
  have "\<exists>st v s'. reply w (dispatch (w_rt w) cfg) c s st v s' \<and> ?Q st v s'"
    using assms(1)
  proof (rule dispatch_tool_call)
    fix c1 s1 assume "later s s1" and i: "srv_uuids s1 = srv_uuids s"
    then have j: "srv_journal s1 = srv_journal s" "fresh_ids w s1"
      using fresh_later [OF assms(3)] by (auto simp: later_def)
    from decide_hold [OF _ j(2) assms(4) _ assms(6,7), of c1, unfolded j(1) i, OF assms(2,5)]
    show "\<exists>st v s'. reply w (decide_call cfg t (org_id_of c) sg) c1 s1 st v s' \<and> ?Q st v s'"
      unfolding Let_def by blast
  qed
  then show ?thesis by blast
qed

text \<open>
  C4. A tool that needs an approval does not run on its own, on a server that does not approve by
  itself. Its first attempt raises the error that names the new approval, the world stays as it
  was, so the body did not run, and the server holds a pending approval with that identifier for
  exactly this call.
\<close>

theorem guarded_tool_waits:
  assumes "attempt_key environ x = Some (cl, k)" "dev_ok w (s, a)" "dev_call_ok w enc cl k" "dev_entry w (s, a) k = Free"
    and "tool_requires_approval cfg (ck_tool k)" "\<not> cfg_auto_approve cfg"
  shows "\<exists>sk s1 now. let i = w_uuid w (srv_uuids s) in
    attempt_call w cfg enc environ x (s, a) =
      (Inl (Raised (SdkError (AwaitingApprovalError [] (ck_tool k) (ck_step k) None i [] None None))), sk, (s1, a)) \<and>
    approvals (srv_journal s1) = approvals (srv_journal s) @
      [new_approval_row i now (key_org (ck_org k)) (ck_session k) (ck_tool k) (JDict (ck_args k)) (w_uuid w (Suc (srv_uuids s)))]"
proof -
  let ?i = "w_uuid w (srv_uuids s)"
  have ok: "good_ids w" "journal_ok (srv_journal s)" "drawn w s" using assms(2) by (simp_all add: dev_ok_def)
  obtain sg bs where sg: "key_signature (w_rt w) k = Inr sg" "call_ok (key_call k) (key_org (ck_org k)) sg"
    and bs: "enc (rq_json (key_request cl k)) = Inr bs" using assms(3) by (rule dev_call_okE)
  let ?c = "request_conn (key_request cl k) bs"
  have org: "org_id_of ?c = key_org (ck_org k)"
    by (rule request_headers(3)) (simp add: key_request_def intercept_request_def)
  have live: "live_row (srv_journal s) sg = None"
    using assms(4) sg(1) by (auto simp: dev_entry_def Let_def split: option.splits sum.splits if_splits)
  have i: "?i \<noteq> []" "wf_str ?i" using ok(1) id_chars(2) by (auto simp: good_ids_def)
  have "tool_requires_approval cfg (tc_tool (key_call k))" using assms(5) by (simp add: key_call_def)
  from hold_reply [OF key_tool_request [OF assms(3) sg(1) bs] ok(2) drawn_fresh [OF ok(1,3)] sg(2) [folded org] live this assms(6)]
  obtain s1 now where s1: "reply w (dispatch (w_rt w) cfg) ?c s 202 (pending_json ?i) s1"
    "approvals (srv_journal s1) = approvals (srv_journal s) @
      [new_approval_row ?i now (key_org (ck_org k)) (ck_session k) (ck_tool k) (JDict (ck_args k)) (w_uuid w (Suc (srv_uuids s)))]"
    by (auto simp: key_call_def org)
  obtain r where r: "dev_ic w cfg enc cl k (s, a) = (Inr r, (s1, a))" "ir_outcome r = AwaitingApproval" "ir_approval_id r = JStr ?i"
    using intercept_reply [where enc = enc and a = a, OF bs _ wf_answers(4) [OF i(2)] s1(1)] pending_response [of "w_rt w" ?i] by auto
  have t: "tl_name (at_tool x) = ck_tool k"
    using assms(1) by (auto simp: attempt_key_def Let_def split: option.splits if_splits)
  from attempt_call_eq [OF assms(1), of w cfg enc "(s, a)"] r i(1) s1(2) show ?thesis
    unfolding Let_def by (auto simp: run_intercepted_def py_str_def t)
qed

theorem guarded_tool_waits_witness:
  "\<exists>sk s1. attempt_call sample_world sample_config sample_enc (\<lambda>_. None) (sample_attempt ''drop_it'' (counts (Inr (JInt 7)))) (empty_server, 0) =
     (Inl (Raised (SdkError (AwaitingApprovalError [] (lit ''drop_it'') 1 None (lit ''id-0'') [] None None))), sk, (s1, 0))"
proof -
  have g: "tool_requires_approval sample_config (ck_tool (sample_key ''drop_it''))" "\<not> cfg_auto_approve sample_config" by code_simp+
  have i: "w_uuid sample_world (srv_uuids empty_server) = lit ''id-0''" by code_simp
  from guarded_tool_waits [where environ = "\<lambda>_. None", OF sample_attempt_key sample_dev_ok sample_call_ok sample_free g,
      of "counts (Inr (JInt 7))" 0]
  show ?thesis unfolding Let_def i by (auto simp: sample_key_def)
qed

end
