(* ===== verification/Instrument.thy ===== *)
theory Instrument
  imports Decorator
begin

text \<open>
  How the framework integrations put the interceptor around an agent's tools
  (\<^verbatim>\<open>integrations/_instrument.py\<close>, \<^verbatim>\<open>langgraph.py\<close>, \<^verbatim>\<open>crewai.py\<close>, \<^verbatim>\<open>llamaindex.py\<close>). A tool is a
  callable, or an object that holds one; wrapping is a function from tool to tool. Log messages
  are left out.
\<close>

section \<open>Callables and tools\<close>

text \<open>
  A function with its attributes \<^verbatim>\<open>__name__\<close> and \<^verbatim>\<open>name\<close> and what \<^verbatim>\<open>inspect\<close> tells about it; a function decorated by \<^verbatim>\<open>undolog_tool\<close>, whose
  \<open>tool\<close> record stands for the attributes \<^verbatim>\<open>_undolog_tool_name\<close>, \<^verbatim>\<open>_undolog_tier\<close> and
  \<^verbatim>\<open>_undolog_compensation\<close>; and an audited function, which copies them. Both are made by
  \<^verbatim>\<open>functools.wraps\<close>, so they have the attributes of the function inside.
\<close>

record 'b pyfunc =
  pf_name :: "pystr option"
  pf_attr :: "pystr option"
  pf_async :: bool
  pf_params :: "param list"
  pf_repr :: pystr
  pf_body :: 'b

datatype 'b callable = Function "'b pyfunc" | Intercepted tool "'b callable" | Audited "'b callable"

fun callable_name :: "'b callable \<Rightarrow> pystr option" where
  "callable_name (Function f) = pf_name f"
| "callable_name (Intercepted t c) = callable_name c"
| "callable_name (Audited c) = callable_name c"

fun callable_attr :: "'b callable \<Rightarrow> pystr option" where
  "callable_attr (Function f) = pf_attr f"
| "callable_attr (Intercepted t c) = callable_attr c"
| "callable_attr (Audited c) = callable_attr c"

fun is_async :: "'b callable \<Rightarrow> bool" where
  "is_async (Function f) = pf_async f"
| "is_async _ = True"

fun interceptor :: "'b callable \<Rightarrow> tool option" where
  "interceptor (Function f) = None"
| "interceptor (Intercepted t c) = Some t"
| "interceptor (Audited c) = interceptor c"

fun callable_params :: "'b callable \<Rightarrow> param list" where
  "callable_params (Function f) = pf_params f"
| "callable_params (Intercepted t c) = callable_params c"
| "callable_params (Audited c) = callable_params c"

fun callable_repr :: "'b callable \<Rightarrow> pystr" where
  "callable_repr (Function f) = pf_repr f"
| "callable_repr (Intercepted t c) = callable_repr c"
| "callable_repr (Audited c) = callable_repr c"

text \<open>
  A tool: itself as a callable if it is one, otherwise its attribute \<^verbatim>\<open>name\<close>, and its callable
  attribute \<^verbatim>\<open>coroutine\<close>.
\<close>

record 'b tool_obj =
  ob_name :: "pystr option"
  ob_self :: "'b callable option"
  ob_coroutine :: "'b callable option"
  ob_repr :: pystr

definition or_name :: "pystr option \<Rightarrow> pystr option \<Rightarrow> pystr option" where
  "or_name a b = (case a of None \<Rightarrow> b | Some s \<Rightarrow> if s \<noteq> [] then Some s else b)"

text \<open>\<^verbatim>\<open>getattr(tool, "name", None) or getattr(tool, "__name__", None)\<close>\<close>

definition own_name :: "'b callable \<Rightarrow> pystr option" where
  "own_name c = or_name (callable_attr c) (callable_name c)"

definition object_name :: "'b tool_obj \<Rightarrow> pystr option" where
  "object_name t = (case ob_self t of Some c \<Rightarrow> own_name c | None \<Rightarrow> or_name (ob_name t) None)"

definition target :: "'b tool_obj \<Rightarrow> 'b callable option" where
  "target t = (case ob_coroutine t of Some c \<Rightarrow> Some c | None \<Rightarrow> ob_self t)"

definition name_repr :: "runtime \<Rightarrow> 'b tool_obj \<Rightarrow> pystr" where
  "name_repr rt t = (case or_name (object_name t) None of Some s \<Rightarrow> py_repr rt (JStr s) | None \<Rightarrow> ob_repr t)"

definition require_async_tool :: "runtime \<Rightarrow> string \<Rightarrow> string \<Rightarrow> 'b tool_obj \<Rightarrow> client_exc + unit" where
  "require_async_tool rt wrapper_name container t =
     (case target t of
        None \<Rightarrow> Inr ()
      | Some c \<Rightarrow>
          if is_async c then Inr ()
          else Inl (PyError (ValueError (lit wrapper_name @ lit '' cannot instrument '' @ name_repr rt t @
            lit '': UndoLog awaits the wrapped callable, so the tool must be async.'' @
            (if container \<noteq> [] then lit '' Use an async function, or a '' @ lit container @
               lit '' exposing an async '' @ [39] @ lit ''coroutine'' @ [39] @ lit ''.''
             else lit '' Use an async function.'')))))"

section \<open>Wrapping one callable\<close>

definition SAFE_PREFIXES :: "pystr list" where
  "SAFE_PREFIXES = map lit [''get_'', ''read_'', ''fetch_'', ''list_'', ''search_'', ''lookup_'', ''query_'', ''check_'',
     ''describe_'', ''view_'', ''find_'', ''calculate_'', ''is_'', ''has_'', ''show_'']"

definition IRREVERSIBLE_PREFIXES :: "pystr list" where
  "IRREVERSIBLE_PREFIXES = map lit [''delete_'', ''drop_'', ''destroy_'', ''remove_'', ''purge_'', ''terminate_'',
     ''publish_'', ''execute_'', ''kill_'', ''wipe_'', ''charge_'', ''pay_'', ''transfer_'', ''send_'']"

definition classify :: "ToolTier \<Rightarrow> 'b callable \<Rightarrow> ToolTier" where
  "classify otherwise c =
     (case interceptor c of
        Some t \<Rightarrow> tl_tier t
      | None \<Rightarrow>
          (let lower_name = py_lower (case own_name c of None \<Rightarrow> [] | Some n \<Rightarrow> n) in
           if list_ex (\<lambda>p. prefix p lower_name) SAFE_PREFIXES then SAFE
           else if list_ex (\<lambda>p. prefix p lower_name) IRREVERSIBLE_PREFIXES then IRREVERSIBLE
           else otherwise))"

text \<open>The three modules have the same function up to the tier of a name that has none of the prefixes.\<close>

definition langgraph_classify_tool :: "'b callable \<Rightarrow> ToolTier" where
  "langgraph_classify_tool = classify SAFE"

definition crewai_classify_tool :: "'b callable \<Rightarrow> ToolTier" where
  "crewai_classify_tool = classify COMPENSABLE"

definition llamaindex_classify_tool :: "'b callable \<Rightarrow> ToolTier" where
  "llamaindex_classify_tool = classify COMPENSABLE"

definition wrap_tool ::
  "runtime \<Rightarrow> ToolTier \<Rightarrow> pystr option \<Rightarrow> undolog_client option \<Rightarrow> bool \<Rightarrow> 'b callable \<Rightarrow> client_exc + 'b callable" where
  "wrap_tool rt tier compensation_name client is_unannotated c =
     (if interceptor c \<noteq> None then Inr c
      else if tier = COMPENSABLE \<and> or_name compensation_name None = None then
        Inl (PyError (ValueError (lit ''Compensable tool '' @
          (case callable_name c of Some n \<Rightarrow> py_repr rt (JStr n) | None \<Rightarrow> callable_repr c) @
          lit '' has no compensation name. Pass compensation_name=..., or classify the '' @
          lit ''tool with tier=ToolTier.SAFE or ToolTier.IRREVERSIBLE.'')))
      else
        (case callable_name c of
           None \<Rightarrow> Inl AttributeError
         | Some n \<Rightarrow>
             (case undolog_tool tier (map_option (\<lambda>s. descriptor_new s None) (or_name compensation_name None)) client
                 (lit ''_session'') n (callable_params c) of
                Inl e \<Rightarrow> Inl (PyError e)
              | Inr t \<Rightarrow> Inr (if is_unannotated then Audited (Intercepted t c) else Intercepted t c))))"

text \<open>A missing tier is deduced.\<close>

definition audit_tool ::
  "runtime \<Rightarrow> ToolTier option \<Rightarrow> pystr option \<Rightarrow> undolog_client option \<Rightarrow> 'b callable \<Rightarrow> client_exc + 'b callable" where
  "audit_tool rt tier compensation_name client c =
     wrap_tool rt (case tier of Some t \<Rightarrow> t | None \<Rightarrow> langgraph_classify_tool c) compensation_name client True c"

definition audit_agent_tool ::
  "runtime \<Rightarrow> ToolTier option \<Rightarrow> pystr option \<Rightarrow> undolog_client option \<Rightarrow> 'b callable \<Rightarrow> client_exc + 'b callable" where
  "audit_agent_tool rt tier compensation_name client c =
     rbind (wrap_tool rt (case tier of Some t \<Rightarrow> t | None \<Rightarrow> crewai_classify_tool c) compensation_name client False c)
       (\<lambda>wrapped. Inr (Audited wrapped))"

definition audit_index_tool ::
  "runtime \<Rightarrow> ToolTier option \<Rightarrow> pystr option \<Rightarrow> undolog_client option \<Rightarrow> 'b callable \<Rightarrow> client_exc + 'b callable" where
  "audit_index_tool rt tier compensation_name client c =
     rbind (wrap_tool rt (case tier of Some t \<Rightarrow> t | None \<Rightarrow> llamaindex_classify_tool c) compensation_name client False c)
       (\<lambda>wrapped. Inr (Audited wrapped))"

section \<open>Wrapping one tool\<close>

text \<open>The part that the modules share: \<open>wrap\<close> gets the callable and the name of the tool.\<close>

definition instrument_with ::
  "runtime \<Rightarrow> string \<Rightarrow> ('b callable \<Rightarrow> pystr \<Rightarrow> client_exc + 'b callable) \<Rightarrow> 'b tool_obj \<Rightarrow> client_exc + 'b tool_obj" where
  "instrument_with rt caller wrap t =
     (let reject = Inl (PyError (ValueError (lit caller @ lit '' cannot instrument '' @ name_repr rt t @
            lit '': UndoLog needs an async callable with a name, or an object exposing an async '' @
            [39] @ lit ''coroutine'' @ [39] @ lit '' attribute.'')))
      in case (target t, or_name (object_name t) None) of
           (Some c, Some name) \<Rightarrow>
             if callable_name c = None then reject
             else if interceptor c \<noteq> None then Inr t
             else rbind (wrap c name) (\<lambda>instrumented.
               Inr (if ob_coroutine t \<noteq> None then t\<lparr>ob_coroutine := Some instrumented\<rparr> else t\<lparr>ob_self := Some instrumented\<rparr>))
         | _ \<Rightarrow> reject)"

record mapping_options =
  mo_tiers :: "ToolTier dict"
  mo_compensations :: "pystr dict"
  mo_client :: "undolog_client option"

definition wrap_tools_item :: "runtime \<Rightarrow> mapping_options \<Rightarrow> 'b tool_obj \<Rightarrow> client_exc + 'b tool_obj" where
  "wrap_tools_item rt opt = instrument_with rt ''wrap_tools'' (\<lambda>c name.
     wrap_tool rt (case map_of (mo_tiers opt) name of Some t \<Rightarrow> t | None \<Rightarrow> COMPENSABLE) (map_of (mo_compensations opt) name)
       (mo_client opt) False c)"

definition wrap_tools :: "runtime \<Rightarrow> mapping_options \<Rightarrow> 'b tool_obj list \<Rightarrow> client_exc + 'b tool_obj list" where
  "wrap_tools rt opt tools = map_result (wrap_tools_item rt opt) tools"

definition instrument_agent_tool :: "runtime \<Rightarrow> mapping_options \<Rightarrow> 'b tool_obj \<Rightarrow> client_exc + 'b tool_obj" where
  "instrument_agent_tool rt opt = instrument_with rt ''wrap_crewai'' (\<lambda>c name.
     case map_of (mo_tiers opt) name of
       Some tier \<Rightarrow> wrap_tool rt tier (map_of (mo_compensations opt) name) (mo_client opt) False c
     | None \<Rightarrow> audit_agent_tool rt (Some (crewai_classify_tool c)) (map_of (mo_compensations opt) name) (mo_client opt) c)"

definition instrument_index_tool :: "runtime \<Rightarrow> mapping_options \<Rightarrow> 'b tool_obj \<Rightarrow> client_exc + 'b tool_obj" where
  "instrument_index_tool rt opt = instrument_with rt ''wrap_llamaindex'' (\<lambda>c name.
     case map_of (mo_tiers opt) name of
       Some tier \<Rightarrow> wrap_tool rt tier (map_of (mo_compensations opt) name) (mo_client opt) False c
     | None \<Rightarrow> audit_index_tool rt (Some (llamaindex_classify_tool c)) (map_of (mo_compensations opt) name) (mo_client opt) c)"

section \<open>Preparing an agent\<close>

text \<open>A crew: its agents and tasks are objects, named by references; a tool list may be missing.\<close>

record 'b crew =
  cw_agents :: "nat list"
  cw_tasks :: "nat list"
  cw_agent_tools :: "nat \<Rightarrow> 'b tool_obj list option"
  cw_task_tools :: "nat \<Rightarrow> 'b tool_obj list option"

definition tools_of :: "'b tool_obj list option \<Rightarrow> 'b tool_obj list" where
  "tools_of ts = (case ts of None \<Rightarrow> [] | Some ts \<Rightarrow> ts)"

definition plan_tools ::
  "('b tool_obj \<Rightarrow> client_exc + unit) \<Rightarrow> ('b tool_obj \<Rightarrow> client_exc + 'b tool_obj) \<Rightarrow> 'b tool_obj list \<Rightarrow> client_exc + 'b tool_obj list" where
  "plan_tools check instrument ts = rbind (map_result check ts) (\<lambda>_. map_result instrument ts)"

definition assign :: "(nat \<times> 'b tool_obj list) list \<Rightarrow> (nat \<Rightarrow> 'b tool_obj list option) \<Rightarrow> (nat \<Rightarrow> 'b tool_obj list option)" where
  "assign plans f = foldl (\<lambda>f (a, ts). f(a := Some ts)) f plans"

definition prepare_agents :: "runtime \<Rightarrow> mapping_options \<Rightarrow> 'b crew \<Rightarrow> (client_exc + unit) \<times> 'b crew" where
  "prepare_agents rt opt cw =
     (let plan = plan_tools (require_async_tool rt ''wrap_crewai'' ''StructuredTool'') (instrument_agent_tool rt opt)
      in case map_result (\<lambda>a. rbind (plan (tools_of (cw_agent_tools cw a))) (\<lambda>ts. Inr (a, ts))) (cw_agents cw) of
           Inl e \<Rightarrow> (Inl e, cw)
         | Inr plans \<Rightarrow>
             (case map_result (\<lambda>t. rbind (plan (tools_of (cw_task_tools cw t))) (\<lambda>ts. Inr (t, ts)))
                 (filter (\<lambda>t. tools_of (cw_task_tools cw t) \<noteq> []) (cw_tasks cw)) of
                Inl e \<Rightarrow> (Inl e, cw)
              | Inr task_plans \<Rightarrow>
                  (Inr (), cw\<lparr>cw_agent_tools := assign plans (cw_agent_tools cw),
                     cw_task_tools := assign task_plans (cw_task_tools cw)\<rparr>)))"

text \<open>
  An index or agent runner: each of its two lists may be no attribute at all, or be there with
  the value \<^verbatim>\<open>None\<close>.
\<close>

record 'b tool_index =
  ix_tools :: "'b tool_obj list option option"
  ix_specs :: "'b tool_obj list option option"

definition listed :: "'b tool_obj list option option \<Rightarrow> 'b tool_obj list" where
  "listed x = (case x of None \<Rightarrow> [] | Some ts \<Rightarrow> tools_of ts)"

definition put_back :: "'b tool_obj list \<Rightarrow> 'b tool_obj list option option \<Rightarrow> 'b tool_obj list option option" where
  "put_back ts x = (case x of Some (Some _) \<Rightarrow> Some (Some ts) | _ \<Rightarrow> x)"

definition prepare_index :: "runtime \<Rightarrow> mapping_options \<Rightarrow> 'b tool_index \<Rightarrow> (client_exc + unit) \<times> 'b tool_index" where
  "prepare_index rt opt ix =
     (if ix_tools ix = None \<and> ix_specs ix = None then (Inl AttributeError, ix)
      else
        (let check = require_async_tool rt ''wrap_llamaindex'' ''FunctionTool'' in
         case rbind (map_result check (listed (ix_tools ix))) (\<lambda>_.
              rbind (map_result check (listed (ix_specs ix))) (\<lambda>_.
              rbind (map_result (instrument_index_tool rt opt) (listed (ix_tools ix))) (\<lambda>ts.
              rbind (map_result (instrument_index_tool rt opt) (listed (ix_specs ix))) (\<lambda>ss. Inr (ts, ss))))) of
           Inl e \<Rightarrow> (Inl e, ix)
         | Inr (ts, ss) \<Rightarrow> (Inr (), ix\<lparr>ix_tools := put_back ts (ix_tools ix), ix_specs := put_back ss (ix_specs ix)\<rparr>)))"

section \<open>The contract of an instrumentation\<close>

text \<open>Instrumenting finishes a tool, and a finished tool is left as it is.\<close>

locale instrumenter =
  fixes inst :: "'t \<Rightarrow> 'e + 't" and finished :: "'t \<Rightarrow> bool"
  assumes finishes: "inst t = Inr t' \<Longrightarrow> finished t'"
    and stable: "finished t \<Longrightarrow> inst t = Inr t"
begin

lemma all_finished: "map_result inst ts = Inr ts' \<Longrightarrow> list_all finished ts'"
  by (auto simp: map_result_Inr_iff list_all_length list_all2_conv_all_nth intro: finishes)

lemma all_stable: "list_all finished ts \<Longrightarrow> map_result inst ts = Inr ts"
  by (auto simp: map_result_Inr_iff list_all2_same list_all_iff intro: stable)

end

definition finished :: "'b tool_obj \<Rightarrow> bool" where
  "finished t \<longleftrightarrow> or_name (object_name t) None \<noteq> None \<and>
     (case target t of None \<Rightarrow> False | Some c \<Rightarrow> callable_name c \<noteq> None \<and> interceptor c \<noteq> None)"

text \<open>The callable is intercepted under its own name, with this tier.\<close>

definition intercepted_as :: "ToolTier \<Rightarrow> 'b callable \<Rightarrow> 'b callable \<Rightarrow> bool" where
  "intercepted_as tier c c' \<longleftrightarrow> callable_name c' = callable_name c \<and> callable_attr c' = callable_attr c \<and>
     (case interceptor c' of
        None \<Rightarrow> False
      | Some ic \<Rightarrow> Some (tl_name ic) = callable_name c \<and> tl_tier ic = tier \<and> (tier = COMPENSABLE \<longrightarrow> tl_compensation ic \<noteq> None))"

definition wraps_as :: "('b callable \<Rightarrow> pystr \<Rightarrow> ToolTier) \<Rightarrow> ('b callable \<Rightarrow> pystr \<Rightarrow> client_exc + 'b callable) \<Rightarrow> bool" where
  "wraps_as tier_of wrap \<longleftrightarrow>
     (\<forall>c name c'. wrap c name = Inr c' \<longrightarrow> interceptor c = None \<longrightarrow> intercepted_as (tier_of c name) c c')"

lemma wrap_tool_wraps: "wrap_tool rt tier cn cl un c = Inr c' \<Longrightarrow> interceptor c = None \<Longrightarrow> intercepted_as tier c c'"
  by (auto simp: wrap_tool_def undolog_tool_def intercepted_as_def split: if_splits option.splits sum.splits)

lemma audited_as: "intercepted_as tier c c' \<Longrightarrow> intercepted_as tier c (Audited c')"
  by (simp add: intercepted_as_def)

definition agent_tier :: "mapping_options \<Rightarrow> ToolTier \<Rightarrow> 'b callable \<Rightarrow> pystr \<Rightarrow> ToolTier" where
  "agent_tier opt otherwise c name = (case map_of (mo_tiers opt) name of Some t \<Rightarrow> t | None \<Rightarrow> classify otherwise c)"

lemma wraps_tools: "wraps_as (\<lambda>c name. case map_of (mo_tiers opt) name of Some t \<Rightarrow> t | None \<Rightarrow> COMPENSABLE) (\<lambda>c name.
    wrap_tool rt (case map_of (mo_tiers opt) name of Some t \<Rightarrow> t | None \<Rightarrow> COMPENSABLE) (map_of (mo_compensations opt) name)
      (mo_client opt) False c)"
  by (auto simp: wraps_as_def intro: wrap_tool_wraps)

lemma wraps_agent: "wraps_as (agent_tier opt COMPENSABLE) (\<lambda>c name. case map_of (mo_tiers opt) name of
    Some tier \<Rightarrow> wrap_tool rt tier (map_of (mo_compensations opt) name) (mo_client opt) False c
  | None \<Rightarrow> audit_agent_tool rt (Some (crewai_classify_tool c)) (map_of (mo_compensations opt) name) (mo_client opt) c)"
  by (auto simp: wraps_as_def agent_tier_def audit_agent_tool_def crewai_classify_tool_def rbind_eq_Inr_iff split: option.splits
    intro: wrap_tool_wraps audited_as)

lemma wraps_index: "wraps_as (agent_tier opt COMPENSABLE) (\<lambda>c name. case map_of (mo_tiers opt) name of
    Some tier \<Rightarrow> wrap_tool rt tier (map_of (mo_compensations opt) name) (mo_client opt) False c
  | None \<Rightarrow> audit_index_tool rt (Some (llamaindex_classify_tool c)) (map_of (mo_compensations opt) name) (mo_client opt) c)"
  by (auto simp: wraps_as_def agent_tier_def audit_index_tool_def llamaindex_classify_tool_def rbind_eq_Inr_iff split: option.splits
    intro: wrap_tool_wraps audited_as)

text \<open>A tool and what instrumenting makes of it.\<close>

definition instrumented :: "('b callable \<Rightarrow> pystr \<Rightarrow> ToolTier) \<Rightarrow> 'b tool_obj \<Rightarrow> 'b tool_obj \<Rightarrow> bool" where
  "instrumented tier_of t t' \<longleftrightarrow> finished t' \<and> object_name t' = object_name t \<and>
     (if finished t then t' = t
      else case (target t, target t', object_name t) of
             (Some c, Some c', Some name) \<Rightarrow> intercepted_as (tier_of c name) c c'
           | _ \<Rightarrow> False)"

lemma or_name_None: "or_name x None = Some s \<longleftrightarrow> x = Some s \<and> s \<noteq> []"
  by (cases x) (auto simp: or_name_def)

lemma instrument_with_result:
  assumes "wraps_as tier_of wrap" "instrument_with rt caller wrap t = Inr t'"
  shows "instrumented tier_of t t'"
proof -
  obtain c name where c: "target t = Some c" "or_name (object_name t) None = Some name" "callable_name c \<noteq> None"
    using assms(2) by (auto simp: instrument_with_def Let_def split: option.splits if_splits)
  show ?thesis
  proof (cases "interceptor c")
    case (Some ic)
    then have "t' = t" using assms(2) c by (simp add: instrument_with_def)
    then show ?thesis using c Some by (simp add: instrumented_def finished_def)
  next
    case None
    then obtain c' where c': "wrap c name = Inr c'"
      "t' = (if ob_coroutine t \<noteq> None then t\<lparr>ob_coroutine := Some c'\<rparr> else t\<lparr>ob_self := Some c'\<rparr>)"
      using assms(2) c by (auto simp: instrument_with_def rbind_eq_Inr_iff)
    have w: "intercepted_as (tier_of c name) c c'" using assms(1) None c'(1) by (simp add: wraps_as_def)
    have t': "target t' = Some c'" "object_name t' = object_name t"
      using c c'(2) w by (auto simp: target_def object_name_def own_name_def intercepted_as_def split: option.splits)
    have "\<not> finished t" using c None by (simp add: finished_def)
    then show ?thesis using c t' w by (auto simp: instrumented_def finished_def or_name_None intercepted_as_def split: option.splits)
  qed
qed

lemma instrument_with_stable: "finished t \<Longrightarrow> instrument_with rt caller wrap t = Inr t"
  by (auto simp: finished_def instrument_with_def split: option.splits)

lemma instrumented_finished: "instrumented tier_of t t' \<Longrightarrow> finished t'"
  by (simp add: instrumented_def)

interpretation lang: instrumenter "wrap_tools_item rt opt" finished for rt opt
  by unfold_locales (auto simp: wrap_tools_item_def instrument_with_stable
    dest: instrument_with_result [OF wraps_tools] instrumented_finished)

interpretation crewai: instrumenter "instrument_agent_tool rt opt" finished for rt opt
  by unfold_locales (auto simp: instrument_agent_tool_def instrument_with_stable
    dest: instrument_with_result [OF wraps_agent] instrumented_finished)

interpretation llama: instrumenter "instrument_index_tool rt opt" finished for rt opt
  by unfold_locales (auto simp: instrument_index_tool_def instrument_with_stable
    dest: instrument_with_result [OF wraps_index] instrumented_finished)

section \<open>Prepared crews\<close>

lemma finished_async: "finished t \<Longrightarrow> require_async_tool rt wn cn t = Inr ()"
proof -
  assume "finished t"
  then obtain c where c: "target t = Some c" "interceptor c \<noteq> None" by (auto simp: finished_def split: option.splits)
  then have "is_async c" by (cases c) auto
  with c(1) show ?thesis by (simp add: require_async_tool_def)
qed

abbreviation crew_plan :: "runtime \<Rightarrow> mapping_options \<Rightarrow> 'b tool_obj list \<Rightarrow> client_exc + 'b tool_obj list" where
  "crew_plan rt opt \<equiv> plan_tools (require_async_tool rt ''wrap_crewai'' ''StructuredTool'') (instrument_agent_tool rt opt)"

lemma crew_plan_result:
  assumes "crew_plan rt opt ts = Inr ts'"
  shows "list_all2 (instrumented (agent_tier opt COMPENSABLE)) ts ts'" "crew_plan rt opt ts' = Inr ts'"
proof -
  have i: "map_result (instrument_agent_tool rt opt) ts = Inr ts'"
    using assms by (auto simp: plan_tools_def rbind_eq_Inr_iff)
  then show "list_all2 (instrumented (agent_tier opt COMPENSABLE)) ts ts'"
    unfolding map_result_Inr_iff instrument_agent_tool_def
    by (rule list_all2_mono) (rule instrument_with_result [OF wraps_agent])
  have f: "list_all finished ts'" by (rule crewai.all_finished [OF i])
  then have "map_result (require_async_tool rt ''wrap_crewai'' ''StructuredTool'') ts' = Inr (map (\<lambda>_. ()) ts')"
    by (auto simp: map_result_Inr_iff list_all2_conv_all_nth list_all_length finished_async)
  with crewai.all_stable [OF f] show "crew_plan rt opt ts' = Inr ts'" by (simp add: plan_tools_def)
qed

lemma assign_eq:
  assumes "map_result (\<lambda>a. rbind (f a) (\<lambda>ts. Inr (a, ts))) as = Inr plans"
  shows "assign plans g a = (if a \<in> set as then Some (projr (f a)) else g a) \<and> (a \<in> set as \<longrightarrow> f a = Inr (projr (f a)))"
  using assms
proof (induction as arbitrary: plans g)
  case (Cons x as)
  then obtain ts ps where p: "f x = Inr ts" "map_result (\<lambda>a. rbind (f a) (\<lambda>ts. Inr (a, ts))) as = Inr ps" "plans = (x, ts) # ps"
    by (auto simp: rbind_eq_Inr_iff)
  define g' where "g' = g(x := Some ts)"
  have "assign plans g = assign ps g'" "g' x = Some ts" "a \<noteq> x \<Longrightarrow> g' a = g a" by (simp_all add: assign_def p(3) g'_def)
  with Cons.IH [OF p(2), of g'] p(1) show ?case by auto
qed (simp add: assign_def)

lemma plans_again:
  assumes "\<And>a. a \<in> set as \<Longrightarrow> f a = Inr (ts a)"
  shows "map_result (\<lambda>a. rbind (f a) (\<lambda>ts. Inr (a, ts))) as = Inr (map (\<lambda>a. (a, ts a)) as)"
  using assms by (induction as) auto

lemma assign_same: "(\<And>a. a \<in> set as \<Longrightarrow> g a = Some (ts a)) \<Longrightarrow> assign (map (\<lambda>a. (a, ts a)) as) g = g"
proof (induction as arbitrary: g)
  case (Cons a as)
  then have "g(a := Some (ts a)) = g" by (simp add: fun_upd_idem)
  with Cons show ?case by (simp add: assign_def)
qed (simp add: assign_def)

text \<open>What assigning the plans for some owners of tool lists leaves, and that planning again finds nothing to do.\<close>

abbreviation plans_of ::
  "runtime \<Rightarrow> mapping_options \<Rightarrow> nat list \<Rightarrow> (nat \<Rightarrow> 'b tool_obj list option) \<Rightarrow> client_exc + (nat \<times> 'b tool_obj list) list" where
  "plans_of rt opt as g \<equiv> map_result (\<lambda>a. rbind (crew_plan rt opt (tools_of (g a))) (\<lambda>ts. Inr (a, ts))) as"

lemma planned:
  assumes "plans_of rt opt as g = Inr plans" "g' = assign plans g"
  shows "a \<in> set as \<Longrightarrow> list_all2 (instrumented (agent_tier opt COMPENSABLE)) (tools_of (g a)) (tools_of (g' a))"
    and "a \<notin> set as \<Longrightarrow> g' a = g a"
    and "\<exists>plans'. plans_of rt opt as g' = Inr plans' \<and> assign plans' g' = g'"
proof -
  let ?f = "\<lambda>a. crew_plan rt opt (tools_of (g a))"
  have e: "g' a = (if a \<in> set as then Some (projr (?f a)) else g a) \<and> (a \<in> set as \<longrightarrow> ?f a = Inr (projr (?f a)))" for a
    using assign_eq [of ?f as plans g a] assms by simp
  have r: "list_all2 (instrumented (agent_tier opt COMPENSABLE)) (tools_of (g a)) (tools_of (g' a))"
      "crew_plan rt opt (tools_of (g' a)) = Inr (tools_of (g' a))" if "a \<in> set as" for a
    using crew_plan_result [of rt opt "tools_of (g a)" "projr (?f a)"] e [of a] that by (simp_all add: tools_of_def)
  show "a \<in> set as \<Longrightarrow> list_all2 (instrumented (agent_tier opt COMPENSABLE)) (tools_of (g a)) (tools_of (g' a))" by (rule r(1))
  show "a \<notin> set as \<Longrightarrow> g' a = g a" using e by simp
  have "plans_of rt opt as g' = Inr (map (\<lambda>a. (a, tools_of (g' a))) as)" by (rule plans_again) (rule r(2))
  moreover have "assign (map (\<lambda>a. (a, tools_of (g' a))) as) g' = g'" by (rule assign_same) (simp add: e tools_of_def)
  ultimately show "\<exists>plans'. plans_of rt opt as g' = Inr plans' \<and> assign plans' g' = g'" by blast
qed

lemma prepared_crew:
  assumes "prepare_agents rt opt cw = (r, cw')"
  shows "case r of
      Inl _ \<Rightarrow> cw' = cw
    | Inr _ \<Rightarrow>
        (\<forall>a. if a \<in> set (cw_agents cw)
             then list_all2 (instrumented (agent_tier opt COMPENSABLE)) (tools_of (cw_agent_tools cw a)) (tools_of (cw_agent_tools cw' a))
             else cw_agent_tools cw' a = cw_agent_tools cw a) \<and>
        (\<forall>t. if t \<in> set (cw_tasks cw)
             then list_all2 (instrumented (agent_tier opt COMPENSABLE)) (tools_of (cw_task_tools cw t)) (tools_of (cw_task_tools cw' t))
             else cw_task_tools cw' t = cw_task_tools cw t) \<and>
        prepare_agents rt opt cw' = (Inr (), cw')"
proof (cases r)
  case (Inl e)
  then show ?thesis using assms by (auto simp: prepare_agents_def Let_def split: sum.splits)
next
  case (Inr u)
  let ?busy = "\<lambda>cw. filter (\<lambda>t. tools_of (cw_task_tools cw t) \<noteq> []) (cw_tasks cw)"
  obtain plans tplans where p: "plans_of rt opt (cw_agents cw) (cw_agent_tools cw) = Inr plans"
      "plans_of rt opt (?busy cw) (cw_task_tools cw) = Inr tplans"
      "cw' = cw\<lparr>cw_agent_tools := assign plans (cw_agent_tools cw), cw_task_tools := assign tplans (cw_task_tools cw)\<rparr>"
    using assms Inr by (auto simp: prepare_agents_def Let_def split: sum.splits)
  have g: "cw_agent_tools cw' = assign plans (cw_agent_tools cw)" "cw_task_tools cw' = assign tplans (cw_task_tools cw)"
      "cw_agents cw' = cw_agents cw" "cw_tasks cw' = cw_tasks cw" using p(3) by simp_all
  note a = planned [OF p(1) g(1)] and t = planned [OF p(2) g(2)]
  have tasks: "list_all2 (instrumented (agent_tier opt COMPENSABLE)) (tools_of (cw_task_tools cw x)) (tools_of (cw_task_tools cw' x))"
    if "x \<in> set (cw_tasks cw)" for x
    using t(1,2) [of x] that by (cases "x \<in> set (?busy cw)") auto
  have "?busy cw' = ?busy cw"
    unfolding g(4) by (rule filter_cong [OF refl]) (use tasks [THEN list_all2_lengthD] in force)
  then have "prepare_agents rt opt cw' = (Inr (), cw')"
    using a(3) t(3) g(3) by (auto simp: prepare_agents_def)
  then show ?thesis using Inr a(1,2) t(2) tasks by simp
qed


definition sample_tool :: "string \<Rightarrow> nat tool_obj" where
  "sample_tool name = \<lparr>ob_name = None, ob_self = Some (Function \<lparr>pf_name = Some (lit name), pf_attr = None, pf_async = True, pf_params = [],
     pf_repr = [], pf_body = 0\<rparr>), ob_coroutine = None, ob_repr = []\<rparr>"


end
