(* ===== verification/Facades.thy ===== *)
theory Facades
  imports Instrument
begin

text \<open>
  The facades that run an agent framework inside a session (\<^verbatim>\<open>WrappedGraph\<close>, \<^verbatim>\<open>WrappedCrew\<close> and
  \<^verbatim>\<open>WrappedIndex\<close> of \<^verbatim>\<open>integrations/\<close>). The framework is a parameter: a function on the state of
  the SDK, in which it finds the current session, and on the world. Delegated attributes, the
  read-only properties and log messages are left out.
\<close>

section \<open>Running in a session\<close>

type_synonym ('w, 'r) framework = "sdk \<Rightarrow> 'w \<Rightarrow> (call_exc + 'r) \<times> sdk \<times> 'w"

text \<open>\<^verbatim>\<open>int(v or 0)\<close> and \<^verbatim>\<open>int(v)\<close>; \<open>trunc\<close> is \<^verbatim>\<open>int\<close> of a float.\<close>

fun int_of :: "(pyfloat \<Rightarrow> py_exc + int) \<Rightarrow> json \<Rightarrow> client_exc + int" where
  "int_of trunc (JBool b) = Inr (if b then 1 else 0)"
| "int_of trunc (JInt i) = Inr i"
| "int_of trunc (JFloat f) = (case trunc f of Inl e \<Rightarrow> Inl (PyError e) | Inr i \<Rightarrow> Inr i)"
| "int_of trunc (JStr s) =
     (case py_int 10 s of
        None \<Rightarrow> Inl (PyError (ValueError (lit ''invalid literal for int()'')))
      | Some i \<Rightarrow> Inr i)"
| "int_of trunc _ = Inl TypeError"

definition int_or_0 :: "(pyfloat \<Rightarrow> py_exc + int) \<Rightarrow> json \<Rightarrow> client_exc + int" where
  "int_or_0 trunc v = (if truthy v then int_of trunc v else Inr 0)"

definition get_or_null :: "json dict \<Rightarrow> pystr \<Rightarrow> json" where
  "get_or_null d key = (case map_of d key of None \<Rightarrow> JNull | Some v \<Rightarrow> v)"

definition dict_drop :: "json dict \<Rightarrow> pystr \<Rightarrow> json dict" where
  "dict_drop d key = filter (\<lambda>kv. fst kv \<noteq> key) d"

text \<open>The organisation of a facade: the argument, the environment, or the demo organisation.\<close>

definition resolved_org :: "(pystr \<Rightarrow> pystr option) \<Rightarrow> pystr option \<Rightarrow> pystr" where
  "resolved_org environ org =
     (case or_name org None of
        Some x \<Rightarrow> x
      | None \<Rightarrow> (case environ (lit ''UNDOLOG_ORG_ID'') of Some x \<Rightarrow> x | None \<Rightarrow> lit ''org_demo''))"

text \<open>The exception that suspends a run, and what a facade tells about it.\<close>

definition awaiting_error :: "call_exc \<Rightarrow> undolog_error option" where
  "awaiting_error e =
     (case e of
        Raised (SdkError x) \<Rightarrow> if err_class x = lit ''AwaitingApprovalError'' then Some x else None
      | _ \<Rightarrow> None)"

definition approval_details :: "undolog_error \<Rightarrow> json dict" where
  "approval_details x = map (\<lambda>n. (lit n, get_or_null (err_attrs x) (lit n))) [''approval_id'', ''tool_name'', ''step_index'']"

text \<open>
  The session of a run: a new one, or the one whose identifier is given, at the given step. Its
  reference \<open>i\<close> and the reference \<open>m\<close> of the context manager are arguments, as its random
  identifier is.
\<close>

definition open_session :: "runtime \<Rightarrow> pystr \<Rightarrow> pystr \<Rightarrow> json \<Rightarrow> int \<Rightarrow> UndoLogSession" where
  "open_session rt org uuid4 given start =
     (new_session org uuid4)\<lparr>session_id := if truthy given then py_str rt given else uuid4, step_index := start\<rparr>"

definition enter_session :: "UndoLogSession \<Rightarrow> nat \<Rightarrow> nat \<Rightarrow> sdk \<Rightarrow> sdk" where
  "enter_session ses i m k =
     k\<lparr>sk_sessions := (sk_sessions k)(i := ses),
       sk_context := aenter m ((sk_context k)\<lparr>cx_managers := (cx_managers (sk_context k))(m := run_with_session i)\<rparr>)\<rparr>"

definition in_session :: "UndoLogSession \<Rightarrow> nat \<Rightarrow> nat \<Rightarrow> ('w, 'r) framework \<Rightarrow> ('w, 'r) framework" where
  "in_session ses i m call k w =
     (let (r, k', w') = call (enter_session ses i m k) w in (r, k'\<lparr>sk_context := aexit m (sk_context k')\<rparr>, w'))"

section \<open>Facades that remember their run\<close>

record facade =
  fa_org :: pystr
  fa_session_id :: "pystr option"
  fa_step_index :: int
  fa_awaiting_approval :: bool
  fa_approval_request :: "json dict option"

definition run_recorded ::
  "UndoLogSession \<Rightarrow> nat \<Rightarrow> nat \<Rightarrow> ('w, 'r) framework \<Rightarrow> 'z facade_scheme \<Rightarrow> sdk \<Rightarrow> 'w \<Rightarrow>
     (call_exc + 'r) \<times> 'z facade_scheme \<times> sdk \<times> 'w" where
  "run_recorded ses i m call fa k w =
     (let fa1 = fa\<lparr>fa_session_id := Some (session_id ses), fa_step_index := step_index ses, fa_awaiting_approval := False,
            fa_approval_request := None\<rparr>;
          (r, k', w') = in_session ses i m call k w;
          fa2 =
            (case r of
               Inr _ \<Rightarrow> fa1
             | Inl e \<Rightarrow>
                 (case awaiting_error e of
                    None \<Rightarrow> fa1
                  | Some x \<Rightarrow> fa1\<lparr>fa_awaiting_approval := True, fa_approval_request := Some (approval_details x)\<rparr>))
      in (r, fa2\<lparr>fa_step_index := step_index (sk_sessions k' i)\<rparr>, k', w'))"

definition SESSION_KEY :: pystr where
  "SESSION_KEY = lit ''session_id''"

definition STEP_KEY :: pystr where
  "STEP_KEY = lit ''undolog_step_index''"

subsection \<open>Crews\<close>

record 'b wrapped_crew = facade +
  wc_crew :: "'b crew"
  wc_options :: mapping_options

definition wrap_crewai ::
  "(pystr \<Rightarrow> pystr option) \<Rightarrow> 'b crew \<Rightarrow> pystr option \<Rightarrow> mapping_options \<Rightarrow> 'b wrapped_crew" where
  "wrap_crewai environ crew org opt =
     \<lparr>fa_org = resolved_org environ org, fa_session_id = None, fa_step_index = 0, fa_awaiting_approval = False,
      fa_approval_request = None, wc_crew = crew, wc_options = opt\<rparr>"

definition crew_payload :: "json dict \<Rightarrow> json dict option" where
  "crew_payload given = (let payload = dict_drop (dict_drop given SESSION_KEY) STEP_KEY in if payload = [] then None else Some payload)"

definition kickoff_async ::
  "runtime \<Rightarrow> (pyfloat \<Rightarrow> py_exc + int) \<Rightarrow> pystr \<Rightarrow> nat \<Rightarrow> nat \<Rightarrow> ('b crew \<Rightarrow> json dict option \<Rightarrow> ('w, 'r) framework) \<Rightarrow>
     json dict option \<Rightarrow> 'b wrapped_crew \<Rightarrow> sdk \<Rightarrow> 'w \<Rightarrow> (call_exc + 'r) \<times> 'b wrapped_crew \<times> sdk \<times> 'w" where
  "kickoff_async rt trunc uuid4 i m kickoff inputs fc k w =
     (let given = (case inputs of None \<Rightarrow> [] | Some d \<Rightarrow> d)
      in case int_or_0 trunc (get_or_null given STEP_KEY) of
           Inl e \<Rightarrow> (Inl (Raised e), fc, k, w)
         | Inr start \<Rightarrow>
             (case prepare_agents rt (wc_options fc) (wc_crew fc) of
                (Inl e, crew) \<Rightarrow> (Inl (Raised e), fc\<lparr>wc_crew := crew\<rparr>, k, w)
              | (Inr _, crew) \<Rightarrow>
                  run_recorded (open_session rt (fa_org fc) uuid4 (get_or_null given SESSION_KEY) start) i m
                    (kickoff crew (crew_payload given)) (fc\<lparr>wc_crew := crew\<rparr>) k w))"

subsection \<open>Indexes and chat agents\<close>

record 'b wrapped_index = facade +
  wi_index :: "'b tool_index"
  wi_options :: mapping_options
  wi_multi_turn :: bool

definition wrap_llamaindex ::
  "(pystr \<Rightarrow> pystr option) \<Rightarrow> 'b tool_index \<Rightarrow> pystr option \<Rightarrow> mapping_options \<Rightarrow> bool \<Rightarrow> 'b wrapped_index" where
  "wrap_llamaindex environ index org opt multi_turn =
     \<lparr>fa_org = resolved_org environ org, fa_session_id = None, fa_step_index = 0, fa_awaiting_approval = False,
      fa_approval_request = None, wi_index = index, wi_options = opt, wi_multi_turn = multi_turn\<rparr>"

text \<open>The identifier and the step a turn starts from; a chat goes on where the last turn stopped.\<close>

definition turn_origin ::
  "(pyfloat \<Rightarrow> py_exc + int) \<Rightarrow> bool \<Rightarrow> json \<Rightarrow> json \<Rightarrow> 'b wrapped_index \<Rightarrow> client_exc + (json \<times> int)" where
  "turn_origin trunc is_chat given step_arg fx =
     (let step_or = (\<lambda>d. if step_arg = JNull then Inr d else int_of trunc step_arg)
      in if given \<noteq> JNull then rbind (step_or 0) (\<lambda>n. Inr (given, n))
         else
           (case (is_chat \<or> wi_multi_turn fx, fa_session_id fx) of
              (True, Some s) \<Rightarrow> rbind (step_or (fa_step_index fx)) (\<lambda>n. Inr (JStr s, n))
            | _ \<Rightarrow> rbind (step_or 0) (\<lambda>n. Inr (JNull, n))))"

definition run_turn ::
  "runtime \<Rightarrow> (pyfloat \<Rightarrow> py_exc + int) \<Rightarrow> pystr \<Rightarrow> nat \<Rightarrow> nat \<Rightarrow> bool \<Rightarrow> ('b tool_index \<Rightarrow> json dict \<Rightarrow> ('w, 'r) framework) \<Rightarrow>
     json dict \<Rightarrow> 'b wrapped_index \<Rightarrow> sdk \<Rightarrow> 'w \<Rightarrow> (call_exc + 'r) \<times> 'b wrapped_index \<times> sdk \<times> 'w" where
  "run_turn rt trunc uuid4 i m is_chat call kwargs fx k w =
     (case turn_origin trunc is_chat (get_or_null kwargs SESSION_KEY) (get_or_null kwargs STEP_KEY) fx of
        Inl e \<Rightarrow> (Inl (Raised e), fx, k, w)
      | Inr (given, start) \<Rightarrow>
          (case prepare_index rt (wi_options fx) (wi_index fx) of
             (Inl e, index) \<Rightarrow> (Inl (Raised e), fx\<lparr>wi_index := index\<rparr>, k, w)
           | (Inr _, index) \<Rightarrow>
               run_recorded (open_session rt (fa_org fx) uuid4 given start) i m
                 (call index (dict_drop (dict_drop kwargs SESSION_KEY) STEP_KEY)) (fx\<lparr>wi_index := index\<rparr>) k w))"

definition aquery where "aquery rt trunc uuid4 i m = run_turn rt trunc uuid4 i m False"

definition achat where "achat rt trunc uuid4 i m = run_turn rt trunc uuid4 i m True"

section \<open>Graphs\<close>

text \<open>
  A graph facade remembers nothing: the state that it returns carries the session. The value of
  the key \<^verbatim>\<open>__interrupt__\<close> is a tuple, shown here as a list.
\<close>

record wrapped_graph =
  wg_org :: pystr
  wg_raise_interrupt :: bool

datatype graph_exc = Propagated call_exc | GraphInterrupt "json dict"

definition wrap_langgraph :: "(pystr \<Rightarrow> pystr option) \<Rightarrow> pystr option \<Rightarrow> bool \<Rightarrow> wrapped_graph" where
  "wrap_langgraph environ org raise_interrupt = \<lparr>wg_org = resolved_org environ org, wg_raise_interrupt = raise_interrupt\<rparr>"

text \<open>A \<^verbatim>\<open>RunnableConfig\<close>; its part \<^verbatim>\<open>configurable\<close> may hold objects, of which the session is one.\<close>

datatype conf = ConfVal json | ConfSession nat

record runnable_config =
  rc_configurable :: "conf dict option"
  rc_other :: "json dict"

definition effective_config :: "nat \<Rightarrow> runnable_config option \<Rightarrow> runnable_config" where
  "effective_config i config =
     (let c = (case config of None \<Rightarrow> \<lparr>rc_configurable = None, rc_other = []\<rparr> | Some c \<Rightarrow> c)
      in c\<lparr>rc_configurable := Some (AList.update (lit ''undolog_session'') (ConfSession i)
           (case rc_configurable c of None \<Rightarrow> [] | Some d \<Rightarrow> d))\<rparr>)"

definition interrupt_event :: "undolog_error \<Rightarrow> json dict" where
  "interrupt_event x = approval_details x @ [(lit ''type'', JStr (lit ''approval_required''))]"

definition suspended_state :: "json dict \<Rightarrow> pystr \<Rightarrow> int \<Rightarrow> undolog_error \<Rightarrow> json dict" where
  "suspended_state input ses start x =
     dict_update input [(SESSION_KEY, JStr ses), (STEP_KEY, JInt start), (lit ''awaiting_approval'', JBool True),
       (lit ''approval_request'', JDict (approval_details x)),
       (lit ''__interrupt__'', JList [JDict [(lit ''value'', JDict (interrupt_event x)), (lit ''resumable'', JBool True)]])]"

definition enriched_state :: "json dict \<Rightarrow> pystr \<Rightarrow> int \<Rightarrow> json dict" where
  "enriched_state output ses start =
     dict_update output [(SESSION_KEY, JStr ses), (STEP_KEY, JInt start), (lit ''awaiting_approval'', JBool False),
       (lit ''approval_request'', JNull), (lit ''__interrupt__'', JNull)]"

definition ainvoke ::
  "runtime \<Rightarrow> (pyfloat \<Rightarrow> py_exc + int) \<Rightarrow> wrapped_graph \<Rightarrow> pystr \<Rightarrow> nat \<Rightarrow> nat \<Rightarrow>
     (json dict \<Rightarrow> runnable_config \<Rightarrow> ('w, json) framework) \<Rightarrow> json dict \<Rightarrow> runnable_config option \<Rightarrow> sdk \<Rightarrow> 'w \<Rightarrow>
     (graph_exc + json) \<times> sdk \<times> 'w" where
  "ainvoke rt trunc wg uuid4 i m graph input config k w =
     (case int_or_0 trunc (get_or_null input STEP_KEY) of
        Inl e \<Rightarrow> (Inl (Propagated (Raised e)), k, w)
      | Inr start \<Rightarrow>
          (let (r, k', w') = in_session (open_session rt (wg_org wg) uuid4 (get_or_null input SESSION_KEY) start) i m
                 (graph input (effective_config i config)) k w;
               ses = session_id (sk_sessions k' i)
           in (case r of
                 Inl e \<Rightarrow>
                   (case awaiting_error e of
                      None \<Rightarrow> Inl (Propagated e)
                    | Some x \<Rightarrow>
                        if wg_raise_interrupt wg then Inl (GraphInterrupt (interrupt_event x))
                        else Inr (JDict (suspended_state input ses start x)))
               | Inr (JDict output) \<Rightarrow> Inr (JDict (enriched_state output ses start))
               | Inr v \<Rightarrow> Inr v, k', w')))"

end
