(* ===== verification/Resume.thy ===== *)
theory Resume
  imports EndToEnd Facades
begin

text \<open>
  Agents that are run again. An agent calls decorated tools one after the other in the session
  that a facade opened; when its run is cut short, running it again in the same session replays
  the calls that were completed and goes on with the rest.
\<close>

section \<open>Services that do not forget\<close>

text \<open>A service that keeps every settled call, whatever other call is made.\<close>

locale memo_service = effect_service +
  assumes ic_keeps: "ok w \<Longrightarrow> key_ok k \<Longrightarrow> entry w k \<noteq> Held \<Longrightarrow> entry w k' = Settled y \<Longrightarrow> entry (snd (ic k w)) k' = Settled y"
    and cm_keeps: "ok w \<Longrightarrow> key_ok k \<Longrightarrow> entry w k = Running i \<Longrightarrow> result_ok k v \<Longrightarrow> entry w k' = Settled y \<Longrightarrow>
      entry (snd (cm k (JStr i) v w)) k' = Settled y"
begin

definition kept where
  "kept w w' \<longleftrightarrow> (\<forall>k y. entry w k = Settled y \<longrightarrow> entry w' k = Settled y)"

lemma completed_call:
  assumes "ok w" "key_ok k" "entry w k \<noteq> Held" "harmless func" "call rt t step k func w = (Inr v, w')"
    and "\<And>w1 w2 u. out w1 = out w \<Longrightarrow> func w1 = (Inr u, w2) \<Longrightarrow> result_ok k (envelope_of u)"
  shows "ok w' \<and> kept w w' \<and> (\<exists>x. entry w' k = Settled x \<and> unwrap_replay_result x = v)"
proof (cases "\<exists>x. entry w k = Settled x")
  case True
  then obtain x where x: "entry w k = Settled x" by blast
  from ic_settled [OF assms(1,2) x] obtain r w1 where "ic k w = (Inr r, w1)" "ir_outcome r = outcome.Replay"
    "ir_cached_result r = x" "ok w1" "entry w1 k = Settled x" by blast
  moreover from this have "kept w w1" using ic_keeps [OF assms(1-3)] by (auto simp: kept_def)
  ultimately show ?thesis using assms(5) by (auto simp: run_intercepted_def)
next
  case False
  with assms(3) obtain i where "entry w k = Free \<or> entry w k = Running i" by (cases "entry w k") auto
  from ic_open [OF assms(1,2) this] obtain j r w1 where r: "ic k w = (Inr r, w1)" "ir_outcome r = Execute"
    "ir_effect_id r = JStr j" "j \<noteq> []" "ok w1" "entry w1 k = Running j" by blast
  have w1: "out w1 = out w" "kept w w1" using ic_out [of k w] ic_keeps [OF assms(1-3)] r(1) by (auto simp: kept_def)
  obtain b w2 where b: "func w1 = (b, w2)" by force
  with assms(4) r(5) have w2: "ok w2" "entry w2 = entry w1" by (force simp: harmless_def)+
  obtain u where u: "b = Inr u" using assms(5) r b by (cases b) (auto simp: run_intercepted_def split: body_exc.splits)
  have ro: "result_ok k (envelope_of u)" using assms(6) [OF w1(1)] b u by blast
  from cm_running [OF w2(1) assms(2) _ ro] w2(2) r(6) obtain x w3 where
    w3: "cm k (JStr j) (envelope_of u) w2 = (Inr x, w3)" "ok w3" "entry w3 k = Settled (envelope_of u)" by auto
  have "kept w2 w3" using cm_keeps [OF w2(1) assms(2) _ ro] w2(2) r(6) w3(1) by (fastforce simp: kept_def)
  then have "kept w w3" using w1(2) w2(2) by (auto simp: kept_def)
  moreover have "v = u" "w' = w3" using assms(5) r b u w3(1) by (auto simp: run_intercepted_def envelope_of_def)
  ultimately show ?thesis using w3 by simp
qed

lemma replayed_call:
  assumes "ok w" "key_ok k" "entry w k = Settled x"
  shows "\<exists>w'. ok w' \<and> kept w w' \<and> out w' = out w \<and> (\<forall>func. call rt t step k func w = (Inr (unwrap_replay_result x), w'))"
proof -
  from ic_settled [OF assms] obtain r w1 where r: "ic k w = (Inr r, w1)" "ir_outcome r = outcome.Replay"
    "ir_cached_result r = x" "ok w1" by blast
  moreover have "kept w w1" "out w1 = out w" using ic_keeps [OF assms(1,2)] assms(3) ic_out [of k w] r(1) by (auto simp: kept_def)
  ultimately show ?thesis by (intro exI [of _ w1]) (simp add: run_intercepted_def)
qed

end

interpretation memo: memo_service "dev_ok w" "dev_key_ok w cfg enc cl" "dev_entry w" "dev_result_ok w enc"
  "dev_error_ok w enc" "dev_ic w cfg enc cl" "dev_cm w cfg enc cl" "dev_fl w cfg enc cl" snd for w cfg enc cl
proof (unfold_locales, goal_cases)
  case (1 st k k' y)
  obtain s a where st: "st = (s, a)" by (cases st)
  show ?case
  proof (cases "\<exists>x. dev_entry w st k = Settled x")
    case True
    then show ?thesis using dev_ic_settled [of w s a cfg enc cl k] 1 unfolding st settled_kept_def by (metis snd_conv)
  next
    case False
    with 1 obtain i where "dev_entry w (s, a) k = Free \<or> dev_entry w (s, a) k = Running i"
      unfolding st by (cases "dev_entry w (s, a) k") auto
    from dev_ic_open [OF _ _ this] 1 show ?thesis unfolding st settled_kept_def by (metis snd_conv)
  qed
next
  case (2 st k i v k' y)
  obtain s a where st: "st = (s, a)" by (cases st)
  from dev_cm_running [of w s a cfg enc cl k i v] 2 show ?case unfolding st settled_kept_def by (metis snd_conv)
qed

lemma memo_kept: "memo.kept w = settled_kept w"
  by (intro ext) (simp add: memo.kept_def settled_kept_def)

section \<open>Agents\<close>

text \<open>
  The framework that runs the agent is not part of the SDK. What is shown below is about the
  agents of this section, whatever they are: programs that call tools one after the other and
  decide from the results they have seen which tool they call next. The tools find their session
  in the context. \<open>play\<close> is a run on the dev server: it ends with the first exception.
\<close>

record 'a tool_use =
  tu_tool :: tool
  tu_body :: "'a body"
  tu_args :: "json list"
  tu_kwargs :: "json dict"

datatype ('a, 'r) agent = Finish 'r | Use "'a tool_use" "json \<Rightarrow> ('a, 'r) agent"

definition use_attempt :: "'a tool_use \<Rightarrow> sdk \<Rightarrow> 'a attempt" where
  "use_attempt u k = \<lparr>at_tool = tu_tool u, at_body = tu_body u, at_session = None, at_args = tu_args u,
     at_kwargs = tu_kwargs u, at_sdk = k\<rparr>"

primrec play ::
  "world \<Rightarrow> config \<Rightarrow> (json \<Rightarrow> py_exc + bytes) \<Rightarrow> (pystr \<Rightarrow> pystr option) \<Rightarrow> ('a, 'r) agent \<Rightarrow> (server \<times> 'a, 'r) framework" where
  "play w cfg enc environ (Finish r) k st = (Inr r, k, st)"
| "play w cfg enc environ (Use u f) k st =
     (case attempt_call w cfg enc environ (use_attempt u k) st of
        (Inl e, k', st') \<Rightarrow> (Inl e, k', st')
      | (Inr v, k', st') \<Rightarrow> play w cfg enc environ (f v) k' st')"

text \<open>
  The first calls of a run with the values they were completed with, and the rest of the agent.
  Each was an intercepted call that the server can take, not one that is held for an approval.
\<close>

inductive completed ::
  "world \<Rightarrow> config \<Rightarrow> (json \<Rightarrow> py_exc + bytes) \<Rightarrow> (pystr \<Rightarrow> pystr option) \<Rightarrow> ('a tool_use \<times> json) list \<Rightarrow> ('a, 'r) agent \<Rightarrow>
     sdk \<Rightarrow> server \<times> 'a \<Rightarrow> ('a, 'r) agent \<Rightarrow> sdk \<Rightarrow> server \<times> 'a \<Rightarrow> bool"
  for w cfg enc environ where
  completed_none: "completed w cfg enc environ [] g k st g k st"
| completed_call: "attempt_key environ (use_attempt u k) = Some (cl, key) \<Longrightarrow> dev_key_ok w cfg enc cl key \<Longrightarrow>
    dev_entry w st key \<noteq> Held \<Longrightarrow>
    (\<forall>v a. tu_body u (tu_args u) (tu_kwargs u) (snd st) = (Inr v, a) \<longrightarrow> dev_result_ok w enc key (envelope_of v)) \<Longrightarrow>
    attempt_call w cfg enc environ (use_attempt u k) st = (Inr v, k1, st1) \<Longrightarrow>
    completed w cfg enc environ cs (f v) k1 st1 g' k' st' \<Longrightarrow>
    completed w cfg enc environ ((u, v) # cs) (Use u f) k st g' k' st'"

text \<open>An agent that begins with given calls, provided that they return given values, and its rest.\<close>

inductive begins :: "('a tool_use \<times> json) list \<Rightarrow> ('a, 'r) agent \<Rightarrow> ('a, 'r) agent \<Rightarrow> bool" where
  begins_none: "begins [] g g"
| begins_call: "begins cs (f v) g' \<Longrightarrow> begins ((u, v) # cs) (Use u f) g'"

inductive_cases begins_NilE: "begins [] g g'"
inductive_cases begins_ConsE: "begins ((u, v) # cs) g g'"

lemma completed_begins: "completed w cfg enc environ cs g k st g' k' st' \<Longrightarrow> begins cs g g'"
  by (induction rule: completed.induct) (auto intro: begins.intros)

text \<open>What the tools see of the state of the SDK: the session that is current.\<close>

definition current :: "sdk \<Rightarrow> UndoLogSession option" where
  "current k = map_option (sk_sessions k) (get_current_session (sk_context k))"

definition stepped :: "UndoLogSession \<Rightarrow> nat \<Rightarrow> UndoLogSession" where
  "stepped ses n = ses\<lparr>step_index := step_index ses + int n\<rparr>"

lemma dev_key_ok_client: "dev_key_ok w cfg enc cl k = dev_key_ok w cfg enc cl' k"
  by (simp add: dev_key_ok_def dev_call_ok_def key_request_def intercept_request_def)

lemma same_key:
  assumes "attempt_key environ (use_attempt u k) = Some (cl, key)" "current k2 = current k"
  shows "\<exists>cl2. attempt_key environ (use_attempt u k2) = Some (cl2, key)"
  using assms
  by (auto simp: attempt_key_def use_attempt_def current_def Let_def split: option.splits if_splits)

lemma current_after:
  assumes "attempt_key environ (use_attempt u k) = Some (cl, key)" "attempt_call w cfg enc environ (use_attempt u k) st = (r, k1, st1)"
  shows "\<exists>ses. current k = Some ses \<and> current k1 = Some (stepped ses 1)"
  using assms
  by (auto simp: attempt_key_def attempt_call_def wrapper_def use_attempt_def current_def get_current_session_def next_step_def
    stepped_def Let_def split: option.splits if_splits prod.splits)

lemma completed_steps:
  "completed w cfg enc environ cs g k st g' k' st' \<Longrightarrow> cs \<noteq> [] \<or> current k = Some ses \<Longrightarrow>
     \<exists>ses. current k = Some ses \<and> current k' = Some (stepped ses (length cs))"
proof (induction rule: completed.induct)
  case (completed_call u k cl key st v k1 st1 cs f g' k' st')
  from current_after [OF completed_call.hyps(1,5)] obtain s where s: "current k = Some s" "current k1 = Some (stepped s 1)" by blast
  show ?case
  proof (cases cs)
    case Nil
    then show ?thesis using s completed_call.hyps(6) by (auto elim: completed.cases)
  next
    case (Cons x xs)
    then show ?thesis using s completed_call.IH by (auto simp: stepped_def)
  qed
qed (auto simp: stepped_def)

section \<open>Replay of an agent\<close>

lemma completed_attempt:
  assumes "attempt_key environ x = Some (cl, key)" "dev_ok w st" "dev_key_ok w cfg enc cl key" "dev_entry w st key \<noteq> Held"
    and "\<forall>v a. at_body x (at_args x) (at_kwargs x) (snd st) = (Inr v, a) \<longrightarrow> dev_result_ok w enc key (envelope_of v)"
    and "attempt_call w cfg enc environ x st = (Inr v, k1, st1)"
  shows "dev_ok w st1 \<and> settled_kept w st st1 \<and> (\<exists>y. dev_entry w st1 key = Settled y \<and> unwrap_replay_result y = v)"
proof -
  let ?f = "outside (at_body x) (at_args x) (at_kwargs x)"
  from attempt_call_eq [OF assms(1), of w cfg enc st] assms(6) have c: "dev.call w cfg enc cl (w_rt w) (at_tool x) (ck_step key) key ?f st = (Inr v, st1)"
    by (cases "dev.call w cfg enc cl (w_rt w) (at_tool x) (ck_step key) key ?f st") auto
  have "dev_result_ok w enc key (envelope_of u)" if "snd w1 = snd st" "?f w1 = (Inr u, w2)" for w1 w2 u
    using assms(5) that by (auto simp: outside_def split: prod.splits)
  from memo.completed_call [OF assms(2-4) outside_harmless c this] show ?thesis unfolding memo_kept .
qed

lemma replayed_attempt:
  assumes "attempt_key environ x = Some (cl, key)" "dev_ok w (s, b)" "dev_key_ok w cfg enc cl key" "dev_entry w (s, b) key = Settled y"
  shows "\<exists>k1 s1. attempt_call w cfg enc environ x (s, b) = (Inr (unwrap_replay_result y), k1, (s1, b)) \<and> dev_ok w (s1, b) \<and>
    settled_kept w (s, b) (s1, b)"
proof -
  from memo.replayed_call [OF assms(2-4)] obtain st where "dev_ok w st" "settled_kept w (s, b) st" "snd st = b"
      "\<And>func. dev.call w cfg enc cl (w_rt w) (at_tool x) (ck_step key) key func (s, b) = (Inr (unwrap_replay_result y), st)"
    unfolding memo_kept by force
  moreover from attempt_call_eq [OF assms(1), of w cfg enc "(s, b)"] obtain sk where "attempt_call w cfg enc environ x (s, b) =
    (let (r, st') = dev.call w cfg enc cl (w_rt w) (at_tool x) (ck_step key) key (outside (at_body x) (at_args x) (at_kwargs x)) (s, b)
     in (r, sk, st'))" by blast
  ultimately show ?thesis by (cases st) auto
qed

lemma settled_kept_trans: "settled_kept w st st' \<Longrightarrow> settled_kept w st' st'' \<Longrightarrow> settled_kept w st st''"
  by (auto simp: settled_kept_def)

lemma completed_replays:
  assumes "completed w cfg enc environ cs g k st g' k' (st' :: server \<times> 'a)" "dev_ok w st"
  shows "dev_ok w st' \<and> settled_kept w st st' \<and>
    (\<forall>(h :: ('a, 's) agent) h' k2 s2 b. begins cs h h' \<longrightarrow> dev_ok w (s2, b) \<longrightarrow> settled_kept w st' (s2, b) \<longrightarrow> current k2 = current k \<longrightarrow>
       (\<exists>k3 s3. play w cfg enc environ h k2 (s2, b) = play w cfg enc environ h' k3 (s3, b) \<and> current k3 = current k'))"
  using assms
proof (induction rule: completed.induct)
  case (completed_call u k cl key st v k1 st1 cs f g' k' st')
  let ?at = "use_attempt u"
  have "\<forall>v a. at_body (?at k) (at_args (?at k)) (at_kwargs (?at k)) (snd st) = (Inr v, a) \<longrightarrow> dev_result_ok w enc key (envelope_of v)"
    using completed_call.hyps(4) by (simp add: use_attempt_def)
  from completed_attempt [OF completed_call.hyps(1) completed_call.prems completed_call.hyps(2,3) this completed_call.hyps(5)]
  obtain y where y: "dev_ok w st1" "settled_kept w st st1" "dev_entry w st1 key = Settled y" "unwrap_replay_result y = v" by blast
  note IH = completed_call.IH [OF y(1)]
  have "\<exists>k3 s3. play w cfg enc environ h k2 (s2, b) = play w cfg enc environ h' k3 (s3, b) \<and> current k3 = current k'"
    if k2: "dev_ok w (s2, b)" "settled_kept w st' (s2, b)" "current k2 = current k" and h: "begins ((u, v) # cs) h h'"
    for h h' :: "('a, 's) agent" and k2 s2 b
  proof -
    from h obtain f2 where f2: "h = Use u f2" "begins cs (f2 v) h'" by (rule begins_ConsE)
    obtain cl2 where cl2: "attempt_key environ (?at k2) = Some (cl2, key)" using same_key [OF completed_call.hyps(1) k2(3)] by blast
    have "dev_entry w (s2, b) key = Settled y" using y(3) IH k2(2) by (auto simp: settled_kept_def)
    from replayed_attempt [OF cl2 k2(1) _ this] completed_call.hyps(2) y(4) obtain k3 s3 where
      k3: "attempt_call w cfg enc environ (?at k2) (s2, b) = (Inr v, k3, (s3, b))" "dev_ok w (s3, b)" "settled_kept w (s2, b) (s3, b)"
      using dev_key_ok_client by blast
    have "current k3 = current k1"
      using current_after [OF cl2 k3(1)] current_after [OF completed_call.hyps(1,5)] k2(3) by auto
    with IH f2(2) k3(2) settled_kept_trans [OF k2(2) k3(3)] obtain k4 s4 where
      "play w cfg enc environ (f2 v) k3 (s3, b) = play w cfg enc environ h' k4 (s4, b)" "current k4 = current k'" by blast
    then show ?thesis using k3(1) f2(1) by auto
  qed
  moreover have "dev_ok w st'" "settled_kept w st st'" using IH settled_kept_trans [OF y(2)] by blast+
  ultimately show ?case by blast
qed (auto simp: settled_kept_def elim: begins_NilE)

section \<open>Running a facade again\<close>

lemma current_entered [simp]: "current (enter_session ses i m k) = Some ses"
  by (simp add: current_def enter_session_def get_current_session_def aenter_def Let_def run_with_session_def)

lemma agent_again:
  assumes "completed w cfg enc environ cs g (enter_session ses i m k) (s, a) g' k' (s', a')" "dev_ok w (s, a)"
    and "dev_ok w (s2, b)" "settled_kept w (s', a') (s2, b)" "begins cs h h'"
  shows "\<exists>k4 s4. current k4 = Some (stepped ses (length cs)) \<and>
    play w cfg enc environ h (enter_session ses i' m' k2) (s2, b) = play w cfg enc environ h' k4 (s4, b)"
proof -
  have "current k' = Some (stepped ses (length cs))" using completed_steps [OF assms(1), of ses] by auto
  then show ?thesis
    using completed_replays [OF assms(1,2)] assms(3-5) by (metis current_entered)
qed

lemma map_of_dict_update: "map_of (dict_update d e) x = (case map_of (rev e) x of Some v \<Rightarrow> Some v | None \<Rightarrow> map_of d x)"
  by (induction e arbitrary: d) (auto simp: dict_update_def update_conv' split: option.splits)

lemma dict_drop_update: "dict_drop (AList.update x v d) x = dict_drop d x"
  by (induction d) (auto simp: dict_drop_def)

lemma keys_differ [simp]: "SESSION_KEY \<noteq> STEP_KEY" "STEP_KEY \<noteq> SESSION_KEY"
  by (simp_all add: SESSION_KEY_def STEP_KEY_def lit_def)

lemma run_recorded_cong:
  "call (enter_session ses i m k) st = call' (enter_session ses i m k) st \<Longrightarrow>
     run_recorded ses i m call fa k st = run_recorded ses i m call' fa k st"
  by (simp add: run_recorded_def in_session_def)

lemma run_recorded_facade:
  assumes "run_recorded ses i m call fa k st = (r, fa', k', st')"
  shows "fa_session_id fa' = Some (session_id ses)" "fa_org fa' = fa_org fa" "facade.more fa' = facade.more fa"
  using assms by (auto simp: run_recorded_def Let_def split: prod.splits sum.splits option.splits)

lemma kickoff_runs:
  assumes "prepare_agents rt (wc_options fc) (wc_crew fc) = (Inr u, crew)" "int_or_0 trunc (get_or_null inputs STEP_KEY) = Inr start"
  shows "kickoff_async rt trunc uuid4 i m kickoff (Some inputs) fc k st =
    run_recorded (open_session rt (fa_org fc) uuid4 (get_or_null inputs SESSION_KEY) start) i m (kickoff crew (crew_payload inputs))
      (fc\<lparr>wc_crew := crew\<rparr>) k st"
  using assms by (simp add: kickoff_async_def)

lemma wrapped_crew_more:
  "facade.more (fc' :: 'b wrapped_crew) = facade.more (fc :: 'b wrapped_crew) \<Longrightarrow> wc_crew fc' = wc_crew fc \<and> wc_options fc' = wc_options fc"
  by (cases fc; cases fc') simp

text \<open>
  C2. A crew that is run again does not repeat what it has done. The crew is any sequential
  program of tool calls that is determined by the prepared crew, its inputs and the results it
  has seen. Suppose a run of it, started without a step, completed some calls of intercepted
  tools, however it ended after them, and whatever happened on the server since, as long as no
  completed call was touched. Then running the crew again with the identifier that the facade
  reports replays these calls: the run is the one of the agent's remaining part, with the world
  as it is, in a session that stands behind the completed steps.
\<close>

theorem crew_resumes:
  assumes "prepare_agents (w_rt w) (wc_options fc) (wc_crew fc) = (Inr (), crew)" "map_of inputs STEP_KEY = None"
    and "ses = open_session (w_rt w) (fa_org fc) uuid4 (get_or_null inputs SESSION_KEY) 0" "session_id ses \<noteq> []"
    and "kickoff_async (w_rt w) trunc uuid4 i m (\<lambda>c p. play w cfg enc environ (ag c p)) (Some inputs) fc k (s, a) = (r, fc1, k1, st1)"
    and "completed w cfg enc environ cs (ag crew (crew_payload inputs)) (enter_session ses i m k) (s, a) g' k' (s', a')"
    and "dev_ok w (s, a)" "dev_ok w (s2, b)" "settled_kept w (s', a') (s2, b)"
  shows "fa_session_id fc1 = Some (session_id ses) \<and>
    (let again = dict_update inputs [(SESSION_KEY, JStr (session_id ses))] in
     \<exists>k4 s4. current k4 = Some (stepped ses (length cs)) \<and>
       kickoff_async (w_rt w) trunc uuid4' i' m' (\<lambda>c p. play w cfg enc environ (ag c p)) (Some again) fc1 k2 (s2, b) =
       kickoff_async (w_rt w) trunc uuid4' i' m' (\<lambda>_ _ _ _. play w cfg enc environ g' k4 (s4, b)) (Some again) fc1 k2 (s2, b))"
proof -
  let ?again = "dict_update inputs [(SESSION_KEY, JStr (session_id ses))]"
  have z: "int_or_0 trunc (get_or_null inputs STEP_KEY) = Inr 0" "int_or_0 trunc (get_or_null ?again STEP_KEY) = Inr 0"
    using assms(2) by (simp_all add: int_or_0_def get_or_null_def map_of_dict_update)
  from assms(5) have "run_recorded ses i m (play w cfg enc environ (ag crew (crew_payload inputs))) (fc\<lparr>wc_crew := crew\<rparr>) k (s, a) = (r, fc1, k1, st1)"
    unfolding kickoff_runs [OF assms(1) z(1)] assms(3) .
  note f = run_recorded_facade [OF this]
  have p: "prepare_agents (w_rt w) (wc_options fc1) (wc_crew fc1) = (Inr (), crew)"
    using prepared_crew [OF assms(1)] wrapped_crew_more [OF f(3)] by simp
  have ses: "open_session (w_rt w) (fa_org fc1) uuid4' (get_or_null ?again SESSION_KEY) 0 = ses"
    using assms(3,4) f(2) by (simp add: open_session_def get_or_null_def map_of_dict_update py_str_def new_session_def)
  have pay: "crew_payload ?again = crew_payload inputs"
    by (simp add: crew_payload_def dict_update_def dict_drop_update)
  from agent_again [OF assms(6-9) completed_begins [OF assms(6)]] obtain k4 s4 where k4: "current k4 = Some (stepped ses (length cs))"
    "play w cfg enc environ (ag crew (crew_payload inputs)) (enter_session ses i' m' k2) (s2, b) = play w cfg enc environ g' k4 (s4, b)" by blast
  have "kickoff_async (w_rt w) trunc uuid4' i' m' (\<lambda>c p. play w cfg enc environ (ag c p)) (Some ?again) fc1 k2 (s2, b) =
      kickoff_async (w_rt w) trunc uuid4' i' m' (\<lambda>_ _ _ _. play w cfg enc environ g' k4 (s4, b)) (Some ?again) fc1 k2 (s2, b)"
    unfolding kickoff_runs [OF p z(2)] ses pay by (rule run_recorded_cong) (rule k4(2))
  with f(1) k4(1) show ?thesis unfolding Let_def by blast
qed

definition sample_use :: "nat tool_use" where
  "sample_use = (let x = sample_attempt ''pay'' (counts (Inr (JInt 7))) in
     \<lparr>tu_tool = at_tool x, tu_body = at_body x, tu_args = at_args x, tu_kwargs = at_kwargs x\<rparr>)"

definition sample_id :: pystr where
  "sample_id = lit ''00000000-0000-0000-0000-0000000000ab''"

abbreviation sample_ses :: UndoLogSession where
  "sample_ses \<equiv> new_session [] sample_id"

lemma sample_completed:
  "\<exists>k' s'. attempt_call sample_world sample_config sample_enc (\<lambda>_. None) (use_attempt sample_use (enter_session sample_ses i m k)) (empty_server, 0) =
       (Inr (JInt 7), k', (s', 1)) \<and> dev_ok sample_world (s', 1 :: nat) \<and>
     completed sample_world sample_config sample_enc (\<lambda>_. None) [(sample_use, JInt 7)] (Use sample_use f) (enter_session sample_ses i m k)
       (empty_server, 0) (f (JInt 7)) k' (s', 1)"
proof -
  let ?x = "use_attempt sample_use (enter_session sample_ses i m k)"
  have key: "attempt_key (\<lambda>_. None) ?x = Some (sample_client, sample_key ''pay'')"
    by (simp add: attempt_key_def use_attempt_def sample_use_def sample_attempt_def sample_key_def sample_id_def new_session_def lit_def
      enter_session_def get_current_session_def aenter_def run_with_session_def Let_def)
  have body: "at_body ?x (at_args ?x) (at_kwargs ?x) 0 = (Inr (JInt 7), 1)"
    by (simp add: use_attempt_def sample_use_def sample_attempt_def counts_def)
  have ok: "dev_ok sample_world (empty_server, 0 :: nat)" "dev_entry sample_world (empty_server, 0 :: nat) (sample_key ''pay'') = Free"
    by (simp_all add: sample_dev_ok sample_free)
  from attempt_runs [OF key ok(1) sample_key_ok _ body] ok(2) sample_result_ok obtain k' s' where
    k': "attempt_call sample_world sample_config sample_enc (\<lambda>_. None) ?x (empty_server, 0) = (Inr (JInt 7), k', (s', 1))"
      "dev_ok sample_world (s', 1 :: nat)" by auto
  have "completed sample_world sample_config sample_enc (\<lambda>_. None) [(sample_use, JInt 7)] (Use sample_use f) (enter_session sample_ses i m k)
      (empty_server, 0) (f (JInt 7)) k' (s', 1)"
    by (rule completed_call [OF key sample_key_ok _ _ k'(1) completed_none])
      (use body ok(2) sample_result_ok in \<open>simp_all add: use_attempt_def\<close>)
  with k' show ?thesis by blast
qed

definition sample_crew :: "nat wrapped_crew" where
  "sample_crew = (wrap_crewai (\<lambda>_. None) \<lparr>cw_agents = [], cw_tasks = [], cw_agent_tools = (\<lambda>_. None), cw_task_tools = (\<lambda>_. None)\<rparr> None
     \<lparr>mo_tiers = [], mo_compensations = [], mo_client = None\<rparr>)\<lparr>fa_org := []\<rparr>"

lemma sample_crew_prepares:
  "facade.more fc = facade.more sample_crew \<Longrightarrow> prepare_agents rt (wc_options fc) (wc_crew fc) = (Inr (), wc_crew sample_crew)"
  using wrapped_crew_more [of fc sample_crew] by (simp add: prepare_agents_def sample_crew_def wrap_crewai_def assign_def)

theorem crew_resumes_witness:
  "\<exists>k fc1 k1 s1 fc2 k3 s3.
     (let go = \<lambda>uuid4. kickoff_async (w_rt sample_world) (\<lambda>_. Inr 0) uuid4 0 0
        (\<lambda>_ _. play sample_world sample_config sample_enc (\<lambda>_. None) (Use sample_use Finish))
      in go sample_id (Some []) sample_crew k (empty_server, 0) = (Inr (JInt 7), fc1, k1, (s1, 1)) \<and>
         fa_session_id fc1 = Some sample_id \<and>
         go (lit ''other'') (Some [(SESSION_KEY, JStr sample_id)]) fc1 k1 (s1, 1) = (Inr (JInt 7), fc2, k3, (s3, 1)))"
proof -
  let ?go = "\<lambda>uuid4. kickoff_async (w_rt sample_world) (\<lambda>_. Inr 0) uuid4 0 0
    (\<lambda>_ _. play sample_world sample_config sample_enc (\<lambda>_. None) (Use sample_use Finish))"
  let ?k = "at_sdk (sample_attempt ''pay'' (counts (Inr (JInt 7))))"
  note p = sample_crew_prepares [of sample_crew "w_rt sample_world", OF refl]
  obtain k' s' where k': "attempt_call sample_world sample_config sample_enc (\<lambda>_. None)
      (use_attempt sample_use (enter_session sample_ses 0 0 ?k)) (empty_server, 0) = (Inr (JInt 7), k', (s', 1))"
    "dev_ok sample_world (s', 1 :: nat)"
    "completed sample_world sample_config sample_enc (\<lambda>_. None) [(sample_use, JInt 7)] (Use sample_use Finish) (enter_session sample_ses 0 0 ?k)
       (empty_server, 0) (Finish (JInt 7)) k' (s', 1)"
    using sample_completed by blast
  have ses: "sample_ses = open_session (w_rt sample_world) (fa_org sample_crew) sample_id (get_or_null [] SESSION_KEY) 0" "session_id sample_ses \<noteq> []"
    by (simp_all add: open_session_def new_session_def get_or_null_def sample_crew_def sample_id_def lit_def)
  have z: "int_or_0 (\<lambda>_. Inr 0) (get_or_null [] STEP_KEY) = Inr 0" "int_or_0 (\<lambda>_. Inr 0) (get_or_null [(SESSION_KEY, x)] STEP_KEY) = Inr 0" for x
    by (simp_all add: int_or_0_def get_or_null_def)
  obtain fc1 k1 where r1: "?go sample_id (Some []) sample_crew ?k (empty_server, 0) = (Inr (JInt 7), fc1, k1, (s', 1))"
    unfolding kickoff_runs [OF p z(1)] ses(1) [symmetric] using k'(1) by (simp add: run_recorded_def in_session_def)
  have "facade.more fc1 = facade.more sample_crew"
    using run_recorded_facade(3) [OF r1 [unfolded kickoff_runs [OF p z(1)]]] by (simp add: sample_crew_def wrap_crewai_def)
  note p1 = sample_crew_prepares [OF this, of "w_rt sample_world"]
  from crew_resumes [OF p _ ses r1 k'(3) sample_dev_ok k'(2), of "lit ''other''" 0 0 k1] obtain k4 s4 where
    "fa_session_id fc1 = Some sample_id" "?go (lit ''other'') (Some [(SESSION_KEY, JStr sample_id)]) fc1 k1 (s', 1) =
       kickoff_async (w_rt sample_world) (\<lambda>_. Inr 0) (lit ''other'') 0 0
         (\<lambda>_ _ _ _. play sample_world sample_config sample_enc (\<lambda>_. None) (Finish (JInt 7)) k4 (s4, 1))
         (Some [(SESSION_KEY, JStr sample_id)]) fc1 k1 (s', 1)"
    by (auto simp: settled_kept_def dict_update_def new_session_def Let_def)
  moreover from this(2) have "\<exists>fc2 k3. ?go (lit ''other'') (Some [(SESSION_KEY, JStr sample_id)]) fc1 k1 (s', 1) = (Inr (JInt 7), fc2, k3, (s4, 1))"
    unfolding kickoff_runs [OF p1 z(2)] by (simp add: run_recorded_def in_session_def)
  ultimately show ?thesis using r1 unfolding Let_def by blast
qed

section \<open>Graphs\<close>

lemma attempt_session_ids:
  "session_id (sk_sessions (fst (snd (attempt_call w cfg enc environ x st))) j) = session_id (sk_sessions (at_sdk x) j)"
  by (auto simp: attempt_call_def wrapper_def next_step_def Let_def split: option.splits prod.splits sum.splits)

lemma play_session_ids: "session_id (sk_sessions (fst (snd (play w cfg enc environ g k st))) j) = session_id (sk_sessions k j)"
proof (induction g arbitrary: k st)
  case (Use u f)
  obtain r k' st' where c: "attempt_call w cfg enc environ (use_attempt u k) st = (r, k', st')" by (metis surj_pair)
  have "session_id (sk_sessions k' j) = session_id (sk_sessions k j)"
    using attempt_session_ids [of w cfg enc environ "use_attempt u k" st j] c by (simp add: use_attempt_def)
  then show ?case using c Use.IH by (cases r) auto
qed simp

lemma ainvoke_cong:
  assumes "int_or_0 trunc (get_or_null input STEP_KEY) = Inr start"
    and "graph input (effective_config i config) (enter_session (open_session rt (wg_org wg) uuid4 (get_or_null input SESSION_KEY) start) i m k) st =
      graph' input (effective_config i config) (enter_session (open_session rt (wg_org wg) uuid4 (get_or_null input SESSION_KEY) start) i m k) st"
  shows "ainvoke rt trunc wg uuid4 i m graph input config k st = ainvoke rt trunc wg uuid4 i m graph' input config k st"
  using assms by (simp add: ainvoke_def in_session_def)

lemma state_keys:
  "get_or_null (suspended_state input ses start x) SESSION_KEY = JStr ses" "get_or_null (suspended_state input ses start x) STEP_KEY = JInt start"
  "get_or_null (enriched_state input ses start) SESSION_KEY = JStr ses" "get_or_null (enriched_state input ses start) STEP_KEY = JInt start"
  by (simp_all add: get_or_null_def suspended_state_def enriched_state_def map_of_dict_update SESSION_KEY_def STEP_KEY_def lit_def)

text \<open>What the state returned by a graph says about its session.\<close>

lemma returned_state:
  assumes "int_or_0 trunc (get_or_null input STEP_KEY) = Inr start"
    and "ses = open_session rt (wg_org wg) uuid4 (get_or_null input SESSION_KEY) start"
    and "ainvoke rt trunc wg uuid4 i m (\<lambda>x _. play w cfg enc environ (ag x)) input config k st = (Inr (JDict state), k1, st1)"
  shows "get_or_null state SESSION_KEY = JStr (session_id ses) \<and> get_or_null state STEP_KEY = JInt start"
proof -
  obtain r k' st' where p: "play w cfg enc environ (ag input) (enter_session ses i m k) st = (r, k', st')" by (metis surj_pair)
  have "session_id (sk_sessions k' i) = session_id ses"
    using play_session_ids [of w cfg enc environ "ag input" "enter_session ses i m k" st i] p by (simp add: enter_session_def)
  then show ?thesis
    using assms p state_keys
    by (auto simp: ainvoke_def in_session_def Let_def split: sum.splits option.splits if_splits json.splits)
qed

text \<open>
  C3. A graph can be invoked again with the state that it returned. Suppose an invocation began
  with some completed calls of intercepted tools and returned a state, be it the result or the
  state of a run that waits for an approval. Then the state names the session and the step where
  the invocation began. Suppose further that the graph is invoked with that state and, given the
  state, begins with the same calls as long as they return the same values; what it does after
  them is not restricted, and it need not be the graph of the first invocation. Then these calls
  are replayed: the invocation is the one of the rest of the graph, with the world as it is, in
  the same session, behind the replayed steps.
\<close>

theorem graph_resumes:
  assumes "int_or_0 trunc (get_or_null input STEP_KEY) = Inr start"
    and "ses = open_session (w_rt w) (wg_org wg) uuid4 (get_or_null input SESSION_KEY) start" "session_id ses \<noteq> []"
    and "ainvoke (w_rt w) trunc wg uuid4 i m (\<lambda>x _. play w cfg enc environ (ag x)) input config k (s, a) = (Inr (JDict state), k1, st1)"
    and "completed w cfg enc environ cs (ag input) (enter_session ses i m k) (s, a) g' k' (s', a')"
    and "dev_ok w (s, a)" "dev_ok w (s2, b)" "settled_kept w (s', a') (s2, b)" "begins cs (ag' state) g2"
  shows "get_or_null state SESSION_KEY = JStr (session_id ses) \<and> get_or_null state STEP_KEY = JInt start \<and>
    (\<exists>k4 s4. current k4 = Some (stepped ses (length cs)) \<and>
       ainvoke (w_rt w) trunc wg uuid4' i' m' (\<lambda>x _. play w cfg enc environ (ag' x)) state config' k2 (s2, b) =
       ainvoke (w_rt w) trunc wg uuid4' i' m' (\<lambda>_ _ _ _. play w cfg enc environ g2 k4 (s4, b)) state config' k2 (s2, b))"
proof -
  note st = returned_state [OF assms(1,2,4)]
  have z: "int_or_0 trunc (get_or_null state STEP_KEY) = Inr start" using st by (simp add: int_or_0_def)
  have ses: "open_session (w_rt w) (wg_org wg) uuid4' (get_or_null state SESSION_KEY) start = ses"
    using assms(2,3) st by (simp add: open_session_def py_str_def new_session_def)
  from agent_again [OF assms(5-9)] obtain k4 s4 where k4: "current k4 = Some (stepped ses (length cs))"
    "play w cfg enc environ (ag' state) (enter_session ses i' m' k2) (s2, b) = play w cfg enc environ g2 k4 (s4, b)" by blast
  have "ainvoke (w_rt w) trunc wg uuid4' i' m' (\<lambda>x _. play w cfg enc environ (ag' x)) state config' k2 (s2, b) =
      ainvoke (w_rt w) trunc wg uuid4' i' m' (\<lambda>_ _ _ _. play w cfg enc environ g2 k4 (s4, b)) state config' k2 (s2, b)"
    by (rule ainvoke_cong [OF z]) (simp add: ses k4(2))
  with st k4(1) show ?thesis by blast
qed

theorem graph_resumes_witness:
  "\<exists>k state k1 s1 state' k3 s3.
     (let go = \<lambda>uuid4 input. ainvoke (w_rt sample_world) (\<lambda>_. Inr 0) \<lparr>wg_org = [], wg_raise_interrupt = False\<rparr> uuid4 0 0
        (\<lambda>_ _. play sample_world sample_config sample_enc (\<lambda>_. None) (Use sample_use (\<lambda>v. Finish (JDict [(lit ''answer'', v)])))) input None
      in go sample_id [] k (empty_server, 0) = (Inr (JDict state), k1, (s1, 1)) \<and> get_or_null state (lit ''answer'') = JInt 7 \<and>
         go (lit ''other'') state k1 (s1, 1) = (Inr (JDict state'), k3, (s3, 1)) \<and> get_or_null state' (lit ''answer'') = JInt 7)"
proof -
  let ?f = "\<lambda>v. Finish (JDict [(lit ''answer'', v)])" and ?wg = "\<lparr>wg_org = [], wg_raise_interrupt = False\<rparr>"
  let ?play = "play sample_world sample_config sample_enc (\<lambda>_. None)"
  let ?go = "\<lambda>uuid4 input. ainvoke (w_rt sample_world) (\<lambda>_. Inr 0) ?wg uuid4 0 0 (\<lambda>_ _. ?play (Use sample_use ?f)) input None"
  let ?k = "at_sdk (sample_attempt ''pay'' (counts (Inr (JInt 7))))"
  let ?state = "enriched_state [(lit ''answer'', JInt 7)] sample_id 0"
  obtain k' s' where k': "attempt_call sample_world sample_config sample_enc (\<lambda>_. None)
      (use_attempt sample_use (enter_session sample_ses 0 0 ?k)) (empty_server, 0) = (Inr (JInt 7), k', (s', 1))"
    "dev_ok sample_world (s', 1 :: nat)"
    "completed sample_world sample_config sample_enc (\<lambda>_. None) [(sample_use, JInt 7)] (Use sample_use ?f) (enter_session sample_ses 0 0 ?k)
       (empty_server, 0) (?f (JInt 7)) k' (s', 1)"
    using sample_completed by blast
  have ses: "sample_ses = open_session (w_rt sample_world) (wg_org ?wg) sample_id (get_or_null [] SESSION_KEY) 0" "session_id sample_ses \<noteq> []"
    by (simp_all add: open_session_def new_session_def get_or_null_def sample_id_def lit_def)
  have z: "int_or_0 (\<lambda>_. Inr 0) (get_or_null [] STEP_KEY) = Inr 0" by (simp add: int_or_0_def get_or_null_def)
  have "session_id (sk_sessions k' 0) = sample_id"
    using attempt_session_ids [of sample_world sample_config sample_enc "\<lambda>_. None" "use_attempt sample_use (enter_session sample_ses 0 0 ?k)"
      "(empty_server, 0)" 0] k'(1) by (simp add: use_attempt_def enter_session_def new_session_def)
  then obtain k1 where r1: "?go sample_id [] ?k (empty_server, 0) = (Inr (JDict ?state), k1, (s', 1))"
    using z k'(1) ses(1) by (simp add: ainvoke_def in_session_def)
  from graph_resumes [OF z ses r1 k'(3) sample_dev_ok k'(2), of "\<lambda>_. Use sample_use ?f" "?f (JInt 7)" "lit ''other''" 0 0 None k1]
    completed_begins [OF k'(3)] obtain k4 s4 where
    again: "?go (lit ''other'') ?state k1 (s', 1) =
      ainvoke (w_rt sample_world) (\<lambda>_. Inr 0) ?wg (lit ''other'') 0 0 (\<lambda>_ _ _ _. ?play (?f (JInt 7)) k4 (s4, 1)) ?state None k1 (s', 1)"
    by (auto simp: settled_kept_def)
  have answer: "get_or_null (enriched_state [(lit ''answer'', JInt 7)] x 0) (lit ''answer'') = JInt 7" for x
    by (simp add: get_or_null_def enriched_state_def map_of_dict_update SESSION_KEY_def STEP_KEY_def lit_def)
  have "int_or_0 (\<lambda>_. Inr 0) (get_or_null ?state STEP_KEY) = Inr 0" by (simp add: state_keys int_or_0_def)
  then have "\<exists>x k3. ?go (lit ''other'') ?state k1 (s', 1) = (Inr (JDict (enriched_state [(lit ''answer'', JInt 7)] x 0)), k3, (s4, 1))"
    unfolding again by (auto simp: ainvoke_def in_session_def Let_def)
  with r1 answer show ?thesis unfolding Let_def by blast
qed

end
