(* ===== verification/Kernel.thy ===== *)
theory Kernel
  imports Facades
begin

text \<open>
  The Semantic Kernel integration (\<^verbatim>\<open>integrations/semantic_kernel.py\<close>): instrumenting the functions
  of a kernel's plugins, registering functions, and running the kernel in a session. The kernel
  itself is a parameter, except for the functions that its plugins hold.
\<close>

section \<open>Functions and plugins\<close>

text \<open>
  What a plugin holds: a callable, or an object, with a name, that exposes one as \<^verbatim>\<open>coroutine\<close> or \<^verbatim>\<open>function\<close>.
  A plugin is a mapping, or an object whose \<^verbatim>\<open>functions\<close> is a mapping or a list.
\<close>

record 'b kernel_fn =
  kf_name :: "pystr option"
  kf_self :: "'b callable option"
  kf_coroutine :: "'b callable option"
  kf_function :: "'b callable option"
  kf_repr :: pystr

datatype 'b plugin =
    MappingPlugin "'b kernel_fn dict"
  | FunctionsMapping "'b kernel_fn dict"
  | FunctionsList "'b kernel_fn list"
  | NoFunctions

definition inner :: "'b kernel_fn \<Rightarrow> 'b callable option" where
  "inner f = (case kf_coroutine f of Some c \<Rightarrow> Some c | None \<Rightarrow> kf_function f)"

definition kernel_target :: "'b kernel_fn \<Rightarrow> 'b callable option" where
  "kernel_target f = (case inner f of Some c \<Rightarrow> Some c | None \<Rightarrow> kf_self f)"

section \<open>Classifying and auditing\<close>

definition kernel_classify_tool :: "'b callable \<Rightarrow> pystr \<Rightarrow> ToolTier" where
  "kernel_classify_tool c name =
     (case interceptor c of
        Some t \<Rightarrow> tl_tier t
      | None \<Rightarrow>
          (let lower_name = py_lower (if name \<noteq> [] then name else case own_name c of None \<Rightarrow> [] | Some n \<Rightarrow> n);
               clean_name = dropWhile (\<lambda>x. x = 95) lower_name;
               starts = (\<lambda>p. prefix p lower_name \<or> prefix p clean_name)
           in if list_ex starts SAFE_PREFIXES then SAFE
              else if list_ex starts IRREVERSIBLE_PREFIXES then IRREVERSIBLE
              else COMPENSABLE))"

definition audit_kernel_function ::
  "runtime \<Rightarrow> ToolTier option \<Rightarrow> pystr option \<Rightarrow> undolog_client option \<Rightarrow> pystr \<Rightarrow> 'b callable \<Rightarrow> client_exc + 'b callable" where
  "audit_kernel_function rt tier compensation_name client name c =
     rbind (wrap_tool rt (case tier of Some t \<Rightarrow> t | None \<Rightarrow> kernel_classify_tool c name) compensation_name client False c)
       (\<lambda>wrapped. Inr (Audited wrapped))"

definition async_callable :: "runtime \<Rightarrow> 'b callable \<Rightarrow> client_exc + unit" where
  "async_callable rt c = require_async_tool rt ''wrap_semantic_kernel'' []
     \<lparr>ob_name = None, ob_self = Some c, ob_coroutine = None, ob_repr = callable_repr c\<rparr>"

definition cannot_instrument :: "runtime \<Rightarrow> pystr \<Rightarrow> 'b kernel_fn \<Rightarrow> client_exc" where
  "cannot_instrument rt name f =
     PyError (ValueError (lit ''wrap_semantic_kernel cannot instrument '' @ (if name \<noteq> [] then py_repr rt (JStr name) else kf_repr f) @
       lit '': UndoLog needs an async callable with a name, because it awaits the function it wraps.''))"

definition put_inner :: "'b kernel_fn \<Rightarrow> 'b callable \<Rightarrow> 'b kernel_fn" where
  "put_inner f c =
     (if kf_coroutine f \<noteq> None then f\<lparr>kf_coroutine := Some c\<rparr>
      else if kf_function f \<noteq> None then f\<lparr>kf_function := Some c\<rparr>
      else f\<lparr>kf_self := Some c\<rparr>)"

definition instrument_plugin_function :: "runtime \<Rightarrow> mapping_options \<Rightarrow> pystr \<Rightarrow> 'b kernel_fn \<Rightarrow> client_exc + 'b kernel_fn" where
  "instrument_plugin_function rt opt name f =
     (case kernel_target f of
        None \<Rightarrow> Inl (cannot_instrument rt name f)
      | Some c \<Rightarrow>
          if name = [] \<or> callable_name c = None then Inl (cannot_instrument rt name f)
          else rbind (async_callable rt c) (\<lambda>_.
            if interceptor c \<noteq> None then Inr f
            else
              (let cn = map_of (mo_compensations opt) name
               in rbind (case map_of (mo_tiers opt) name of
                      Some tier \<Rightarrow> wrap_tool rt tier cn (mo_client opt) False c
                    | None \<Rightarrow> audit_kernel_function rt (Some (kernel_classify_tool c name)) cn (mo_client opt) name c)
                    (\<lambda>instrumented. Inr (put_inner f instrumented)))))"

section \<open>Plugins\<close>

definition instrument_named :: "runtime \<Rightarrow> mapping_options \<Rightarrow> 'b kernel_fn dict \<Rightarrow> client_exc + 'b kernel_fn dict" where
  "instrument_named rt opt fs =
     map_result (\<lambda>(n, f). rbind (instrument_plugin_function rt opt n f) (\<lambda>f'. Inr (n, f'))) fs"

text \<open>The name of a function in a list: its own, or its position.\<close>

definition listed_name :: "nat \<Rightarrow> 'b kernel_fn \<Rightarrow> pystr" where
  "listed_name i f =
     (case or_name (case kf_self f of Some c \<Rightarrow> own_name c | None \<Rightarrow> kf_name f) None of
        Some n \<Rightarrow> n
      | None \<Rightarrow> lit ''func_'' @ show_nat i)"

text \<open>All functions of a plugin are instrumented before the plugin is changed.\<close>

fun bind_plugin_functions :: "runtime \<Rightarrow> mapping_options \<Rightarrow> 'b plugin \<Rightarrow> client_exc + 'b plugin" where
  "bind_plugin_functions rt opt (MappingPlugin fs) = rbind (instrument_named rt opt fs) (\<lambda>w. Inr (MappingPlugin (dict_update fs w)))"
| "bind_plugin_functions rt opt (FunctionsMapping fs) = rbind (instrument_named rt opt fs) (\<lambda>w. Inr (FunctionsMapping (dict_update fs w)))"
| "bind_plugin_functions rt opt (FunctionsList fs) =
     rbind (map_result (\<lambda>(i, f). instrument_plugin_function rt opt (listed_name i f) f) (enumerate 0 fs)) (\<lambda>w. Inr (FunctionsList w))"
| "bind_plugin_functions rt opt NoFunctions = Inr NoFunctions"

fun bind_plugins :: "runtime \<Rightarrow> mapping_options \<Rightarrow> 'b plugin list \<Rightarrow> (client_exc + unit) \<times> 'b plugin list" where
  "bind_plugins rt opt [] = (Inr (), [])"
| "bind_plugins rt opt (p # ps) =
     (case bind_plugin_functions rt opt p of
        Inl e \<Rightarrow> (Inl e, p # ps)
      | Inr p' \<Rightarrow> (let (r, ps') = bind_plugins rt opt ps in (r, p' # ps')))"

definition prepare_plugins :: "runtime \<Rightarrow> mapping_options \<Rightarrow> 'b plugin list option \<Rightarrow> (client_exc + unit) \<times> 'b plugin list option" where
  "prepare_plugins rt opt plugins =
     (case plugins of
        None \<Rightarrow> (Inr (), None)
      | Some ps \<Rightarrow> (let (r, ps') = bind_plugins rt opt ps in (r, Some ps')))"

section \<open>The facade\<close>

text \<open>\<open>wk_kernel\<close> is the rest of the kernel.\<close>

record ('b, 'n) wrapped_kernel = facade +
  wk_plugins :: "'b plugin list option"
  wk_kernel :: 'n
  wk_options :: mapping_options

definition wrap_semantic_kernel ::
  "runtime \<Rightarrow> (pystr \<Rightarrow> pystr option) \<Rightarrow> 'b plugin list option \<Rightarrow> 'n \<Rightarrow> pystr option \<Rightarrow> mapping_options \<Rightarrow>
     (client_exc + ('b, 'n) wrapped_kernel) \<times> 'b plugin list option" where
  "wrap_semantic_kernel rt environ plugins kern org opt =
     (case prepare_plugins rt opt plugins of
        (Inl e, ps) \<Rightarrow> (Inl e, ps)
      | (Inr _, ps) \<Rightarrow>
          (Inr \<lparr>fa_org = resolved_org environ org, fa_session_id = None, fa_step_index = 0, fa_awaiting_approval = False,
             fa_approval_request = None, wk_plugins = ps, wk_kernel = kern, wk_options = opt\<rparr>, ps))"

definition require_instrumentable :: "runtime \<Rightarrow> 'b kernel_fn \<Rightarrow> client_exc + unit" where
  "require_instrumentable rt f =
     (case Option.bind (kf_self f) (\<lambda>c. or_name (callable_name c) None) of
        None \<Rightarrow> Inl (cannot_instrument rt [] f)
      | Some _ \<Rightarrow> require_async_tool rt ''wrap_semantic_kernel'' []
          \<lparr>ob_name = kf_name f, ob_self = kf_self f, ob_coroutine = kf_coroutine f, ob_repr = kf_repr f\<rparr>)"

definition kernel_instrument :: "runtime \<Rightarrow> mapping_options \<Rightarrow> pystr \<Rightarrow> 'b kernel_fn \<Rightarrow> client_exc + 'b kernel_fn" where
  "kernel_instrument rt opt name f = rbind (require_instrumentable rt f) (\<lambda>_. instrument_plugin_function rt opt name f)"

text \<open>\<open>register\<close> is the kernel's own \<^verbatim>\<open>add_function\<close>.\<close>

type_synonym ('b, 'n) registrar = "pystr \<Rightarrow> pystr \<Rightarrow> 'b kernel_fn \<Rightarrow> 'n \<Rightarrow> (client_exc + json) \<times> 'n"

definition add_function ::
  "runtime \<Rightarrow> ('b, 'n) registrar \<Rightarrow> pystr \<Rightarrow> pystr \<Rightarrow> 'b kernel_fn \<Rightarrow> ('b, 'n) wrapped_kernel \<Rightarrow> (client_exc + json) \<times> ('b, 'n) wrapped_kernel" where
  "add_function rt register plugin_name function_name f fk =
     (case kernel_instrument rt (wk_options fk) function_name f of
        Inl e \<Rightarrow> (Inl e, fk)
      | Inr g \<Rightarrow> (let (r, n) = register plugin_name function_name g (wk_kernel fk) in (r, fk\<lparr>wk_kernel := n\<rparr>)))"

fun register_all :: "('b, 'n) registrar \<Rightarrow> pystr \<Rightarrow> 'b kernel_fn dict \<Rightarrow> 'n \<Rightarrow> (client_exc + unit) \<times> 'n" where
  "register_all register plugin_name [] n = (Inr (), n)"
| "register_all register plugin_name ((name, g) # gs) n =
     (case register plugin_name name g n of
        (Inl e, n') \<Rightarrow> (Inl e, n')
      | (Inr _, n') \<Rightarrow> register_all register plugin_name gs n')"

definition add_functions ::
  "runtime \<Rightarrow> ('b, 'n) registrar \<Rightarrow> pystr \<Rightarrow> 'b kernel_fn dict \<Rightarrow> ('b, 'n) wrapped_kernel \<Rightarrow> (client_exc + unit) \<times> ('b, 'n) wrapped_kernel" where
  "add_functions rt register plugin_name fs fk =
     (case map_result (\<lambda>(n, f). rbind (kernel_instrument rt (wk_options fk) n f) (\<lambda>g. Inr (n, g))) fs of
        Inl e \<Rightarrow> (Inl e, fk)
      | Inr gs \<Rightarrow> (let (r, n) = register_all register plugin_name gs (wk_kernel fk) in (r, fk\<lparr>wk_kernel := n\<rparr>)))"

text \<open>
  The arguments of an invocation, which may be a mapping that cannot be changed. What is left of
  them is the second component.
\<close>

definition pop_resume_keys ::
  "(pyfloat \<Rightarrow> py_exc + int) \<Rightarrow> (bool \<times> json dict) option \<Rightarrow> (client_exc + json \<times> int) \<times> (bool \<times> json dict) option" where
  "pop_resume_keys trunc arguments =
     (case arguments of
        None \<Rightarrow> (Inr (JNull, 0), None)
      | Some (mutable, d) \<Rightarrow>
          if map_of d SESSION_KEY = None \<and> map_of d STEP_KEY = None then (Inr (JNull, 0), arguments)
          else if \<not> mutable then (Inl TypeError, arguments)
          else (rbind (int_or_0 trunc (get_or_null d STEP_KEY)) (\<lambda>n. Inr (get_or_null d SESSION_KEY, n)),
                Some (mutable, dict_drop (dict_drop d SESSION_KEY) STEP_KEY)))"

text \<open>\<^verbatim>\<open>_run_in_session\<close>, and \<^verbatim>\<open>session\<close> with the block it is opened for.\<close>

definition kernel_session ::
  "runtime \<Rightarrow> pystr \<Rightarrow> nat \<Rightarrow> nat \<Rightarrow> json \<Rightarrow> int \<Rightarrow> ('b plugin list option \<Rightarrow> 'n \<Rightarrow> ('w, 'r) framework) \<Rightarrow> ('b, 'n) wrapped_kernel \<Rightarrow>
     sdk \<Rightarrow> 'w \<Rightarrow> (call_exc + 'r) \<times> ('b, 'n) wrapped_kernel \<times> sdk \<times> 'w" where
  "kernel_session rt uuid4 i m given start block fk k w =
     (case prepare_plugins rt (wk_options fk) (wk_plugins fk) of
        (Inl e, ps) \<Rightarrow> (Inl (Raised e), fk\<lparr>wk_plugins := ps\<rparr>, k, w)
      | (Inr _, ps) \<Rightarrow>
          run_recorded (open_session rt (fa_org fk) uuid4 given start) i m (block ps (wk_kernel fk)) (fk\<lparr>wk_plugins := ps\<rparr>) k w)"

text \<open>\<^verbatim>\<open>invoke\<close> and \<^verbatim>\<open>invoke_prompt\<close>; they differ in where the caller puts the arguments.\<close>

definition kernel_invoke ::
  "runtime \<Rightarrow> (pyfloat \<Rightarrow> py_exc + int) \<Rightarrow> pystr \<Rightarrow> nat \<Rightarrow> nat \<Rightarrow>
     ((bool \<times> json dict) option \<Rightarrow> 'b plugin list option \<Rightarrow> 'n \<Rightarrow> ('w, 'r) framework) \<Rightarrow> (bool \<times> json dict) option \<Rightarrow>
     ('b, 'n) wrapped_kernel \<Rightarrow> sdk \<Rightarrow> 'w \<Rightarrow> (call_exc + 'r) \<times> ('b, 'n) wrapped_kernel \<times> sdk \<times> 'w" where
  "kernel_invoke rt trunc uuid4 i m call arguments fk k w =
     (case pop_resume_keys trunc arguments of
        (Inl e, _) \<Rightarrow> (Inl (Raised e), fk, k, w)
      | (Inr (given, start), left) \<Rightarrow> kernel_session rt uuid4 i m given start (call left) fk k w)"

section \<open>Prepared plugins\<close>

definition kernel_tier :: "mapping_options \<Rightarrow> 'b callable \<Rightarrow> pystr \<Rightarrow> ToolTier" where
  "kernel_tier opt c name = (case map_of (mo_tiers opt) name of Some t \<Rightarrow> t | None \<Rightarrow> kernel_classify_tool c name)"

definition fn_finished :: "pystr \<times> 'b kernel_fn \<Rightarrow> bool" where
  "fn_finished = (\<lambda>(n, f). n \<noteq> [] \<and> (case kernel_target f of None \<Rightarrow> False | Some c \<Rightarrow> callable_name c \<noteq> None \<and> interceptor c \<noteq> None))"

abbreviation instrument_pair :: "runtime \<Rightarrow> mapping_options \<Rightarrow> pystr \<times> 'b kernel_fn \<Rightarrow> client_exc + pystr \<times> 'b kernel_fn" where
  "instrument_pair rt opt \<equiv> (\<lambda>(n, f). rbind (instrument_plugin_function rt opt n f) (\<lambda>f'. Inr (n, f')))"

text \<open>A function and what instrumenting makes of it.\<close>

definition fn_instrumented :: "mapping_options \<Rightarrow> pystr \<times> 'b kernel_fn \<Rightarrow> pystr \<times> 'b kernel_fn \<Rightarrow> bool" where
  "fn_instrumented opt = (\<lambda>(n, f) (n', f'). n' = n \<and> fn_finished (n, f') \<and>
     (if fn_finished (n, f) then f' = f
      else case (kernel_target f, kernel_target f') of
             (Some c, Some c') \<Rightarrow> intercepted_as (kernel_tier opt c n) c c'
           | _ \<Rightarrow> False))"

lemma kernel_target_put [simp]: "kernel_target (put_inner f c) = Some c"
  by (auto simp: kernel_target_def inner_def put_inner_def split: option.splits)

lemma instrument_cases:
  assumes "instrument_plugin_function rt opt n f = Inr f'"
  obtains c where "n \<noteq> []" "kernel_target f = Some c" "callable_name c \<noteq> None" "interceptor c \<noteq> None" "f' = f"
  | c c' where "n \<noteq> []" "kernel_target f = Some c" "callable_name c \<noteq> None" "interceptor c = None" "f' = put_inner f c'"
      "intercepted_as (kernel_tier opt c n) c c'"
proof -
  obtain c where c: "kernel_target f = Some c" "n \<noteq> []" "callable_name c \<noteq> None"
    using assms by (auto simp: instrument_plugin_function_def split: option.splits if_splits)
  show ?thesis
  proof (cases "interceptor c")
    case (Some t)
    then have "f' = f" using assms c by (auto simp: instrument_plugin_function_def rbind_eq_Inr_iff)
    with c Some show ?thesis by (intro that(1)) auto
  next
    case None
    then obtain c' where "f' = put_inner f c'" "intercepted_as (kernel_tier opt c n) c c'"
      using assms c
      by (auto simp: instrument_plugin_function_def audit_kernel_function_def kernel_tier_def rbind_eq_Inr_iff Let_def
        split: option.splits intro: wrap_tool_wraps audited_as)
    with c None show ?thesis by (intro that(2)) auto
  qed
qed

lemma instrument_pair_result:
  assumes "instrument_pair rt opt x = Inr y"
  shows "fn_instrumented opt x y"
proof -
  obtain n f where x: "x = (n, f)" by force
  with assms obtain f' where f': "instrument_plugin_function rt opt n f = Inr f'" "y = (n, f')" by (auto simp: rbind_eq_Inr_iff)
  from f'(1) show ?thesis
    by (cases rule: instrument_cases)
      (auto simp: x f'(2) fn_instrumented_def fn_finished_def intercepted_as_def split: option.splits)
qed

lemma fn_instrumented_finished: "fn_instrumented opt x y \<Longrightarrow> fn_finished y"
  by (auto simp: fn_instrumented_def fn_finished_def)

lemma all_instrumented_finished: "list_all2 (fn_instrumented opt) xs ys \<Longrightarrow> list_all fn_finished ys"
  by (induction rule: list_all2_induct) (auto dest: fn_instrumented_finished)

lemma intercepted_async: "interceptor c \<noteq> None \<Longrightarrow> async_callable rt c = Inr ()"
  by (cases c) (auto simp: async_callable_def require_async_tool_def target_def)

interpretation kern: instrumenter "instrument_pair rt opt" fn_finished for rt opt
proof (unfold_locales, goal_cases)
  case (1 x y)
  then show ?case by (rule fn_instrumented_finished [OF instrument_pair_result])
next
  case (2 x)
  then show ?case
    by (cases x) (auto simp: fn_finished_def instrument_plugin_function_def intercepted_async split: option.splits)
qed

text \<open>The functions of a plugin with the names they are instrumented under.\<close>

fun plugin_fns :: "'b plugin \<Rightarrow> (pystr \<times> 'b kernel_fn) list" where
  "plugin_fns (MappingPlugin fs) = fs"
| "plugin_fns (FunctionsMapping fs) = fs"
| "plugin_fns (FunctionsList fs) = map (\<lambda>(i, f). (listed_name i f, f)) (enumerate 0 fs)"
| "plugin_fns NoFunctions = []"

fun plugin_wf :: "'b plugin \<Rightarrow> bool" where
  "plugin_wf (MappingPlugin fs) = distinct (map fst fs)"
| "plugin_wf (FunctionsMapping fs) = distinct (map fst fs)"
| "plugin_wf _ = True"

lemma dict_update_keys:
  "map fst e = map fst d \<Longrightarrow> distinct (map fst c @ map fst d) \<Longrightarrow> dict_update (c @ d) e = c @ e"
proof (induction e arbitrary: c d)
  case (Cons x e)
  then obtain y d' where d: "d = y # d'" "fst y = fst x" "map fst e = map fst d'" by auto
  have "AList.update (fst x) (snd x) (c @ d) = (c @ [x]) @ d'"
    using Cons.prems d by (induction c) (auto simp: prod_eq_iff)
  with Cons.IH [OF d(3), of "c @ [x]"] Cons.prems d show ?case by (simp add: dict_update_def split_beta)
qed (simp add: dict_update_def)

lemma instrument_named_result:
  assumes "instrument_named rt opt fs = Inr w"
  shows "list_all2 (fn_instrumented opt) fs w" "map fst w = map fst fs" "instrument_named rt opt w = Inr w"
proof -
  show l: "list_all2 (fn_instrumented opt) fs w"
    using assms unfolding instrument_named_def map_result_Inr_iff by (rule list_all2_mono) (rule instrument_pair_result)
  then show "map fst w = map fst fs"
    by (auto simp: list_all2_conv_all_nth fn_instrumented_def split_beta intro!: nth_equalityI)
  show "instrument_named rt opt w = Inr w"
    using kern.all_stable [OF kern.all_finished] assms unfolding instrument_named_def by blast
qed

lemma bound_mapping:
  assumes "instrument_named rt opt fs = Inr w" "distinct (map fst fs)"
  shows "dict_update fs w = w" "dict_update w w = w"
  using dict_update_keys [of w fs "[]"] dict_update_keys [of w w "[]"] instrument_named_result(2) [OF assms(1)] assms(2) by simp_all

lemma listed_name_put:
  assumes "kernel_target f = Some c" "own_name c' = own_name c"
  shows "listed_name i (put_inner f c') = listed_name i f"
proof -
  have "(case kf_self (put_inner f c') of Some c \<Rightarrow> own_name c | None \<Rightarrow> kf_name (put_inner f c')) =
      (case kf_self f of Some c \<Rightarrow> own_name c | None \<Rightarrow> kf_name f)"
    using assms by (cases "kf_self f") (auto simp: put_inner_def kernel_target_def inner_def split: option.splits)
  then show ?thesis by (simp add: listed_name_def)
qed

lemma instrument_keeps_name: "instrument_plugin_function rt opt n f = Inr f' \<Longrightarrow> listed_name i f' = listed_name i f"
  by (erule instrument_cases) (simp_all add: listed_name_put own_name_def intercepted_as_def)

lemma bind_plugin_result:
  assumes "plugin_wf p" "bind_plugin_functions rt opt p = Inr p'"
  shows "list_all2 (fn_instrumented opt) (plugin_fns p) (plugin_fns p') \<and> bind_plugin_functions rt opt p' = Inr p'"
proof (cases p)
  case (FunctionsList fs)
  let ?g = "\<lambda>(i, f). instrument_plugin_function rt opt (listed_name i f) f"
  from assms(2) obtain w where w: "map_result ?g (enumerate 0 fs) = Inr w" "p' = FunctionsList w"
    by (auto simp: FunctionsList rbind_eq_Inr_iff)
  then have n: "length w = length fs" "\<And>i. i < length fs \<Longrightarrow> ?g (i, fs ! i) = Inr (w ! i)"
    by (auto simp: map_result_Inr_iff list_all2_conv_all_nth nth_enumerate_eq)
  have l: "fn_instrumented opt (listed_name i (fs ! i), fs ! i) (listed_name i (w ! i), w ! i)"
    "?g (i, w ! i) = Inr (w ! i)" if "i < length fs" for i
  proof -
    have g: "instrument_pair rt opt (listed_name i (fs ! i), fs ! i) = Inr (listed_name i (w ! i), w ! i)"
      using n(2) [OF that] instrument_keeps_name [of rt opt _ "fs ! i" "w ! i" i] by (simp add: rbind_eq_Inr_iff)
    show "fn_instrumented opt (listed_name i (fs ! i), fs ! i) (listed_name i (w ! i), w ! i)" by (rule instrument_pair_result [OF g])
    from kern.stable [OF kern.finishes [OF g], of rt opt] show "?g (i, w ! i) = Inr (w ! i)" by (auto simp: rbind_eq_Inr_iff)
  qed
  then have "map_result ?g (enumerate 0 w) = Inr w" using n(1) by (auto simp: map_result_Inr_iff list_all2_conv_all_nth nth_enumerate_eq)
  moreover have "list_all2 (fn_instrumented opt) (plugin_fns p) (plugin_fns p')"
    using l(1) n(1) by (auto simp: FunctionsList w(2) list_all2_conv_all_nth nth_enumerate_eq)
  ultimately show ?thesis by (simp add: w(2))
next
  case (MappingPlugin fs)
  then obtain w where w: "instrument_named rt opt fs = Inr w" "p' = MappingPlugin (dict_update fs w)" using assms(2) by (auto simp: rbind_eq_Inr_iff)
  then show ?thesis using MappingPlugin assms(1) bound_mapping [OF w(1)] instrument_named_result [OF w(1)] by simp
next
  case (FunctionsMapping fs)
  then obtain w where w: "instrument_named rt opt fs = Inr w" "p' = FunctionsMapping (dict_update fs w)"
    using assms(2) by (auto simp: rbind_eq_Inr_iff)
  then show ?thesis using FunctionsMapping assms(1) bound_mapping [OF w(1)] instrument_named_result [OF w(1)] by simp
next
  case NoFunctions
  then show ?thesis using assms(2) by simp
qed

abbreviation prepared :: "mapping_options \<Rightarrow> 'b plugin list \<Rightarrow> 'b plugin list \<Rightarrow> bool" where
  "prepared opt \<equiv> list_all2 (\<lambda>p p'. list_all2 (fn_instrumented opt) (plugin_fns p) (plugin_fns p'))"

lemma bind_plugins_result:
  assumes "bind_plugins rt opt ps = (r, ps')" "list_all plugin_wf ps"
  shows "case r of
      Inr _ \<Rightarrow> prepared opt ps ps' \<and> bind_plugins rt opt ps' = (Inr (), ps')
    | Inl _ \<Rightarrow> \<exists>n < length ps. drop n ps' = drop n ps \<and> prepared opt (take n ps) (take n ps')"
  using assms
proof (induction ps arbitrary: ps')
  case (Cons p ps)
  show ?case
  proof (cases "bind_plugin_functions rt opt p")
    case (Inl e)
    then show ?thesis using Cons.prems by (auto intro!: exI [of _ 0])
  next
    case (Inr q)
    obtain qs where q: "bind_plugins rt opt ps = (r, qs)" "ps' = q # qs" using Cons.prems Inr by (auto split: prod.splits)
    have p: "list_all2 (fn_instrumented opt) (plugin_fns p) (plugin_fns q)" "bind_plugin_functions rt opt q = Inr q"
      using bind_plugin_result [OF _ Inr] Cons.prems(2) by auto
    have IH: "case r of Inr _ \<Rightarrow> prepared opt ps qs \<and> bind_plugins rt opt qs = (Inr (), qs)
      | Inl _ \<Rightarrow> \<exists>n < length ps. drop n qs = drop n ps \<and> prepared opt (take n ps) (take n qs)"
      using Cons.IH [OF q(1)] Cons.prems(2) by simp
    show ?thesis
    proof (cases r)
      case (Inl e)
      with IH obtain n where "n < length ps" "drop n qs = drop n ps" "prepared opt (take n ps) (take n qs)" by auto
      with p(1) Inl show ?thesis by (auto simp: q(2) intro!: exI [of _ "Suc n"])
    qed (use IH p in \<open>simp add: q(2)\<close>)
  qed
qed auto


definition sample_fn :: "string \<Rightarrow> nat kernel_fn" where
  "sample_fn name = \<lparr>kf_name = None, kf_self = Some (Function \<lparr>pf_name = Some (lit name), pf_attr = None, pf_async = True, pf_params = [],
     pf_repr = [], pf_body = 0\<rparr>), kf_coroutine = None, kf_function = None, kf_repr = []\<rparr>"


end
