(* ===== verification/MockServer.thy ===== *)
theory MockServer
  imports Http Client
begin

text \<open>
  The mock tool server of the demos (\<^verbatim>\<open>infra/mock-tool-server/server.py\<close>): its tools with their
  compensations over an in-memory store, and the replies that it keeps under an
  \<^verbatim>\<open>Idempotency-Key\<close>. It serves one request at a time. The time stamps of its log of calls, the
  headers of a response and its log messages are left out.
\<close>

section \<open>The store\<close>

text \<open>
  A dict whose keys are values of a request: \<open>eq\<close> is Python's equality, and a list or an object
  is no key.
\<close>

type_synonym table = "(json \<times> json dict) list"

fun hashable :: "json \<Rightarrow> bool" where
  "hashable (JList _) = False"
| "hashable (JDict _) = False"
| "hashable _ = True"

definition table_get :: "(json \<Rightarrow> json \<Rightarrow> bool) \<Rightarrow> table \<Rightarrow> json \<Rightarrow> client_exc + json dict option" where
  "table_get eq t key = (if hashable key then Inr (map_option snd (List.find (\<lambda>(k, _). eq k key) t)) else Inl TypeError)"

fun table_put :: "(json \<Rightarrow> json \<Rightarrow> bool) \<Rightarrow> json \<Rightarrow> json dict \<Rightarrow> table \<Rightarrow> table" where
  "table_put eq key v [] = [(key, v)]"
| "table_put eq key v ((k, x) # t) = (if eq k key then (k, v) # t else (k, x) # table_put eq key v t)"

definition entry_of :: "string \<Rightarrow> (string \<times> json) list \<Rightarrow> json \<times> json dict" where
  "entry_of key fs = (JStr (lit key), map (\<lambda>(k, v). (lit k, v)) fs)"

abbreviation txt_of :: "string \<Rightarrow> json" where
  "txt_of s \<equiv> JStr (lit s)"

definition SEED_CUSTOMERS :: table where
  "SEED_CUSTOMERS =
     [entry_of ''cust_42'' [(''customer_id'', txt_of ''cust_42''), (''name'', txt_of ''Alice Johnson''),
        (''email'', txt_of ''alice@example.com''), (''plan'', txt_of ''enterprise''), (''support_level'', txt_of ''premium'')],
      entry_of ''cust_1'' [(''customer_id'', txt_of ''cust_1''), (''name'', txt_of ''Bob Smith''),
        (''email'', txt_of ''bob@example.com''), (''plan'', txt_of ''enterprise''), (''support_level'', txt_of ''standard'')],
      entry_of ''user_42'' [(''user_id'', txt_of ''user_42''), (''name'', txt_of ''Bob Smith''),
        (''email'', txt_of ''bob@example.com''), (''plan'', txt_of ''enterprise'')],
      entry_of ''user_1'' [(''user_id'', txt_of ''user_1''), (''name'', txt_of ''Carol Davis''),
        (''email'', txt_of ''carol@example.com''), (''plan'', txt_of ''premium'')]]"

definition SEED_PLANS :: table where
  "SEED_PLANS =
     [entry_of ''enterprise'' [(''plan_id'', txt_of ''enterprise''), (''name'', txt_of ''Enterprise''), (''monthly_price'', JInt 999),
        (''features'', JList [txt_of ''unlimited_tickets'', txt_of ''priority_support'', txt_of ''api_access''])],
      entry_of ''premium'' [(''plan_id'', txt_of ''premium''), (''name'', txt_of ''Premium''), (''monthly_price'', JInt 299),
        (''features'', JList [txt_of ''unlimited_tickets'', txt_of ''priority_support''])],
      entry_of ''basic'' [(''plan_id'', txt_of ''basic''), (''name'', txt_of ''Basic''), (''monthly_price'', JInt 49),
        (''features'', JList [txt_of ''10_tickets_per_month''])]]"

definition SEED_ENGINEERS :: table where
  "SEED_ENGINEERS =
     [entry_of ''sarah'' [(''engineer'', txt_of ''sarah''), (''name'', txt_of ''Sarah Chen''), (''team'', txt_of ''senior'')],
      entry_of ''mike'' [(''engineer'', txt_of ''mike''), (''name'', txt_of ''Mike Rivera''), (''team'', txt_of ''level-2'')]]"

record mock =
  ms_customers :: table
  ms_plans :: table
  ms_engineers :: table
  ms_tickets :: table
  ms_emails :: table
  ms_payments :: table
  ms_idem :: "json dict dict"
  ms_calls :: "(json \<times> json) list"
  ms_uuids :: nat

definition mock_init :: mock where
  "mock_init = \<lparr>ms_customers = SEED_CUSTOMERS, ms_plans = SEED_PLANS, ms_engineers = SEED_ENGINEERS, ms_tickets = [], ms_emails = [],
     ms_payments = [], ms_idem = [], ms_calls = [], ms_uuids = 0\<rparr>"

text \<open>
  What comes from outside: the runtime, equality, the hexadecimal SHA-256 digest of a text in
  UTF-8, and the first eight hexadecimal digits of the random identifiers, in capitals.
\<close>

record mock_env =
  me_rt :: runtime
  me_eq :: "json \<Rightarrow> json \<Rightarrow> bool"
  me_sha256 :: "bytes \<Rightarrow> pystr"
  me_uuid :: "nat \<Rightarrow> pystr"

section \<open>Tools\<close>

type_synonym tool_handler = "mock_env \<Rightarrow> json dict \<Rightarrow> mock \<Rightarrow> (client_exc + json dict) \<times> mock"

definition reply_ok :: "json dict \<Rightarrow> json dict" where
  "reply_ok output = [(lit ''success'', JBool True), (lit ''output'', JStr (json_dumps (JDict output))), (lit ''duration_ms'', JInt 0)]"

definition reply_error :: "pystr \<Rightarrow> json dict" where
  "reply_error message = [(lit ''success'', JBool False), (lit ''error'', JStr message)]"

definition lookup :: "string \<Rightarrow> string \<Rightarrow> (mock \<Rightarrow> table) \<Rightarrow> tool_handler" where
  "lookup arg what tab env args s =
     (let key = dict_get args arg (JStr []) in
      case table_get (me_eq env) (tab s) key of
        Inl e \<Rightarrow> (Inl e, s)
      | Inr (Some r) \<Rightarrow> if r \<noteq> [] then (Inr (reply_ok r), s)
          else (Inr (reply_error (lit what @ lit '' '' @ py_repr (me_rt env) key @ lit '' not found'')), s)
      | Inr None \<Rightarrow> (Inr (reply_error (lit what @ lit '' '' @ py_repr (me_rt env) key @ lit '' not found'')), s))"

definition handle_lookup_customer :: tool_handler where
  "handle_lookup_customer = lookup ''customer_id'' ''Customer'' ms_customers"

definition handle_lookup_user :: tool_handler where
  "handle_lookup_user = lookup ''user_id'' ''User'' ms_customers"

definition handle_lookup_plan :: tool_handler where
  "handle_lookup_plan = lookup ''plan_id'' ''Plan'' ms_plans"

definition handle_send_email :: tool_handler where
  "handle_send_email env args s =
     (let to = dict_get args ''to'' (JStr []); subject = dict_get args ''subject'' (JStr []); body = dict_get args ''body'' (JStr []);
          key = py_str (me_rt env) to @ lit '':'' @ py_str (me_rt env) subject @ lit '':'' @ py_str (me_rt env) body
      in case utf8_encode key of
           Inl e \<Rightarrow> (Inl (PyError e), s)
         | Inr bs \<Rightarrow>
             (let email_id = JStr (take 16 (me_sha256 env bs));
                  new = (case table_get (me_eq env) (ms_emails s) email_id of Inr None \<Rightarrow> True | _ \<Rightarrow> False);
                  row = [(lit ''email_id'', email_id), (lit ''to'', to), (lit ''subject'', subject), (lit ''body'', body),
                    (lit ''status'', JStr (lit ''sent''))]
              in (Inr (reply_ok [(lit ''email_id'', email_id), (lit ''status'', JStr (lit ''sent''))]),
                  if new then s\<lparr>ms_emails := table_put (me_eq env) email_id row (ms_emails s)\<rparr> else s)))"

definition new_id :: "string \<Rightarrow> mock_env \<Rightarrow> mock \<Rightarrow> json" where
  "new_id kind env s = JStr (lit kind @ me_uuid env (ms_uuids s))"

definition handle_create_ticket :: tool_handler where
  "handle_create_ticket env args s =
     (let ticket_id = new_id ''TKT-'' env s; priority = dict_get args ''priority'' (JStr (lit ''low''));
          row = [(lit ''ticket_id'', ticket_id), (lit ''customer_id'', dict_get args ''customer_id'' (dict_get args ''user_id'' (JStr []))),
            (lit ''priority'', priority), (lit ''description'', dict_get args ''description'' (JStr [])), (lit ''status'', JStr (lit ''open''))]
      in (Inr (reply_ok [(lit ''ticket_id'', ticket_id), (lit ''status'', JStr (lit ''open'')), (lit ''priority'', priority)]),
          s\<lparr>ms_uuids := Suc (ms_uuids s), ms_tickets := table_put (me_eq env) ticket_id row (ms_tickets s)\<rparr>))"

definition handle_assign_engineer :: tool_handler where
  "handle_assign_engineer env args s =
     (let ticket_id = dict_get args ''ticket_id'' (JStr []); engineer = dict_get args ''engineer'' (JStr []);
          missing = (Inr (reply_error (lit ''Ticket '' @ py_repr (me_rt env) ticket_id @ lit '' not found'')), s)
      in case table_get (me_eq env) (ms_tickets s) ticket_id of
           Inl e \<Rightarrow> (Inl e, s)
         | Inr None \<Rightarrow> missing
         | Inr (Some ticket) \<Rightarrow>
             if ticket = [] then missing
             else (Inr (reply_ok [(lit ''ticket_id'', ticket_id), (lit ''engineer'', engineer), (lit ''status'', JStr (lit ''assigned''))]),
               s\<lparr>ms_tickets := table_put (me_eq env) ticket_id
                 (dict_update ticket [(lit ''engineer'', engineer), (lit ''status'', JStr (lit ''assigned''))]) (ms_tickets s)\<rparr>))"

definition handle_escalate :: tool_handler where
  "handle_escalate env args s =
     (let ticket_id = dict_get args ''ticket_id'' (JStr []); reason = dict_get args ''reason'' (JStr []);
          fresh = [(lit ''ticket_id'', ticket_id), (lit ''customer_id'', JStr (lit ''unknown'')), (lit ''priority'', JStr (lit ''low'')),
            (lit ''description'', JStr (lit ''Auto-created for escalation: '' @ py_str (me_rt env) reason)), (lit ''status'', JStr (lit ''open''))]
      in case table_get (me_eq env) (ms_tickets s) ticket_id of
           Inl e \<Rightarrow> (Inl e, s)
         | Inr found \<Rightarrow>
             (let ticket = (case found of None \<Rightarrow> fresh | Some t \<Rightarrow> if t = [] then fresh else t)
              in (Inr (reply_ok [(lit ''ticket_id'', ticket_id), (lit ''status'', JStr (lit ''escalated'')), (lit ''reason'', reason)]),
                  s\<lparr>ms_tickets := table_put (me_eq env) ticket_id
                    (dict_update ticket [(lit ''status'', JStr (lit ''escalated'')), (lit ''escalation_reason'', reason)]) (ms_tickets s)\<rparr>)))"

definition handle_charge_payment :: tool_handler where
  "handle_charge_payment env args s =
     (let payment_id = new_id ''PAY-'' env s; amount = dict_get args ''amount'' (JInt 0); currency = dict_get args ''currency'' (JStr (lit ''USD''));
          row = [(lit ''payment_id'', payment_id), (lit ''amount'', amount), (lit ''currency'', currency), (lit ''status'', JStr (lit ''processed''))]
      in (Inr (reply_ok row), s\<lparr>ms_uuids := Suc (ms_uuids s), ms_payments := table_put (me_eq env) payment_id row (ms_payments s)\<rparr>))"

section \<open>Compensations\<close>

definition handle_compensate_send_email :: tool_handler where
  "handle_compensate_send_email env args s =
     (let to = dict_get args ''to'' (JStr (lit ''unknown'')); subject = dict_get args ''subject'' (JStr []); corr_id = new_id ''CORR-'' env s
      in (Inr (reply_ok [(lit ''status'', JStr (lit ''correction_sent'')), (lit ''to'', to), (lit ''original_subject'', subject)]),
          s\<lparr>ms_uuids := Suc (ms_uuids s), ms_emails := table_put (me_eq env) corr_id
            [(lit ''email_id'', corr_id), (lit ''to'', to), (lit ''original_subject'', subject), (lit ''type'', JStr (lit ''correction'')),
             (lit ''status'', JStr (lit ''sent''))] (ms_emails s)\<rparr>))"

text \<open>A compensation that changes a ticket, if there is one.\<close>

definition change_ticket :: "(json dict \<Rightarrow> json dict) \<Rightarrow> json \<Rightarrow> json dict \<Rightarrow> mock_env \<Rightarrow> mock \<Rightarrow> (client_exc + json dict) \<times> mock" where
  "change_ticket f ticket_id answer env s =
     (case table_get (me_eq env) (ms_tickets s) ticket_id of
        Inl e \<Rightarrow> (Inl e, s)
      | Inr (Some ticket) \<Rightarrow>
          (Inr (reply_ok answer),
           if ticket \<noteq> [] then s\<lparr>ms_tickets := table_put (me_eq env) ticket_id (f ticket) (ms_tickets s)\<rparr> else s)
      | Inr None \<Rightarrow> (Inr (reply_ok answer), s))"

definition without :: "string \<Rightarrow> json dict \<Rightarrow> json dict" where
  "without key d = filter (\<lambda>kv. fst kv \<noteq> lit key) d"

definition with_status :: "string \<Rightarrow> json dict \<Rightarrow> json dict" where
  "with_status st d = AList.update (lit ''status'') (JStr (lit st)) d"

definition handle_compensate_create_ticket :: tool_handler where
  "handle_compensate_create_ticket env args s =
     (let ticket_id = dict_get args ''ticket_id'' (JStr (lit ''unknown''))
      in change_ticket (with_status ''closed'') ticket_id
           [(lit ''status'', JStr (lit ''ticket_closed'')), (lit ''ticket_id'', ticket_id)] env s)"

definition handle_compensate_assign_engineer :: tool_handler where
  "handle_compensate_assign_engineer env args s =
     (let ticket_id = dict_get args ''ticket_id'' (JStr (lit ''unknown'')); engineer = dict_get args ''engineer'' (JStr (lit ''unknown''))
      in change_ticket
           (\<lambda>t. if me_eq env (dict_get t ''engineer'' JNull) engineer then without ''engineer'' (with_status ''open'' t) else t) ticket_id
           [(lit ''status'', JStr (lit ''engineer_unassigned'')), (lit ''ticket_id'', ticket_id), (lit ''engineer'', engineer)] env s)"

definition handle_compensate_escalate :: tool_handler where
  "handle_compensate_escalate env args s =
     (let ticket_id = dict_get args ''ticket_id'' (JStr (lit ''unknown'')); reason = dict_get args ''reason'' (JStr (lit ''unknown''))
      in change_ticket (\<lambda>t. without ''escalation_reason'' (with_status ''open'' t)) ticket_id
           [(lit ''status'', JStr (lit ''escalation_reversed'')), (lit ''ticket_id'', ticket_id), (lit ''reason'', reason)] env s)"

definition handle_compensate_charge_payment :: tool_handler where
  "handle_compensate_charge_payment env args s =
     (let amount = dict_get args ''amount'' (JInt 0); currency = dict_get args ''currency'' (JStr (lit ''unknown'')); reversal_id = new_id ''REV-'' env s
      in (Inr (reply_ok [(lit ''status'', JStr (lit ''charge_reversed'')), (lit ''amount'', amount), (lit ''currency'', currency)]),
          s\<lparr>ms_uuids := Suc (ms_uuids s), ms_payments := table_put (me_eq env) reversal_id
            [(lit ''payment_id'', reversal_id), (lit ''amount'', amount), (lit ''currency'', currency), (lit ''status'', JStr (lit ''reversed''))]
            (ms_payments s)\<rparr>))"

definition handle_integration_test :: "mock_env \<Rightarrow> json \<Rightarrow> mock \<Rightarrow> (client_exc + json dict) \<times> mock" where
  "handle_integration_test env args s = (Inr (reply_ok [(lit ''received'', args), (lit ''ok'', JBool True)]), s)"

text \<open>All tools but the last one read fields of their arguments.\<close>

definition on_fields :: "tool_handler \<Rightarrow> mock_env \<Rightarrow> json \<Rightarrow> mock \<Rightarrow> (client_exc + json dict) \<times> mock" where
  "on_fields h env args s = (case args of JDict d \<Rightarrow> h env d s | _ \<Rightarrow> (Inl AttributeError, s))"

definition HANDLERS :: "(mock_env \<Rightarrow> json \<Rightarrow> mock \<Rightarrow> (client_exc + json dict) \<times> mock) dict" where
  "HANDLERS = map (\<lambda>(n, h). (lit n, h))
     [(''lookup_customer'', on_fields handle_lookup_customer), (''lookup_user'', on_fields handle_lookup_user), (''lookup_plan'', on_fields handle_lookup_plan),
      (''send_email'', on_fields handle_send_email), (''notify_user'', on_fields handle_send_email), (''create_ticket'', on_fields handle_create_ticket),
      (''open_ticket'', on_fields handle_create_ticket), (''assign_engineer'', on_fields handle_assign_engineer), (''escalate_case'', on_fields handle_escalate),
      (''escalate_ticket'', on_fields handle_escalate), (''charge_payment'', on_fields handle_charge_payment), (''integration_test_tool'', handle_integration_test),
      (''compensate_send_email'', on_fields handle_compensate_send_email), (''compensate_create_ticket'', on_fields handle_compensate_create_ticket),
      (''compensate_assign_engineer'', on_fields handle_compensate_assign_engineer), (''compensate_escalate'', on_fields handle_compensate_escalate),
      (''compensate_charge_payment'', on_fields handle_compensate_charge_payment)]"

section \<open>Requests\<close>

definition do_GET :: "conn \<Rightarrow> nat \<times> json dict" where
  "do_GET c = (if c_path c = lit ''/health'' then (200, [(lit ''status'', JStr (lit ''ok''))]) else (404, [(lit ''error'', JStr (lit ''not_found''))]))"

definition idem_key :: "conn \<Rightarrow> pystr" where
  "idem_key c = (case header_get (c_headers c) ''Idempotency-Key'' of None \<Rightarrow> [] | Some v \<Rightarrow> v)"

definition run_tool :: "mock_env \<Rightarrow> pystr \<Rightarrow> json dict \<Rightarrow> mock \<Rightarrow> (client_exc + nat \<times> json dict) \<times> mock" where
  "run_tool env key call s =
     (let tool_name = dict_get call ''tool_name'' (JStr (lit ''unknown'')); args = dict_get call ''args'' (JDict []) in
      case (if key \<noteq> [] then map_of (ms_idem s) key else None) of
        Some cached \<Rightarrow> (Inr (200, cached), s)
      | None \<Rightarrow>
          (let s1 = s\<lparr>ms_calls := ms_calls s @ [(tool_name, args)]\<rparr> in
           if \<not> hashable tool_name then (Inl TypeError, s1)
           else
             (case (case tool_name of JStr n \<Rightarrow> map_of HANDLERS n | _ \<Rightarrow> None) of
                None \<Rightarrow> (Inr (404, reply_error (lit ''Unknown tool: '' @ py_repr (me_rt env) tool_name)), s1)
              | Some h \<Rightarrow>
                  (case h env args s1 of
                     (Inl e, s2) \<Rightarrow> (Inl e, s2)
                   | (Inr res, s2) \<Rightarrow>
                       (Inr (if truthy (dict_get res ''success'' (JBool False)) then 200 else 404, res),
                        if key \<noteq> [] then s2\<lparr>ms_idem := AList.update key res (ms_idem s2)\<rparr> else s2)))))"

text \<open>The body of a request; \<open>Inl None\<close> is text that is no JSON.\<close>

definition read_call :: "mock_env \<Rightarrow> conn \<Rightarrow> client_exc option + json" where
  "read_call env c =
     (case content_length c of
        None \<Rightarrow> Inl (Some (PyError (ValueError (lit ''invalid literal for int()''))))
      | Some n \<Rightarrow>
          (case stream_read n (c_rfile c) of
             Inl e \<Rightarrow> Inl (Some (PyError e))
           | Inr (body, _) \<Rightarrow>
               (case json_loads_bytes (me_rt env) body of
                  Inl e \<Rightarrow> Inl (if e = JSONDecodeError then None else Some (PyError e))
                | Inr v \<Rightarrow> Inr v)))"

definition do_POST :: "mock_env \<Rightarrow> conn \<Rightarrow> mock \<Rightarrow> (client_exc + nat \<times> json dict) \<times> mock" where
  "do_POST env c s =
     (if c_path c \<noteq> lit ''/tools'' then (Inr (404, [(lit ''error'', JStr (lit ''not_found''))]), s)
      else
        (case read_call env c of
           Inl None \<Rightarrow> (Inr (400, reply_error (lit ''invalid JSON'')), s)
         | Inl (Some e) \<Rightarrow> (Inl e, s)
         | Inr (JDict call) \<Rightarrow> run_tool env (idem_key c) call s
         | Inr _ \<Rightarrow> (Inl AttributeError, s)))"

text \<open>The requests that a server handles, one after the other.\<close>

fun serve_posts :: "mock_env \<Rightarrow> conn list \<Rightarrow> mock \<Rightarrow> mock" where
  "serve_posts env [] s = s"
| "serve_posts env (c # cs) s = serve_posts env cs (snd (do_POST env c s))"

section \<open>Idempotency keys\<close>

lemmas handler_defs = handle_lookup_customer_def handle_lookup_user_def handle_lookup_plan_def handle_send_email_def
  handle_create_ticket_def handle_assign_engineer_def handle_escalate_def handle_charge_payment_def
  handle_compensate_send_email_def handle_compensate_create_ticket_def handle_compensate_assign_engineer_def
  handle_compensate_escalate_def handle_compensate_charge_payment_def handle_integration_test_def

lemma handlers_keep: "(n, h) \<in> set HANDLERS \<Longrightarrow> ms_idem (snd (h env args s)) = ms_idem s"
  unfolding HANDLERS_def
  by (auto simp: on_fields_def handler_defs lookup_def change_ticket_def Let_def split: json.split sum.split option.split)

lemma run_tool_keeps:
  assumes "map_of (ms_idem s) key = Some res"
  shows "map_of (ms_idem (snd (run_tool env key' call s))) key = Some res"
proof -
  have h: "ms_idem s2 = ms_idem s"
    if "map_of HANDLERS n = Some h" "h env args (s\<lparr>ms_calls := l\<rparr>) = (r, s2)" for n h args l r s2
    using handlers_keep [OF map_of_SomeD [OF that(1)], of env args "s\<lparr>ms_calls := l\<rparr>"] that(2) by simp
  show ?thesis
    using assms
    by (auto simp: run_tool_def Let_def update_conv' dest!: h split: option.split json.split prod.split sum.split)
qed

lemma posts_keep: "map_of (ms_idem s) key = Some res \<Longrightarrow> map_of (ms_idem (serve_posts env cs s)) key = Some res"
proof (induction cs arbitrary: s)
  case (Cons c cs)
  have "map_of (ms_idem (snd (do_POST env c s))) key = Some res"
    using Cons.prems run_tool_keeps by (auto simp: do_POST_def split: sum.split option.split json.split)
  then show ?case using Cons.IH by simp
qed simp

text \<open>
  C40. Idempotency keys. Suppose a request with a key calls a known tool and is answered. Then
  every later request with that key is answered with the same result, whatever requests came in
  between and whatever tool and arguments it names, and it does nothing: no tool runs and
  nothing is logged. Its status is 200, also when the first answer was a failure with status
  404.
\<close>

theorem idempotency_key_replays:
  assumes "do_POST env c s = (Inr (st, res), s1)" "c_path c = lit ''/tools''" "idem_key c \<noteq> []"
    and "read_call env c = Inr (JDict call)" "dict_get call ''tool_name'' (JStr (lit ''unknown'')) = JStr n" "map_of HANDLERS n \<noteq> None"
  shows "\<forall>cs c' call'. c_path c' = lit ''/tools'' \<and> idem_key c' = idem_key c \<and> read_call env c' = Inr (JDict call') \<longrightarrow>
    do_POST env c' (serve_posts env cs s1) = (Inr (200, res), serve_posts env cs s1)"
proof (intro allI impI, elim conjE)
  fix cs c' call'
  assume c': "c_path c' = lit ''/tools''" "idem_key c' = idem_key c" "read_call env c' = Inr (JDict call')"
  have "map_of (ms_idem s1) (idem_key c) = Some res"
    using assms by (auto simp: do_POST_def run_tool_def Let_def update_conv' split: option.splits prod.splits sum.splits)
  from posts_keep [OF this, of env cs] c' assms(3) show "do_POST env c' (serve_posts env cs s1) = (Inr (200, res), serve_posts env cs s1)"
    by (simp add: do_POST_def run_tool_def)
qed

definition sample_env :: mock_env where
  "sample_env = \<lparr>me_rt = no_runtime, me_eq = (=), me_sha256 = (\<lambda>_. []), me_uuid = (\<lambda>n. show_nat n)\<rparr>"

definition mock_request :: "string \<Rightarrow> string \<Rightarrow> json dict \<Rightarrow> conn" where
  "mock_request key name args =
     (let body = json_dumps (JDict [(lit ''tool_name'', JStr (lit name)), (lit ''args'', JDict args)])
      in \<lparr>c_command = lit ''POST'', c_path = lit ''/tools'',
          c_headers = [(lit ''Content-Length'', show_nat (length body)), (lit ''Idempotency-Key'', lit key)], c_rfile = body, c_sent = [],
          c_close = False, c_body_read = False, c_request_id = None\<rparr>)"

theorem idempotency_key_replays_witness:
  "\<exists>res s1. do_POST sample_env (mock_request ''undo-1'' ''lookup_customer'' []) mock_init = (Inr (404, res), s1) \<and>
     do_POST sample_env (mock_request ''undo-1'' ''charge_payment'' [(lit ''amount'', JInt 5)])
       (serve_posts sample_env [mock_request ''undo-2'' ''create_ticket'' []] s1) =
     (Inr (200, res), serve_posts sample_env [mock_request ''undo-2'' ''create_ticket'' []] s1)"
proof -
  let ?c = "mock_request ''undo-1'' ''lookup_customer'' []" and ?c' = "mock_request ''undo-1'' ''charge_payment'' [(lit ''amount'', JInt 5)]"
  let ?call = "[(lit ''tool_name'', JStr (lit ''lookup_customer'')), (lit ''args'', JDict [])]"
  let ?call' = "[(lit ''tool_name'', JStr (lit ''charge_payment'')), (lit ''args'', JDict [(lit ''amount'', JInt 5)])]"
  let ?p = "do_POST sample_env ?c mock_init"
  have p: "?p = (Inr (404, snd (projr (fst ?p))), snd ?p)" by code_simp
  have c: "c_path ?c = lit ''/tools''" "idem_key ?c \<noteq> []" "read_call sample_env ?c = Inr (JDict ?call)"
    "c_path ?c' = lit ''/tools''" "idem_key ?c' = idem_key ?c" "read_call sample_env ?c' = Inr (JDict ?call')" by code_simp+
  have n: "dict_get ?call ''tool_name'' (JStr (lit ''unknown'')) = JStr (lit ''lookup_customer'')" by code_simp
  have h: "map_of HANDLERS (lit ''lookup_customer'') \<noteq> None" by (simp add: HANDLERS_def lit_def)
  from idempotency_key_replays [OF p c(1-3) n h] c(4-6) p show ?thesis by blast
qed

text \<open>Reversing the escalation of an assigned ticket leaves it open, with its engineer.\<close>

lemma escalation_reversed_open:
  "let post = (\<lambda>name args s. snd (do_POST sample_env (mock_request [] name args) s)); t = [(lit ''ticket_id'', JStr (lit ''TKT-0''))];
       s = post ''compensate_escalate'' t (post ''escalate_case'' t (post ''assign_engineer'' ((lit ''engineer'', JStr (lit ''mike'')) # t)
         (post ''create_ticket'' [] mock_init)))
   in map (\<lambda>(k, d). (dict_get d ''status'' JNull, dict_get d ''engineer'' JNull)) (ms_tickets s) = [(JStr (lit ''open''), JStr (lit ''mike''))]"
  by code_simp

end
