(* ===== verification/Spec2Isabelle.thy ===== *)
theory Spec2Isabelle
  imports CallSignature ServerSafety ApprovalStories DevServer Saga Ledger Resume Kernel MockServer
begin

text \<open>
  The Python part of UndoLog: the SDK with which agents intercept their tool calls, the
  integrations with agent frameworks, the local dev server, and the mock tool server of the demos.

  \<^bold>\<open>The program.\<close> A tool is an async function decorated with \<^verbatim>\<open>undolog_tool\<close>. A call of it finds
  its session, takes the session's next step index, and asks a server whether to run. The server
  derives a signature from the session, the step, the tool and the canonical form of the
  arguments, and keeps a journal of effects with at most one live effect per signature. A new call
  is told to run, or is held for an approval; a call that was completed before is answered with
  its recorded result. After the body ran, the wrapper reports the result or the failure. The dev
  server speaks this protocol over HTTP, one thread per request, and publishes events to the
  readers of its event stream. The framework integrations put the interceptor around the tools of
  an agent and run the agent in a session that a later run can resume. Source paths below are
  relative to \<^verbatim>\<open>src/sdks/undolog-py/undolog_sdk\<close> unless they start with \<^verbatim>\<open>src\<close>.

  \<^bold>\<open>Vocabulary.\<close> \<^verbatim>\<open>Prelude\<close> has strings and bytes as lists of numbers, dictionaries as association
  lists in insertion order, and exceptions as the left values of a sum. \<^verbatim>\<open>PyStr\<close>, \<^verbatim>\<open>Json\<close>,
  \<^verbatim>\<open>JsonDecode\<close> and \<^verbatim>\<open>WebText\<close> are what the sources use of Python's standard library: conversions
  of numbers and text, \<^verbatim>\<open>json\<close>, UTF-8, URLs, \<^verbatim>\<open>fnmatch\<close>, and reading from a socket. A float is held
  by its sign, its shortest decimal digits and its exponent; the operations on floats and the other
  foreign functions, such as BLAKE3 and \<^verbatim>\<open>repr\<close>, are the fields of the record \<open>runtime\<close>, an argument
  of the definitions. \<^verbatim>\<open>JsonText\<close> has the round trip of printed JSON for the values whose
  floats are read back from their text (\<open>doubles\<close>), and \<^verbatim>\<open>FloatRead\<close> a reading of float literals
  for which all well-formed floats are.

  \<^bold>\<open>Call signatures\<close> (\<^verbatim>\<open>signature.py\<close>). \<^verbatim>\<open>Signature\<close> is the module. \<^verbatim>\<open>NumberText\<close> shows that the
  number text is that of ECMAScript, \<^verbatim>\<open>CanonicalJson\<close> that two values have one canonical text
  exactly when they denote the same JSON value, and \<^verbatim>\<open>CallSignature\<close> that the signed byte stream
  identifies the call, and which exception is raised for which arguments otherwise.

  \<^bold>\<open>Errors, tiers, sessions\<close> (\<^verbatim>\<open>errors.py\<close>, \<^verbatim>\<open>tier.py\<close>, \<^verbatim>\<open>session.py\<close>). \<^verbatim>\<open>Errors\<close> has a definition per
  exception class, the base class included, and the contract they all keep; \<^verbatim>\<open>Tier\<close> has the tiers and the step counter.

  \<^bold>\<open>The journal\<close> (\<^verbatim>\<open>DevJournal\<close> of \<^verbatim>\<open>dev.py\<close>). \<^verbatim>\<open>Journal\<close> has the two tables as lists of rows and
  every method, with the exceptions of the database. \<^verbatim>\<open>JournalInv\<close> is its invariant,
  \<^verbatim>\<open>EffectLog\<close> the gate of one effect per signature at a time as a locale interpreted on the
  journal, \<^verbatim>\<open>JournalOps\<close> the
  result of each method on every branch, and \<^verbatim>\<open>Ledger\<close> the refinement of an abstract ledger of
  signatures and phases by any sequence of the journal's methods.

  \<^bold>\<open>The dev server\<close> (\<^verbatim>\<open>dev.py\<close>). \<^verbatim>\<open>Broadcaster\<close> is the event stream: which events a bounded
  queue accepts, that they are read in order, and the text of a frame. \<^verbatim>\<open>Program\<close> has a handler as a tree of atomic calls to the journal and the
  broadcaster, so that the threads of several requests can interleave; \<^verbatim>\<open>Http\<close> is one connection,
  \<^verbatim>\<open>Handler\<close> every route, \<^verbatim>\<open>HandlerLogic\<close> what holds of a handler whatever other threads do.
  \<^verbatim>\<open>ServerSafety\<close> has the gate, the invariant and the single response over all interleavings.
  \<^verbatim>\<open>Framing\<close> shows that a kept connection stays in step with the first request body on it.
  \<^verbatim>\<open>ToolCalls\<close>, \<^verbatim>\<open>CallStories\<close> and \<^verbatim>\<open>ApprovalStories\<close> follow one call, a call with its report
  and replay, and a held call with its decision, each request running undisturbed.
  \<^verbatim>\<open>DevServer\<close> has the loop of an event stream, starting, stopping and \<^verbatim>\<open>main\<close>. \<^verbatim>\<open>Samples\<close> holds
  the concrete server of the witnesses.

  \<^bold>\<open>The client side\<close> (\<^verbatim>\<open>client.py\<close>, \<^verbatim>\<open>context.py\<close>, \<^verbatim>\<open>decorators.py\<close>). \<^verbatim>\<open>Client\<close> has every method with
  the errors it raises, \<^verbatim>\<open>SessionContext\<close> the context variable, its managers and the pools of the
  default client, \<^verbatim>\<open>Decorator\<close> the wrapper around a tool and the locale \<open>effect_service\<close> with
  what it needs of a server. \<^verbatim>\<open>DevService\<close> interprets that locale on the dev server, connected to
  the client by a transport that delivers each request, and \<^verbatim>\<open>EndToEnd\<close> states for the whole
  stack that a tool runs once, waits for its approval, and runs again after a failure.

  \<^bold>\<open>Framework integrations\<close> (\<^verbatim>\<open>integrations\<close>). \<^verbatim>\<open>Instrument\<close> classifies and wraps the tools of
  LangGraph, CrewAI and LlamaIndex agents, \<^verbatim>\<open>Facades\<close> has the three facades that run the agent in
  a session, and \<^verbatim>\<open>Kernel\<close> is \<^verbatim>\<open>semantic_kernel.py\<close>. \<^verbatim>\<open>Resume\<close> extends the contract of the server
  by what replaying needs and shows that running a crew or a graph again replays the completed
  calls and goes on with the rest. There an agent is any sequential program of tool calls; a graph
  that is invoked with the state it returned is assumed to begin with the completed calls.

  \<^bold>\<open>Test harness and mock server\<close> (\<^verbatim>\<open>test_harness.py\<close>, \<^verbatim>\<open>src/infra/mock-tool-server/server.py\<close>).
  \<^verbatim>\<open>Compensation\<close> has the retries and their intervals, \<^verbatim>\<open>Saga\<close> the rollback in LIFO order, which
  compensations it calls, and the assertion on its report, \<^verbatim>\<open>MockServer\<close> the tools, their compensations and the idempotency keys.

  \<^bold>\<open>Bounds and termination.\<close> Every function is total. The loops over a stream of bytes terminate by
  the length of what is left to read, and the retry loops by the attempts left. The JSON decoder
  has fuel of one more than the length of the text; every recursive call but the first follows a
  consumed character, and the round trip shows that a printed text is always decoded. The loop of
  an event stream takes the list of its wake-up times as an argument, and \<open>close_ends_streams\<close>
  shows that it ends. The limits of the code are kept: 128 waiting events, the ceiling of a
  request body and of a chunk's size line, 32-bit steps and lengths, 64-bit integers in the database.

  \<^bold>\<open>Parameters.\<close> Code outside the repository is an argument: \<^verbatim>\<open>httpx\<close> as a function on the world,
  the agent framework as a program that runs in a session, the body of a tool as a function on
  the world outside, the clock and \<^verbatim>\<open>uuid4\<close> as given values, \<^verbatim>\<open>argparse\<close> and the binding of the
  socket as functions. What a property relies on is a named hypothesis, such as that new
  identifiers are fresh and that the hash has no collision on the two inputs compared.

  \<^bold>\<open>Not modelled.\<close> Log messages, time stamps of the mock server, the headers \<^verbatim>\<open>Server\<close> and
  \<^verbatim>\<open>Date\<close>, the attributes that a facade delegates, errors of writing to a socket other than in the
  event stream, and the limits of the interpreter on recursion and on the digits of integers: they
  do not change the state that the properties are about. \<^verbatim>\<open>logging.py\<close> and the \<^verbatim>\<open>__init__\<close> files
  have no behaviour. The benchmarks in \<^verbatim>\<open>src/infra/benchmarks\<close> compute statistics of measured times,
  the examples in \<^verbatim>\<open>src/examples\<close> are demonstration scripts, and the script for signature fixtures
  only calls \<^verbatim>\<open>signature.py\<close>. The TypeScript SDK, the Rust crates, the proxy, the web
  applications, the migrations and the deployment files are not Python; the SDK sees them only
  through HTTP, where the transport is a parameter.
\<close>

end
